theory Spec2Isabelle
  imports Complex_Main "HOL-Library.Sublist"
begin

section \<open>Strings\<close>

text \<open>
  JavaScript strings are sequences of UTF-16 code units; they are modelled as
  \<^typ>\<open>string\<close> (lists of characters), one \<^typ>\<open>char\<close> standing for one code unit.
  Every function below only compares code units with ASCII constants, so the size of
  the alphabet plays no role.
\<close>

definition NL :: char where
  "NL = CHR 0x0A"

definition ESC :: char where
  "ESC = CHR 0x1B"

definition NUL :: char where
  "NUL = CHR 0x00"

text \<open>\<^verbatim>\<open>s.indexOf(c)\<close> for a one-character needle: the first index, or None for -1.\<close>

fun index_of :: "char \<Rightarrow> string \<Rightarrow> nat option" where
  "index_of c [] = None"
| "index_of c (x # xs) = (if x = c then Some 0 else map_option Suc (index_of c xs))"

text \<open>\<^verbatim>\<open>s.indexOf(c, start)\<close>; a start at or beyond the end finds nothing.\<close>

definition indexOf :: "string \<Rightarrow> char \<Rightarrow> nat \<Rightarrow> nat option" where
  "indexOf s c start = map_option (\<lambda>i. start + i) (index_of c (drop start s))"

section \<open>Replay buffer (server.js, filterHistoryForReplay and trimHistoryForReplay)\<close>

text \<open>The control sequence ESC [ 3 J ("erase scroll-back").\<close>

definition clear_seq :: string where
  "clear_seq = [ESC, CHR ''['', CHR ''3'', CHR ''J'']"

text \<open>
  \<^verbatim>\<open>String(data || '').replace(/\x1b\[3J/g, '')\<close>: a left-to-right scan that drops
  every match and resumes after it.
\<close>

fun filterHistoryForReplay :: "string \<Rightarrow> string" where
  "filterHistoryForReplay [] = []"
| "filterHistoryForReplay (c # cs) =
     (if prefix clear_seq (c # cs) then filterHistoryForReplay (drop 3 cs)
      else c # filterHistoryForReplay cs)"

text \<open>
  \<^verbatim>\<open>trimHistoryForReplay(history)\<close>. The ceiling \<open>HISTORY_MAX_CHARS\<close> is configuration
  (\<^verbatim>\<open>Number.parseInt(process.env.HISTORY_MAX_CHARS || '', 10) || 500000\<close>), a character
  count, and is a parameter here.
\<close>

definition trimHistoryForReplay :: "nat \<Rightarrow> string \<Rightarrow> string" where
  "trimHistoryForReplay HISTORY_MAX_CHARS s =
     (if length s \<le> HISTORY_MAX_CHARS then s
      else
        let start = length s - HISTORY_MAX_CHARS in
        (case indexOf s NL start of
           Some nl \<Rightarrow> if nl + 1 < length s then drop (nl + 1) s else drop start s
         | None \<Rightarrow> drop start s))"

text \<open>
  The history update of \<^verbatim>\<open>shell.onData\<close>:
  \<^verbatim>\<open>session.history = trimHistoryForReplay((session.history || '') + filterHistoryForReplay(data))\<close>.
\<close>

definition appendHistory :: "nat \<Rightarrow> string \<Rightarrow> string \<Rightarrow> string" where
  "appendHistory HISTORY_MAX_CHARS hist data =
     trimHistoryForReplay HISTORY_MAX_CHARS (hist @ filterHistoryForReplay data)"

text \<open>The history of a session after a sequence of PTY output chunks, starting from \<^verbatim>\<open>''\<close>.\<close>

definition historyAfter :: "nat \<Rightarrow> string list \<Rightarrow> string" where
  "historyAfter HISTORY_MAX_CHARS chunks = foldl (appendHistory HISTORY_MAX_CHARS) [] chunks"


section \<open>Further string primitives\<close>

definition SEP :: char where
  "SEP = CHR ''/''"

definition BACKSLASH :: char where
  "BACKSLASH = CHR 0x5C"

text \<open>\<^verbatim>\<open>s.split(sep)\<close> for a one-character separator; the result is never empty.\<close>

fun split_on :: "char \<Rightarrow> string \<Rightarrow> string list" where
  "split_on sep [] = [[]]"
| "split_on sep (c # cs) =
     (if c = sep then [] # split_on sep cs
      else (case split_on sep cs of
              w # ws \<Rightarrow> (c # w) # ws
            | [] \<Rightarrow> [[c]]))"

text \<open>\<^verbatim>\<open>xs.join(sep)\<close>.\<close>

fun join_with :: "char \<Rightarrow> string list \<Rightarrow> string" where
  "join_with sep [] = []"
| "join_with sep [s] = s"
| "join_with sep (s # t # ss) = s @ sep # join_with sep (t # ss)"

text \<open>
  White space as \<^verbatim>\<open>String.prototype.trim\<close> sees it, restricted to the code units below
  256: TAB, LF, VT, FF, CR, SPACE and NBSP.
\<close>

definition is_space :: "char \<Rightarrow> bool" where
  "is_space c = (c \<in> {CHR 0x09, CHR 0x0A, CHR 0x0B, CHR 0x0C, CHR 0x0D, CHR 0x20, CHR 0xA0})"

definition trim :: "string \<Rightarrow> string" where
  "trim s = rev (dropWhile is_space (rev (dropWhile is_space s)))"

definition is_ascii_upper :: "char \<Rightarrow> bool" where
  "is_ascii_upper c = (65 \<le> (of_char c :: nat) \<and> (of_char c :: nat) \<le> 90)"

definition is_ascii_lower :: "char \<Rightarrow> bool" where
  "is_ascii_lower c = (97 \<le> (of_char c :: nat) \<and> (of_char c :: nat) \<le> 122)"

text \<open>
  \<^verbatim>\<open>s.toLowerCase()\<close> on the ASCII letters. (No other code unit lower-cases to one of the
  ASCII letters that the comparisons in this file look for.)
\<close>

definition toLowerCase :: "string \<Rightarrow> string" where
  "toLowerCase s = map (\<lambda>c. if is_ascii_upper c then char_of (of_char c + (32 :: nat)) else c) s"

text \<open>\<^verbatim>\<open>s.endsWith(t)\<close> and \<^verbatim>\<open>s.includes(t)\<close>.\<close>

definition endsWith :: "string \<Rightarrow> string \<Rightarrow> bool" where
  "endsWith s t = suffix t s"

fun str_includes :: "string \<Rightarrow> string \<Rightarrow> bool" where
  "str_includes [] t = (t = [])"
| "str_includes (c # cs) t = (prefix t (c # cs) \<or> str_includes cs t)"

section \<open>Paths (the POSIX flavour of Node's path module)\<close>

text \<open>
  The server calls \<^verbatim>\<open>path.resolve\<close>, \<^verbatim>\<open>path.relative\<close>, \<^verbatim>\<open>path.dirname\<close> and
  \<^verbatim>\<open>path.join\<close>. They are library functions; the definitions below follow Node's
  implementation of \<^verbatim>\<open>path.posix\<close>.
\<close>

text \<open>
  One step of \<^verbatim>\<open>normalizeString\<close>: the stack of kept segments (innermost first) and the
  next segment. Empty segments and \<^verbatim>\<open>.\<close> are skipped, \<^verbatim>\<open>..\<close> removes the innermost kept
  segment; above the top it is dropped, or kept when \<open>allowAboveRoot\<close>.
\<close>

definition normalize_step :: "bool \<Rightarrow> string list \<Rightarrow> string \<Rightarrow> string list" where
  "normalize_step allowAboveRoot stk seg =
     (if seg = [] \<or> seg = ''.'' then stk
      else if seg = ''..'' then
        (case stk of
           [] \<Rightarrow> if allowAboveRoot then [''..''] else []
         | inner # rest \<Rightarrow>
             if inner = ''..'' then (if allowAboveRoot then ''..'' # stk else stk) else rest)
      else seg # stk)"

definition normalizeString :: "bool \<Rightarrow> string \<Rightarrow> string" where
  "normalizeString allowAboveRoot p =
     join_with SEP (rev (foldl (normalize_step allowAboveRoot) [] (split_on SEP p)))"

text \<open>
  The loop of \<^verbatim>\<open>path.resolve\<close>: arguments are taken from the last to the first, then the
  process working directory, until an absolute one has been prepended; empty arguments
  are skipped. The result is the concatenation and whether it is absolute.
\<close>

fun resolve_loop :: "string list \<Rightarrow> string \<Rightarrow> string \<times> bool" where
  "resolve_loop [] acc = (acc, False)"
| "resolve_loop (p # ps) acc =
     (if p = [] then resolve_loop ps acc
      else if hd p = SEP then (p @ SEP # acc, True)
      else resolve_loop ps (p @ SEP # acc))"

text \<open>\<^verbatim>\<open>path.resolve(...args)\<close>, with \<^verbatim>\<open>process.cwd()\<close> as the first parameter.\<close>

definition path_resolve :: "string \<Rightarrow> string list \<Rightarrow> string" where
  "path_resolve cwd args =
     (let (resolvedPath, resolvedAbsolute) = resolve_loop (rev args @ [cwd]) [];
          n = normalizeString (\<not> resolvedAbsolute) resolvedPath
      in if resolvedAbsolute then SEP # n
         else if n \<noteq> [] then n else ''.'')"

text \<open>The non-empty segments of a path.\<close>

definition segments :: "string \<Rightarrow> string list" where
  "segments p = filter (\<lambda>s. s \<noteq> []) (split_on SEP p)"

fun drop_common :: "string list \<Rightarrow> string list \<Rightarrow> string list \<times> string list" where
  "drop_common (x # xs) (y # ys) = (if x = y then drop_common xs ys else (x # xs, y # ys))"
| "drop_common xs ys = (xs, ys)"

text \<open>
  \<^verbatim>\<open>path.relative(from, to)\<close>: both are resolved; the common leading segments are
  dropped, every remaining segment of \<open>from\<close> becomes \<^verbatim>\<open>..\<close>, the remaining segments
  of \<open>to\<close> follow. (Node compares character by character and backs up to the last
  common separator, which is this comparison of segments.)
\<close>

definition path_relative :: "string \<Rightarrow> string \<Rightarrow> string \<Rightarrow> string" where
  "path_relative cwd from to =
     (if from = to then []
      else
        let f = path_resolve cwd [from]; t = path_resolve cwd [to] in
        if f = t then []
        else
          let (frest, trest) = drop_common (segments f) (segments t)
          in join_with SEP (replicate (length frest) ''..'' @ trest))"

text \<open>
  \<^verbatim>\<open>path.dirname(p)\<close>: trailing separators and the last segment are cut off, scanning
  from the end down to index 1.
\<close>

definition path_dirname :: "string \<Rightarrow> string" where
  "path_dirname p =
     (if p = [] then ''.''
      else
        let hasRoot = (hd p = SEP);
            r = dropWhile (\<lambda>c. c \<noteq> SEP) (dropWhile (\<lambda>c. c = SEP) (rev (tl p)))
        in if r = [] then (if hasRoot then ''/'' else ''.'')
           else if hasRoot \<and> length r = 1 then ''//''
           else take (length r) p)"

text \<open>\<^verbatim>\<open>path.normalize(p)\<close> and \<^verbatim>\<open>path.join(a, b)\<close>.\<close>

definition path_normalize :: "string \<Rightarrow> string" where
  "path_normalize p =
     (if p = [] then ''.''
      else
        let isAbsolute = (hd p = SEP);
            trailingSeparator = (last p = SEP);
            n = normalizeString (\<not> isAbsolute) p
        in if n = [] then (if isAbsolute then ''/'' else if trailingSeparator then ''./'' else ''.'')
           else
             let n' = (if trailingSeparator then n @ [SEP] else n)
             in if isAbsolute then SEP # n' else n')"

definition path_join :: "string \<Rightarrow> string \<Rightarrow> string" where
  "path_join a b =
     (let parts = filter (\<lambda>s. s \<noteq> []) [a, b]
      in if parts = [] then ''.'' else path_normalize (join_with SEP parts))"

section \<open>Configuration and the path sandbox\<close>

text \<open>
  The configuration constants of server.js, read once from the environment, and the two
  process values the handlers use: the working directory against which \<^verbatim>\<open>path.resolve\<close>
  completes a relative path, and the process id (in decimal) that names temp files.
\<close>

record config =
  ROOT :: string
  CWD :: string
  PID :: string
  HISTORY_MAX_CHARS :: nat
  MAX_UPLOAD_BYTES :: nat

definition MAX_TEXT_FILE_BYTES :: nat where
  "MAX_TEXT_FILE_BYTES = 2 * 1024 * 1024"

text \<open>
  \<^verbatim>\<open>withinRoot(targetPath)\<close>:
  \<^verbatim>\<open>path.resolve(targetPath).startsWith(path.resolve(ROOT))\<close>, a comparison of strings.
\<close>

definition withinRoot :: "config \<Rightarrow> string \<Rightarrow> bool" where
  "withinRoot cfg targetPath =
     (let resolved = path_resolve (CWD cfg) [targetPath]
      in prefix (path_resolve (CWD cfg) [ROOT cfg]) resolved)"

text \<open>
  \<^verbatim>\<open>resolvePathFromQuery(raw)\<close>; \<open>None\<close> is an absent (null or undefined) parameter.
  The result is the error text or the target path.
\<close>

definition resolvePathFromQuery :: "config \<Rightarrow> string option \<Rightarrow> string + string" where
  "resolvePathFromQuery cfg raw =
     (let p = (case raw of None \<Rightarrow> ''.'' | Some s \<Rightarrow> s);
          target = path_resolve (CWD cfg) [ROOT cfg, p]
      in if \<not> withinRoot cfg target then Inl ''out of root'' else Inr target)"

text \<open>\<^verbatim>\<open>isRootPath(p)\<close>.\<close>

definition isRootPath :: "config \<Rightarrow> string \<Rightarrow> bool" where
  "isRootPath cfg p = (path_resolve (CWD cfg) [p] = path_resolve (CWD cfg) [ROOT cfg])"

text \<open>
  What the specification means by a path lying inside the root directory: the canonical
  path is the canonical root or a path below it, segment by segment.
\<close>

definition insideRoot :: "config \<Rightarrow> string \<Rightarrow> bool" where
  "insideRoot cfg p =
     prefix (segments (path_resolve (CWD cfg) [ROOT cfg])) (segments (path_resolve (CWD cfg) [p]))"


section \<open>Responses, the file system and external tools\<close>

text \<open>
  An HTTP response is its status and, for an error, the \<^verbatim>\<open>error\<close> text of the JSON body.
  The fields of a success body are not modelled.
\<close>

datatype response = Error nat string | Success

text \<open>
  The file system as the server sees it through \<^verbatim>\<open>fs\<close>: a map from canonical absolute
  paths to regular files (content as bytes, modification time in milliseconds) and
  directories. Symbolic links, permissions and device errors are not modelled, and the
  modification time is a real number, where JavaScript has a double.
\<close>

datatype node = is_File: File (bytes: string) (mtimeMs: real) | is_Dir: Dir

type_synonym filesystem = "string \<rightharpoonup> node"

text \<open>What a handler did to the world outside its own variables, in order.\<close>

datatype effect =
    Exec string "string list"
  | Mkdir string
  | WriteFile string string
  | Rename string string
  | Rm string

record world =
  files :: filesystem
  effects :: "effect list"

text \<open>
  \<^verbatim>\<open>execFileAsync(file, args)\<close>. What the external program answers is not in the
  repository: it is a parameter, a function from the command line to a rejection (with
  the error's \<^verbatim>\<open>message\<close> and \<^verbatim>\<open>stderr\<close>) or to the standard output. What the program
  itself writes to disk is not tracked in \<^const>\<open>files\<close>.
\<close>

datatype exec_result = ExecFailed (message: string) (stderr: string) | ExecOk (stdout: string)

type_synonym tool = "string \<Rightarrow> string list \<Rightarrow> exec_result"

definition execFileAsync :: "tool \<Rightarrow> string \<Rightarrow> string list \<Rightarrow> world \<Rightarrow> exec_result \<times> world" where
  "execFileAsync T file args W = (T file args, W\<lparr>effects := effects W @ [Exec file args]\<rparr>)"

text \<open>\<^verbatim>\<open>e?.message || fallback\<close>.\<close>

definition message_or :: "string \<Rightarrow> string \<Rightarrow> string" where
  "message_or msg fallback = (if msg = [] then fallback else msg)"

text \<open>\<^verbatim>\<open>fs.existsSync\<close> and \<^verbatim>\<open>fs.statSync\<close> (which throws on a missing path).\<close>

definition existsSync :: "world \<Rightarrow> string \<Rightarrow> bool" where
  "existsSync W p = (files W p \<noteq> None)"

definition statSync :: "world \<Rightarrow> string \<Rightarrow> string + node" where
  "statSync W p = (case files W p of None \<Rightarrow> Inl ''ENOENT'' | Some n \<Rightarrow> Inr n)"

text \<open>\<^verbatim>\<open>st.size\<close>, in bytes.\<close>

definition stat_size :: "node \<Rightarrow> nat" where
  "stat_size n = (case n of File b m \<Rightarrow> length b | Dir \<Rightarrow> 0)"

text \<open>The directory \<^verbatim>\<open>/\<close> always exists.\<close>

definition isDirectoryAt :: "filesystem \<Rightarrow> string \<Rightarrow> bool" where
  "isDirectoryAt f p = (p = ''/'' \<or> f p = Some Dir)"

text \<open>
  \<^verbatim>\<open>fs.mkdirSync(p, { recursive: true })\<close> for a canonical absolute path: every missing
  directory on the way down is created; a regular file on the way makes it throw.
\<close>

fun mkdir_chain :: "filesystem \<Rightarrow> string \<Rightarrow> string list \<Rightarrow> string + filesystem" where
  "mkdir_chain f pre [] = Inr f"
| "mkdir_chain f pre (s # ss) =
     (let q = pre @ SEP # s in
      case f q of
        None \<Rightarrow> mkdir_chain (f(q \<mapsto> Dir)) q ss
      | Some Dir \<Rightarrow> mkdir_chain f q ss
      | Some (File b m) \<Rightarrow> Inl ''ENOTDIR'')"

definition mkdirSync_recursive :: "string \<Rightarrow> world \<Rightarrow> string + world" where
  "mkdirSync_recursive p W =
     (case mkdir_chain (files W) [] (segments p) of
        Inl e \<Rightarrow> Inl e
      | Inr f \<Rightarrow> Inr (W\<lparr>files := f, effects := effects W @ [Mkdir p]\<rparr>))"

text \<open>
  \<^verbatim>\<open>fs.writeFileSync(p, data)\<close>: the parent must be a directory and \<open>p\<close> must not be one.
  The new file carries the clock reading \<open>now\<close>.
\<close>

definition writeFileSync :: "string \<Rightarrow> string \<Rightarrow> real \<Rightarrow> world \<Rightarrow> string + world" where
  "writeFileSync p data now W =
     (if files W p = Some Dir then Inl ''EISDIR''
      else if \<not> isDirectoryAt (files W) (path_dirname p) then Inl ''ENOENT''
      else Inr (W\<lparr>files := (files W)(p \<mapsto> File data now),
                  effects := effects W @ [WriteFile p data]\<rparr>))"

text \<open>
  \<^verbatim>\<open>fs.renameSync(a, b)\<close> for a regular file \<open>a\<close>, which is all the handlers below rename
  (a temp file just written): \<open>b\<close> is replaced in one step. A directory as source is
  outside this model and reported as an error.
\<close>

definition renameSync :: "string \<Rightarrow> string \<Rightarrow> world \<Rightarrow> string + world" where
  "renameSync a b W =
     (case files W a of
        None \<Rightarrow> Inl ''ENOENT''
      | Some Dir \<Rightarrow> Inl ''EINVAL''
      | Some (File c m) \<Rightarrow>
          if files W b = Some Dir then Inl ''EISDIR''
          else if \<not> isDirectoryAt (files W) (path_dirname b) then Inl ''ENOENT''
          else Inr (W\<lparr>files := ((files W)(a := None))(b \<mapsto> File c m),
                      effects := effects W @ [Rename a b]\<rparr>))"

text \<open>
  \<^verbatim>\<open>fs.rmSync(p, { recursive: true, force: true })\<close> removes \<open>p\<close> and everything below it;
  \<^verbatim>\<open>fs.rmSync(p, { force: true })\<close> removes the one entry.
\<close>

definition rmSync_recursive :: "string \<Rightarrow> world \<Rightarrow> world" where
  "rmSync_recursive p W =
     W\<lparr>files := (\<lambda>q. if q = p \<or> prefix (p @ [SEP]) q then None else files W q),
       effects := effects W @ [Rm p]\<rparr>"

definition rmSync_force :: "string \<Rightarrow> world \<Rightarrow> world" where
  "rmSync_force p W = W\<lparr>files := (files W)(p := None), effects := effects W @ [Rm p]\<rparr>"

section \<open>Archive safety (server.js, normalizeEntryPath to the extract endpoint)\<close>

datatype archive_type = Zip | Tar | TarGz | TarBz2 | TarXz

definition detectArchiveType :: "string \<Rightarrow> archive_type option" where
  "detectArchiveType filePath =
     (let p = toLowerCase filePath in
      if endsWith p ''.zip'' then Some Zip
      else if endsWith p ''.tar'' then Some Tar
      else if endsWith p ''.tar.gz'' \<or> endsWith p ''.tgz'' then Some TarGz
      else if endsWith p ''.tar.bz2'' \<or> endsWith p ''.tbz2'' then Some TarBz2
      else if endsWith p ''.tar.xz'' \<or> endsWith p ''.txz'' then Some TarXz
      else None)"

text \<open>\<^verbatim>\<open>while (p.startsWith('./')) p = p.slice(2)\<close>.\<close>

fun strip_dot_slash :: "string \<Rightarrow> string" where
  "strip_dot_slash (a # b # rest) =
     (if a = CHR ''.'' \<and> b = SEP then strip_dot_slash rest else a # b # rest)"
| "strip_dot_slash p = p"

definition normalizeEntryPath :: "string \<Rightarrow> string" where
  "normalizeEntryPath entry =
     (let raw = filter (\<lambda>c. c \<noteq> NUL) entry;
          p = map (\<lambda>c. if c = BACKSLASH then SEP else c) raw
      in strip_dot_slash p)"

text \<open>The regular expression \<^verbatim>\<open>/^[a-zA-Z]:\//\<close>.\<close>

definition drive_letter_prefix :: "string \<Rightarrow> bool" where
  "drive_letter_prefix p =
     (case p of
        c # d # e # rest \<Rightarrow> (is_ascii_lower c \<or> is_ascii_upper c) \<and> d = CHR '':'' \<and> e = SEP
      | _ \<Rightarrow> False)"

definition isSafeArchiveEntry :: "string \<Rightarrow> bool" where
  "isSafeArchiveEntry entry =
     (let p = normalizeEntryPath entry in
      if p = [] then False
      else if prefix ''/'' p then False
      else if drive_letter_prefix p then False
      else
        let segs = filter (\<lambda>s. s \<noteq> []) (split_on SEP p) in
        if list_ex (\<lambda>s. s = ''..'') segs then False
        else True)"

text \<open>
  \<^verbatim>\<open>listArchiveEntries(filePath, type)\<close>: the listing command for the type, its output
  split into lines, each trimmed, empty ones dropped. A failing command throws.
\<close>

definition listing_command :: "archive_type \<Rightarrow> string \<Rightarrow> string \<times> string list" where
  "listing_command type filePath =
     (case type of
        Zip \<Rightarrow> (''unzip'', [''-Z1'', filePath])
      | Tar \<Rightarrow> (''tar'', [''-tf'', filePath])
      | TarGz \<Rightarrow> (''tar'', [''-tzf'', filePath])
      | TarBz2 \<Rightarrow> (''tar'', [''-tjf'', filePath])
      | TarXz \<Rightarrow> (''tar'', [''-tJf'', filePath]))"

definition parse_listing :: "string \<Rightarrow> string list" where
  "parse_listing out = filter (\<lambda>s. s \<noteq> []) (map trim (split_on NL out))"

definition listArchiveEntries ::
  "tool \<Rightarrow> string \<Rightarrow> archive_type \<Rightarrow> world \<Rightarrow> (string + string list) \<times> world" where
  "listArchiveEntries T filePath type W =
     (let (file, args) = listing_command type filePath;
          (r, W') = execFileAsync T file args W
      in case r of
           ExecFailed msg err \<Rightarrow> (Inl (message_or msg ''Error''), W')
         | ExecOk out \<Rightarrow> (Inr (parse_listing out), W'))"

text \<open>The extraction command of the endpoint, by archive type and overwrite flag.\<close>

definition extraction_command ::
  "archive_type \<Rightarrow> bool \<Rightarrow> string \<Rightarrow> string \<Rightarrow> string \<times> string list" where
  "extraction_command type overwrite archive dest =
     (let common = [''--no-same-owner'', ''--no-same-permissions'', ''-C'', dest];
          ow = (if overwrite then [''--overwrite''] else [''--keep-old-files'']);
          base = ''-x'' # ow
      in case type of
           Zip \<Rightarrow> (''unzip'',
                    if overwrite then [''-o'', archive, ''-d'', dest]
                    else [''-n'', archive, ''-d'', dest])
         | Tar \<Rightarrow> (''tar'', base @ [''-f'', archive] @ common)
         | TarGz \<Rightarrow> (''tar'', base @ [''-z'', ''-f'', archive] @ common)
         | TarBz2 \<Rightarrow> (''tar'', base @ [''-j'', ''-f'', archive] @ common)
         | TarXz \<Rightarrow> (''tar'', base @ [''-J'', ''-f'', archive] @ common))"

text \<open>
  The request body of \<^verbatim>\<open>POST /api/archive/extract\<close>; \<open>x_overwrite\<close> is
  \<^verbatim>\<open>Boolean(body.overwrite)\<close>.
\<close>

record extract_body =
  x_path :: "string option"
  x_dest :: "string option"
  x_overwrite :: bool

text \<open>The destination check: an existing destination must be a directory, a missing one is created.\<close>

definition prepare_dest :: "string \<Rightarrow> world \<Rightarrow> response + world" where
  "prepare_dest dest W =
     (if existsSync W dest then
        (case statSync W dest of
           Inl e \<Rightarrow> Inl (Error 400 e)
         | Inr st \<Rightarrow> if \<not> is_Dir st then Inl (Error 400 ''dest is not a directory'') else Inr W)
      else
        (case mkdirSync_recursive dest W of
           Inl e \<Rightarrow> Inl (Error 400 e)
         | Inr W' \<Rightarrow> Inr W'))"

definition run_extraction ::
  "tool \<Rightarrow> archive_type \<Rightarrow> bool \<Rightarrow> string \<Rightarrow> string \<Rightarrow> world \<Rightarrow> response \<times> world" where
  "run_extraction T type overwrite archive dest W =
     (let (file, args) = extraction_command type overwrite archive dest;
          (r, W') = execFileAsync T file args W
      in case r of
           ExecFailed msg err \<Rightarrow> (Error 500 (message_or msg ''extract failed''), W')
         | ExecOk out \<Rightarrow> (Success, W'))"

text \<open>
  The part of the endpoint after the entries have been listed: the ceilings, the search
  for an unsafe entry (\<^verbatim>\<open>entries.find\<close>, whose result is tested for truthiness, so that
  an empty string would pass as "none found"), and the extraction.
\<close>

definition check_and_extract ::
  "tool \<Rightarrow> archive_type \<Rightarrow> bool \<Rightarrow> string \<Rightarrow> string \<Rightarrow> string list \<Rightarrow> world \<Rightarrow> response \<times> world" where
  "check_and_extract T type overwrite archive dest entries W =
     (if entries = [] then (Error 400 ''empty archive'', W)
      else if length entries > 20000 then (Error 413 ''too many entries'', W)
      else
        (case find (\<lambda>x. \<not> isSafeArchiveEntry x) entries of
           Some bad \<Rightarrow>
             if bad \<noteq> [] then (Error 400 (''unsafe entry path: '' @ bad), W)
             else run_extraction T type overwrite archive dest W
         | None \<Rightarrow> run_extraction T type overwrite archive dest W))"

definition archive_extract :: "config \<Rightarrow> tool \<Rightarrow> extract_body \<Rightarrow> world \<Rightarrow> response \<times> world" where
  "archive_extract cfg T body W =
     (case resolvePathFromQuery cfg (x_path body) of
        Inl e \<Rightarrow> (Error 403 e, W)
      | Inr ar \<Rightarrow>
     (case resolvePathFromQuery cfg (x_dest body) of
        Inl e \<Rightarrow> (Error 403 e, W)
      | Inr dest \<Rightarrow>
     (case detectArchiveType ar of
        None \<Rightarrow> (Error 415 ''unsupported archive type'', W)
      | Some type \<Rightarrow>
     (case statSync W ar of
        Inl e \<Rightarrow> (Error 400 e, W)
      | Inr st \<Rightarrow>
          if \<not> is_File st then (Error 400 ''not a file'', W)
          else
     (case prepare_dest dest W of
        Inl r \<Rightarrow> (r, W)
      | Inr W1 \<Rightarrow>
     (case listArchiveEntries T ar type W1 of
        (Inl msg, W2) \<Rightarrow> (Error 400 (''cannot inspect archive safely: '' @ msg), W2)
      | (Inr entries, W2) \<Rightarrow>
          check_and_extract T type (x_overwrite body) ar dest entries W2))))))"


section \<open>Text files and deletion (server.js, PUT /api/file and POST /api/fs/delete)\<close>

text \<open>
  \<^verbatim>\<open>body.mtimeMs\<close> as the handler reads it: absent (undefined or null), present but not
  parsed to a finite number by \<^verbatim>\<open>Number.parseFloat\<close>, or a finite number.
\<close>

datatype mtime_token = NoToken | NotFinite | Token real

text \<open>
  The body of \<^verbatim>\<open>PUT /api/file\<close>. \<open>p_content\<close> is \<open>None\<close> when \<^verbatim>\<open>body.content\<close> is not a
  string; a string is given by its UTF-8 bytes, so that its length is
  \<^verbatim>\<open>Buffer.byteLength(content, 'utf8')\<close>.
\<close>

record put_body =
  p_path :: "string option"
  p_content :: "string option"
  p_mtimeMs :: mtime_token

text \<open>
  The first half of the \<^verbatim>\<open>try\<close> block: the checks on an existing file, or the creation
  of the parent directory of a new one. \<open>Inl\<close> is an early response.
\<close>

definition put_precheck :: "config \<Rightarrow> string \<Rightarrow> mtime_token \<Rightarrow> world \<Rightarrow> response + world" where
  "put_precheck cfg target providedMtimeMs W =
     (if existsSync W target then
        (case statSync W target of
           Inl e \<Rightarrow> Inl (Error 500 e)
         | Inr st \<Rightarrow>
             if \<not> is_File st then Inl (Error 400 ''not a file'')
             else if stat_size st > MAX_TEXT_FILE_BYTES
               then Inl (Error 413 ''file too large (>2097152 bytes)'')
             else
               (case providedMtimeMs of
                  Token expected \<Rightarrow>
                    if \<bar>mtimeMs st - expected\<bar> > 2 then Inl (Error 409 ''file changed on disk'')
                    else Inr W
                | _ \<Rightarrow> Inr W))
      else
        let parent = path_dirname target in
        if \<not> withinRoot cfg parent then Inl (Error 403 ''out of root'')
        else
          (case mkdirSync_recursive parent W of
             Inl e \<Rightarrow> Inl (Error 500 e)
           | Inr W' \<Rightarrow> Inr W'))"

text \<open>The second half: write the temp file, rename it over the target, stat the target.\<close>

definition put_write :: "config \<Rightarrow> string \<Rightarrow> string \<Rightarrow> real \<Rightarrow> world \<Rightarrow> response \<times> world" where
  "put_write cfg target content now W =
     (let tmp = target @ ''.'' @ PID cfg @ ''.tmp'' in
      case writeFileSync tmp content now W of
        Inl e \<Rightarrow> (Error 500 e, W)
      | Inr W1 \<Rightarrow>
          (case renameSync tmp target W1 of
             Inl e \<Rightarrow> (Error 500 e, W1)
           | Inr W2 \<Rightarrow>
               (case statSync W2 target of
                  Inl e \<Rightarrow> (Error 500 e, W2)
                | Inr st2 \<Rightarrow> (Success, W2))))"

definition put_file :: "config \<Rightarrow> real \<Rightarrow> put_body \<Rightarrow> world \<Rightarrow> response \<times> world" where
  "put_file cfg now body W =
     (case resolvePathFromQuery cfg (p_path body) of
        Inl e \<Rightarrow> (Error 403 e, W)
      | Inr target \<Rightarrow>
          (case p_content body of
             None \<Rightarrow> (Error 400 ''content must be string'', W)
           | Some content \<Rightarrow>
               if length content > MAX_TEXT_FILE_BYTES
                 then (Error 413 ''content too large (>2097152 bytes)'', W)
               else
                 (case put_precheck cfg target (p_mtimeMs body) W of
                    Inl r \<Rightarrow> (r, W)
                  | Inr W1 \<Rightarrow> put_write cfg target content now W1)))"

text \<open>
  \<^verbatim>\<open>POST /api/fs/delete\<close>. The body is a JSON object, a map from field names to values;
  the handler reads \<^verbatim>\<open>body.path\<close> and no other field.
\<close>

definition fs_delete :: "config \<Rightarrow> (string \<rightharpoonup> string) \<Rightarrow> world \<Rightarrow> response \<times> world" where
  "fs_delete cfg body W =
     (case resolvePathFromQuery cfg (body ''path'') of
        Inl e \<Rightarrow> (Error 403 e, W)
      | Inr target \<Rightarrow>
          if isRootPath cfg target then (Error 403 ''forbidden at root'', W)
          else
            (case statSync W target of
               Inl e \<Rightarrow> (Error 500 e, W)
             | Inr st \<Rightarrow>
                 if is_Dir st then (Success, rmSync_recursive target W)
                 else (Success, rmSync_force target W)))"


section \<open>Version control (server.js, resolveCwdFromReq to the revert endpoint)\<close>

text \<open>
  What the git endpoints read from a request: \<^verbatim>\<open>req.query.cwd\<close> and \<^verbatim>\<open>req.body.cwd\<close>
  (\<open>None\<close> when null or undefined), \<^verbatim>\<open>String(req.body?.mode || '')\<close>,
  \<^verbatim>\<open>String(req.body?.commit || '')\<close>, \<^verbatim>\<open>Boolean(req.body?.confirmHard)\<close> and
  \<^verbatim>\<open>Number.parseInt(req.query.limit, 10)\<close> (\<open>None\<close> for NaN).
\<close>

record git_req =
  q_cwd :: "string option"
  b_cwd :: "string option"
  g_mode :: string
  g_commit :: string
  g_confirmHard :: bool
  g_limit :: "int option"

text \<open>\<^verbatim>\<open>req.query?.cwd ?? req.body?.cwd ?? '.'\<close>.\<close>

definition raw_cwd :: "git_req \<Rightarrow> string" where
  "raw_cwd req =
     (case q_cwd req of
        Some s \<Rightarrow> s
      | None \<Rightarrow> (case b_cwd req of Some s \<Rightarrow> s | None \<Rightarrow> ''.''))"

text \<open>The test of \<^verbatim>\<open>resolveCwdFromReq\<close> for a hidden segment of the relative path.\<close>

definition hasHidden :: "config \<Rightarrow> string \<Rightarrow> bool" where
  "hasHidden cfg target =
     (let rel = path_relative (CWD cfg) (ROOT cfg) target;
          parts = filter (\<lambda>s. s \<noteq> []) (split_on SEP rel)
      in list_ex (\<lambda>p. prefix ''.'' p \<and> p \<noteq> ''.'' \<and> p \<noteq> ''..'') parts)"

text \<open>\<^verbatim>\<open>resolveCwdFromReq(req)\<close>: the error text, or the working directory.\<close>

definition resolveCwdFromReq :: "config \<Rightarrow> git_req \<Rightarrow> string + string" where
  "resolveCwdFromReq cfg req =
     (let raw = raw_cwd req in
      if trim raw = ''.'' then Inl ''forbidden at root''
      else
        let target = path_resolve (CWD cfg) [ROOT cfg, raw] in
        if \<not> withinRoot cfg target then Inl ''out of root''
        else if hasHidden cfg target then Inl ''forbidden in hidden dir''
        else Inr target)"

record git_info =
  gitAvailable :: bool
  isRepo :: bool
  repoRoot :: "string option"
  branch :: "string option"

text \<open>\<^verbatim>\<open>String(stdout || '').trim() || null\<close>.\<close>

definition trimmed_or_null :: "exec_result \<Rightarrow> string option" where
  "trimmed_or_null r =
     (case r of
        ExecFailed msg err \<Rightarrow> None
      | ExecOk out \<Rightarrow> if trim out = [] then None else Some (trim out))"

definition succeeded :: "exec_result \<Rightarrow> bool" where
  "succeeded r = (case r of ExecFailed msg err \<Rightarrow> False | ExecOk out \<Rightarrow> True)"

definition detectGitInfo :: "tool \<Rightarrow> string \<Rightarrow> world \<Rightarrow> git_info \<times> world" where
  "detectGitInfo T cwd W =
     (let (r0, W0) = execFileAsync T ''git'' [''--version''] W in
      if \<not> succeeded r0
        then (\<lparr>gitAvailable = False, isRepo = False, repoRoot = None, branch = None\<rparr>, W0)
      else
        let (r1, W1) = execFileAsync T ''git'' [''-C'', cwd, ''rev-parse'', ''--is-inside-work-tree''] W0;
            inside = (case r1 of ExecFailed msg err \<Rightarrow> False | ExecOk out \<Rightarrow> trim out = ''true'')
        in
        if \<not> inside
          then (\<lparr>gitAvailable = True, isRepo = False, repoRoot = None, branch = None\<rparr>, W1)
        else
          let (r2, W2) = execFileAsync T ''git'' [''-C'', cwd, ''rev-parse'', ''--show-toplevel''] W1;
              (r3, W3) = execFileAsync T ''git'' [''-C'', cwd, ''rev-parse'', ''--abbrev-ref'', ''HEAD''] W2
          in (\<lparr>gitAvailable = True, isRepo = True,
               repoRoot = trimmed_or_null r2, branch = trimmed_or_null r3\<rparr>, W3))"

text \<open>The argument that names the upstream of the current branch.\<close>

definition UPSTREAM_REF :: string where
  "UPSTREAM_REF = CHR 0x40 # ''{u}''"

definition detectUpstream :: "tool \<Rightarrow> string \<Rightarrow> world \<Rightarrow> string option \<times> world" where
  "detectUpstream T cwd W =
     (let (r, W') = execFileAsync T ''git''
                      [''-C'', cwd, ''rev-parse'', ''--abbrev-ref'', ''--symbolic-full-name'', UPSTREAM_REF] W
      in (trimmed_or_null r, W'))"

text \<open>\<^verbatim>\<open>GET /api/git/info\<close>.\<close>

definition git_info_endpoint :: "config \<Rightarrow> tool \<Rightarrow> git_req \<Rightarrow> world \<Rightarrow> response \<times> world" where
  "git_info_endpoint cfg T req W =
     (case resolveCwdFromReq cfg req of
        Inl e \<Rightarrow> (Error 403 e, W)
      | Inr cwd \<Rightarrow> (let (info, W1) = detectGitInfo T cwd W in (Success, W1)))"

text \<open>
  \<^verbatim>\<open>POST /api/git/init\<close>. The second tool answers the queries made after
  \<^verbatim>\<open>git init\<close> has changed the repository.
\<close>

definition git_init :: "config \<Rightarrow> tool \<Rightarrow> tool \<Rightarrow> git_req \<Rightarrow> world \<Rightarrow> response \<times> world" where
  "git_init cfg T T' req W =
     (case resolveCwdFromReq cfg req of
        Inl e \<Rightarrow> (Error 403 e, W)
      | Inr cwd \<Rightarrow>
          (case statSync W cwd of
             Inl e \<Rightarrow> (Error 400 ''cwd not found'', W)
           | Inr st \<Rightarrow>
               if \<not> is_Dir st then (Error 400 ''cwd is not a directory'', W)
               else
                 let (info, W1) = detectGitInfo T cwd W in
                 if \<not> gitAvailable info then (Error 400 ''git not available'', W1)
                 else if isRepo info then (Success, W1)
                 else
                   let (r, W2) = execFileAsync T ''git'' [''-C'', cwd, ''init''] W1 in
                   (case r of
                      ExecFailed msg err \<Rightarrow> (Error 500 (message_or msg ''git init failed''), W2)
                    | ExecOk out \<Rightarrow>
                        (let (info2, W3) = detectGitInfo T' cwd W2 in (Success, W3)))))"

text \<open>
  The last stage of \<^verbatim>\<open>POST /api/git/reset\<close>, from the upstream requirement on: the
  upstream must be configured, the target must be reachable from HEAD, a target that is
  on the upstream must be the upstream head, and then \<^verbatim>\<open>git reset\<close> runs.
\<close>

definition reset_to ::
  "tool \<Rightarrow> tool \<Rightarrow> string \<Rightarrow> string \<Rightarrow> string \<Rightarrow> world \<Rightarrow> response \<times> world" where
  "reset_to T T' cwd mode commit W =
     (let (upstream, W1) = detectUpstream T cwd W in
      case upstream of
        None \<Rightarrow> (Error 400 ''upstream not configured'', W1)
      | Some up \<Rightarrow>
          let (ra, W2) = execFileAsync T ''git'' [''-C'', cwd, ''merge-base'', ''--is-ancestor'', commit, up] W1;
              isOnUpstream = succeeded ra;
              (rh, W3) = execFileAsync T ''git'' [''-C'', cwd, ''merge-base'', ''--is-ancestor'', commit, ''HEAD''] W2
          in
          if \<not> succeeded rh then (Error 400 ''commit not reachable from HEAD'', W3)
          else
            let (ru, W4) = execFileAsync T ''git'' [''-C'', cwd, ''rev-parse'', up] W3;
                upstreamHead = trimmed_or_null ru
            in
            if isOnUpstream \<and> upstreamHead = None
              then (Error 400 ''cannot resolve upstream head'', W4)
            else if isOnUpstream \<and> upstreamHead \<noteq> Some commit
              then (Error 400 ''only upstream head can be reset to when pushed'', W4)
            else
              let (rr, W5) = execFileAsync T ''git''
                               [''-C'', cwd, ''reset'', if mode = ''soft'' then ''--soft'' else ''--hard'', commit] W4
              in
              (case rr of
                 ExecFailed msg err \<Rightarrow> (Error 500 (message_or msg ''git reset failed''), W5)
               | ExecOk out \<Rightarrow>
                   (let (rn, W6) = execFileAsync T' ''git'' [''-C'', cwd, ''rev-parse'', ''HEAD''] W5 in
                    case rn of
                      ExecFailed msg err \<Rightarrow> (Error 500 (message_or msg ''git reset failed''), W6)
                    | ExecOk out \<Rightarrow> (Success, W6))))"

text \<open>\<^verbatim>\<open>POST /api/git/reset\<close>.\<close>

definition git_reset :: "config \<Rightarrow> tool \<Rightarrow> tool \<Rightarrow> git_req \<Rightarrow> world \<Rightarrow> response \<times> world" where
  "git_reset cfg T T' req W =
     (case resolveCwdFromReq cfg req of
        Inl e \<Rightarrow> (Error 403 e, W)
      | Inr cwd \<Rightarrow>
          let mode = toLowerCase (g_mode req) in
          if mode \<noteq> ''soft'' \<and> mode \<noteq> ''hard'' then (Error 400 ''mode must be soft|hard'', W)
          else
            let commit = trim (g_commit req) in
            if commit = [] then (Error 400 ''missing commit'', W)
            else
              let confirmHard = g_confirmHard req;
                  (info, W1) = detectGitInfo T cwd W
              in
              if \<not> gitAvailable info then (Error 400 ''git not available'', W1)
              else if \<not> isRepo info then (Error 400 ''not a git repo'', W1)
              else if mode = ''hard'' \<and> \<not> confirmHard
                then (Error 400 ''hard reset requires confirmHard=true'', W1)
              else
                let (rc, W2) = execFileAsync T ''git'' [''-C'', cwd, ''cat-file'', ''-e'', commit @ ''^{commit}''] W1 in
                if \<not> succeeded rc then (Error 400 ''invalid commit'', W2)
                else reset_to T T' cwd mode commit W2)"


text \<open>\<^verbatim>\<open>Math.min(200, Math.max(1, Number.parseInt(...) || 50))\<close> and its decimal form.\<close>

definition commits_limit :: "int option \<Rightarrow> nat" where
  "commits_limit n =
     (let k = (case n of None \<Rightarrow> 50 | Some i \<Rightarrow> if i = 0 then 50 else i)
      in nat (min 200 (max 1 k)))"

function decimal :: "nat \<Rightarrow> string" where
  "decimal n =
     (if n < 10 then [char_of (48 + n)]
      else decimal (n div 10) @ [char_of (48 + n mod 10)])"
  by pat_completeness auto
termination
  by (relation "measure (\<lambda>n. n)") auto

text \<open>The regular expression \<^verbatim>\<open>/does not have any commits|your current branch/i\<close>.\<close>

definition no_commits_yet :: "string \<Rightarrow> bool" where
  "no_commits_yet m =
     (str_includes (toLowerCase m) ''does not have any commits''
      \<or> str_includes (toLowerCase m) ''your current branch'')"

text \<open>
  The \<^verbatim>\<open>catch\<close> block of \<^verbatim>\<open>GET /api/git/commits\<close>, for an error with the given message
  and standard error output.
\<close>

definition commits_catch :: "tool \<Rightarrow> string \<Rightarrow> string \<Rightarrow> string \<Rightarrow> world \<Rightarrow> response \<times> world" where
  "commits_catch T cwd msg err W =
     (if no_commits_yet (if err \<noteq> [] then err else msg) then
        let (info, W1) = detectGitInfo T cwd W;
            (upstream, W2) = (if isRepo info then detectUpstream T cwd W1 else (None, W1));
            W3 = (case upstream of
                    None \<Rightarrow> W2
                  | Some up \<Rightarrow> snd (execFileAsync T ''git'' [''-C'', cwd, ''rev-parse'', up] W2))
        in (Success, W3)
      else (Error 500 (message_or msg ''git log failed''), W))"

text \<open>\<^verbatim>\<open>GET /api/git/commits\<close>; every command of it is a query.\<close>

definition git_commits :: "config \<Rightarrow> tool \<Rightarrow> git_req \<Rightarrow> world \<Rightarrow> response \<times> world" where
  "git_commits cfg T req W =
     (case resolveCwdFromReq cfg req of
        Inl e \<Rightarrow> (Error 403 e, W)
      | Inr cwd \<Rightarrow>
          let limit = commits_limit (g_limit req);
              (info, W1) = detectGitInfo T cwd W
          in
          if \<not> gitAvailable info then (Success, W1)
          else if \<not> isRepo info then (Success, W1)
          else
            let (upstream, W2) = detectUpstream T cwd W1;
                W3 = (case upstream of
                        None \<Rightarrow> W2
                      | Some up \<Rightarrow> snd (execFileAsync T ''git'' [''-C'', cwd, ''rev-parse'', up] W2));
                (rl, W4) = execFileAsync T ''git''
                             [''-C'', cwd, ''log'', ''-n'', decimal limit, ''--date=iso-strict'',
                              ''--pretty=format:%H%x1f%h%x1f%an%x1f%ad%x1f%s''] W3
            in
            (case rl of
               ExecFailed msg err \<Rightarrow> commits_catch T cwd msg err W4
             | ExecOk out \<Rightarrow>
                 (case upstream of
                    None \<Rightarrow> (Success, W4)
                  | Some up \<Rightarrow>
                      (let (rv, W5) = execFileAsync T ''git''
                                        [''-C'', cwd, ''rev-list'', ''--max-count=5000'', up @ ''..HEAD''] W4
                       in case rv of
                            ExecFailed msg err \<Rightarrow> commits_catch T cwd msg err W5
                          | ExecOk out' \<Rightarrow> (Success, W5)))))"

text \<open>\<^verbatim>\<open>s.trimEnd()\<close>, and the non-empty pieces of \<^verbatim>\<open>s.split(/\s+/)\<close>.\<close>

definition trimEnd :: "string \<Rightarrow> string" where
  "trimEnd s = rev (dropWhile is_space (rev s))"

definition split_ws :: "string \<Rightarrow> string list" where
  "split_ws s =
     filter (\<lambda>w. w \<noteq> [])
       (foldr (\<lambda>c acc. if is_space c then [] # acc
                        else (case acc of w # ws \<Rightarrow> (c # w) # ws | [] \<Rightarrow> [[c]])) s [[]])"

text \<open>Whether \<^verbatim>\<open>git status --porcelain\<close> lists anything but untracked files.\<close>

definition hasTrackedChanges :: "string \<Rightarrow> bool" where
  "hasTrackedChanges statusOut =
     list_ex (\<lambda>line. \<not> prefix ''?? '' line)
       (filter (\<lambda>l. l \<noteq> []) (map trimEnd (split_on NL statusOut)))"

definition parentCount :: "string \<Rightarrow> nat" where
  "parentCount parentsStdout = length (split_ws (trim parentsStdout)) - 1"

text \<open>The regular expression \<^verbatim>\<open>/conflict|CONFLICT|could not apply|after resolving/i\<close>.\<close>

definition conflict_marker :: "string \<Rightarrow> bool" where
  "conflict_marker err =
     (str_includes (toLowerCase err) ''conflict''
      \<or> str_includes (toLowerCase err) ''could not apply''
      \<or> str_includes (toLowerCase err) ''after resolving'')"

text \<open>
  The last stage of \<^verbatim>\<open>POST /api/git/revert\<close>, from the check of the working tree on.
\<close>

definition revert_commit :: "tool \<Rightarrow> tool \<Rightarrow> string \<Rightarrow> string \<Rightarrow> world \<Rightarrow> response \<times> world" where
  "revert_commit T T' cwd commit W =
     (let (rs, W1) = execFileAsync T ''git'' [''-C'', cwd, ''status'', ''--porcelain''] W in
      case rs of
        ExecFailed msg err \<Rightarrow> (Error 500 (message_or msg ''git revert failed''), W1)
      | ExecOk statusOut \<Rightarrow>
          if hasTrackedChanges statusOut then (Error 400 ''working tree not clean'', W1)
          else
            let (rp, W2) = execFileAsync T ''git'' [''-C'', cwd, ''rev-list'', ''--parents'', ''-n'', ''1'', commit] W1;
                isMerge = (case rp of ExecFailed msg err \<Rightarrow> False | ExecOk out \<Rightarrow> parentCount out > 1)
            in
            if isMerge then (Error 400 ''merge commit revert not supported'', W2)
            else
              let (rr, W3) = execFileAsync T ''git'' [''-C'', cwd, ''revert'', ''--no-edit'', commit] W2 in
              (case rr of
                 ExecFailed msg err \<Rightarrow>
                   if conflict_marker err then (Error 409 ''revert conflict'', W3)
                   else (Error 500 (message_or msg ''git revert failed''), W3)
               | ExecOk out \<Rightarrow>
                   (let (rn, W4) = execFileAsync T' ''git'' [''-C'', cwd, ''rev-parse'', ''HEAD''] W3 in
                    case rn of
                      ExecFailed msg err \<Rightarrow> (Error 500 (message_or msg ''git revert failed''), W4)
                    | ExecOk out' \<Rightarrow>
                        (let (upstream, W5) = detectUpstream T' cwd W4 in (Success, W5)))))"

text \<open>\<^verbatim>\<open>POST /api/git/revert\<close>.\<close>

definition git_revert :: "config \<Rightarrow> tool \<Rightarrow> tool \<Rightarrow> git_req \<Rightarrow> world \<Rightarrow> response \<times> world" where
  "git_revert cfg T T' req W =
     (case resolveCwdFromReq cfg req of
        Inl e \<Rightarrow> (Error 403 e, W)
      | Inr cwd \<Rightarrow>
          let commit = trim (g_commit req) in
          if commit = [] then (Error 400 ''missing commit'', W)
          else
            let (info, W1) = detectGitInfo T cwd W in
            if \<not> gitAvailable info then (Error 400 ''git not available'', W1)
            else if \<not> isRepo info then (Error 400 ''not a git repo'', W1)
            else
              let (rc, W2) = execFileAsync T ''git'' [''-C'', cwd, ''cat-file'', ''-e'', commit @ ''^{commit}''] W1 in
              if \<not> succeeded rc then (Error 400 ''invalid commit'', W2)
              else
                let (rh, W3) = execFileAsync T ''git'' [''-C'', cwd, ''merge-base'', ''--is-ancestor'', commit, ''HEAD''] W2 in
                if \<not> succeeded rh then (Error 400 ''commit not reachable from HEAD'', W3)
                else revert_commit T T' cwd commit W3)"

text \<open>The five version-control endpoints, by name.\<close>

datatype git_endpoint = GitInfo | GitCommits | GitInit | GitReset | GitRevert

definition serve_git ::
  "git_endpoint \<Rightarrow> config \<Rightarrow> tool \<Rightarrow> tool \<Rightarrow> git_req \<Rightarrow> world \<Rightarrow> response \<times> world" where
  "serve_git ep cfg T T' req W =
     (case ep of
        GitInfo \<Rightarrow> git_info_endpoint cfg T req W
      | GitCommits \<Rightarrow> git_commits cfg T req W
      | GitInit \<Rightarrow> git_init cfg T T' req W
      | GitReset \<Rightarrow> git_reset cfg T T' req W
      | GitRevert \<Rightarrow> git_revert cfg T T' req W)"

text \<open>The effects a handler added to the log.\<close>

definition new_effects :: "world \<Rightarrow> world \<Rightarrow> effect list" where
  "new_effects W W' = drop (length (effects W)) (effects W')"

text \<open>An invocation of an external program, and one of \<^verbatim>\<open>git reset\<close> in particular.\<close>

definition is_exec :: "effect \<Rightarrow> bool" where
  "is_exec e = (case e of Exec file args \<Rightarrow> True | _ \<Rightarrow> False)"

definition is_git_reset :: "effect \<Rightarrow> bool" where
  "is_git_reset e =
     (case e of
        Exec file (a # b # sub # rest) \<Rightarrow> file = ''git'' \<and> a = ''-C'' \<and> sub = ''reset''
      | _ \<Rightarrow> False)"


section \<open>Terminal sessions (server.js, the WebSocket endpoint /ws/pty)\<close>

text \<open>
  A session, as the object built in the connection handler; \<open>shell\<close> is the handle of
  the PTY process and \<open>sockets\<close> the set of attached sockets, named by numbers.
\<close>

record session =
  sid :: string
  shell :: nat
  s_cwd :: string
  cols :: int
  rows :: int
  s_clientId :: string
  created :: real
  lastActivity :: real
  history :: string
  sockets :: "nat set"

text \<open>
  A socket of the \<^verbatim>\<open>ws\<close> library: its \<^verbatim>\<open>readyState\<close> (1 is OPEN, 2 is CLOSING), the text
  frames sent on it so far, oldest first, and the arguments of \<^verbatim>\<open>close\<close>.
\<close>

record socket =
  readyState :: nat
  sent :: "string list"
  closeCode :: "nat option"
  closeReason :: string

record server =
  terminalSessions :: "string \<rightharpoonup> session"
  socks :: "nat \<Rightarrow> socket"

text \<open>
  \<^verbatim>\<open>ws.send(text)\<close> queues a frame on an open socket; on a socket that is closing or
  closed the frame is dropped. \<^verbatim>\<open>ws.close(code, reason)\<close> starts the closing handshake.
\<close>

definition ws_send :: "nat \<Rightarrow> string \<Rightarrow> server \<Rightarrow> server" where
  "ws_send ws text srv =
     (if readyState (socks srv ws) = 1
        then srv\<lparr>socks := (socks srv)(ws := (socks srv ws)\<lparr>sent := sent (socks srv ws) @ [text]\<rparr>)\<rparr>
      else srv)"

definition ws_close :: "nat \<Rightarrow> nat option \<Rightarrow> string \<Rightarrow> server \<Rightarrow> server" where
  "ws_close ws code reason srv =
     (if readyState (socks srv ws) = 1
        then srv\<lparr>socks := (socks srv)(ws := (socks srv ws)\<lparr>readyState := 2, closeCode := code,
                                                        closeReason := reason\<rparr>)\<rparr>
      else srv)"

text \<open>
  The \<^verbatim>\<open>connection\<close> event hands the handler a socket object of its own: open, with
  nothing sent on it.
\<close>

definition accept :: "nat \<Rightarrow> server \<Rightarrow> server" where
  "accept ws srv =
     srv\<lparr>socks := (socks srv)(ws := \<lparr>readyState = 1, sent = [], closeCode = None, closeReason = []\<rparr>)\<rparr>"

text \<open>
  \<^verbatim>\<open>for (i = 0; i < s.length; i += chunkSize) ws.send(s.slice(i, i + chunkSize))\<close>: the
  slices, in order. The chunk size is the constant \<^verbatim>\<open>16 * 1024\<close> at the only call; with
  a chunk size of 0 the JavaScript loop would not end, and no slices are given here.
\<close>

function chunks_of :: "nat \<Rightarrow> string \<Rightarrow> string list" where
  "chunks_of n s = (if s = [] \<or> n = 0 then [] else take n s # chunks_of n (drop n s))"
  by pat_completeness auto
termination
  by (relation "measure (\<lambda>(n, s). length s)") auto

declare chunks_of.simps [simp del]

definition sendWsTextInChunks :: "nat \<Rightarrow> string \<Rightarrow> server \<Rightarrow> server" where
  "sendWsTextInChunks ws text srv = foldl (\<lambda>v c. ws_send ws c v) srv (chunks_of (16 * 1024) text)"

text \<open>
  \<^verbatim>\<open>generateSessionId()\<close>: the hexadecimal form of \<^verbatim>\<open>crypto.randomBytes(16)\<close>. The bytes
  drawn (numbers below 256) are a parameter.
\<close>

definition hex_digit :: "nat \<Rightarrow> char" where
  "hex_digit d = ''0123456789abcdef'' ! (d mod 16)"

definition generateSessionId :: "nat list \<Rightarrow> string" where
  "generateSessionId randomBytes = concat (map (\<lambda>b. [hex_digit (b div 16), hex_digit b]) randomBytes)"

text \<open>
  The query parameters of a connection: \<^verbatim>\<open>url.searchParams.get\<close> of \<^verbatim>\<open>cwd\<close>,
  \<^verbatim>\<open>sessionId\<close> and \<^verbatim>\<open>clientId\<close> (\<open>None\<close> for null), and \<^verbatim>\<open>Number.parseInt\<close> of \<^verbatim>\<open>cols\<close>
  and \<^verbatim>\<open>rows\<close> (\<open>None\<close> for NaN).
\<close>

record ws_req =
  w_cwd :: "string option"
  w_sessionId :: "string option"
  w_clientId :: "string option"
  w_cols :: "int option"
  w_rows :: "int option"

text \<open>\<^verbatim>\<open>x || fallback\<close> on a string that may be null, and on a parsed number.\<close>

definition str_or :: "string option \<Rightarrow> string \<Rightarrow> string" where
  "str_or x fallback = (case x of None \<Rightarrow> fallback | Some s \<Rightarrow> if s = [] then fallback else s)"

definition int_or :: "int option \<Rightarrow> int \<Rightarrow> int" where
  "int_or x fallback = (case x of None \<Rightarrow> fallback | Some i \<Rightarrow> if i = 0 then fallback else i)"

text \<open>The branch of the handler for a session that is in the registry.\<close>

definition reconnect :: "nat \<Rightarrow> string \<Rightarrow> string \<Rightarrow> session \<Rightarrow> server \<Rightarrow> server" where
  "reconnect ws sessionId client sess0 srv =
     (let sess1 = (if client \<noteq> [] \<and> s_clientId sess0 = [] then sess0\<lparr>s_clientId := client\<rparr> else sess0);
          srv1 = srv\<lparr>terminalSessions := (terminalSessions srv)(sessionId \<mapsto> sess1)\<rparr>
      in
      if client \<noteq> [] \<and> s_clientId sess1 \<noteq> [] \<and> s_clientId sess1 \<noteq> client then
        ws_close ws (Some 1008) ''SESSION_FORBIDDEN''
          (ws_send ws (''SESSION_FORBIDDEN:'' @ sessionId) srv1)
      else
        let sess2 = sess1\<lparr>sockets := insert ws (sockets sess1)\<rparr>;
            srv2 = srv1\<lparr>terminalSessions := (terminalSessions srv1)(sessionId \<mapsto> sess2)\<rparr>;
            srv3 = (if history sess2 \<noteq> [] then sendWsTextInChunks ws (history sess2) srv2 else srv2)
        in ws_send ws (''SESSION_ID:'' @ sid sess2) srv3)"

text \<open>The branch for a session identifier that is not in the registry.\<close>

definition reject_unknown :: "nat \<Rightarrow> string \<Rightarrow> server \<Rightarrow> server" where
  "reject_unknown ws sessionId srv =
     ws_close ws (Some 1008) ''SESSION_NOT_FOUND''
       (ws_send ws (''SESSION_NOT_FOUND:'' @ sessionId) srv)"

text \<open>
  The branch that creates a session. \<open>pty\<close> is what \<^verbatim>\<open>pty.spawn\<close> returns, \<open>None\<close> when it
  throws, which ends the handler.
\<close>

definition create_session ::
  "nat list \<Rightarrow> nat option \<Rightarrow> real \<Rightarrow> nat \<Rightarrow> string \<Rightarrow> int \<Rightarrow> int \<Rightarrow> string \<Rightarrow> server \<Rightarrow> server" where
  "create_session randomBytes pty now ws dir c r client srv =
     (let newSessionId = generateSessionId randomBytes in
      case pty of
        None \<Rightarrow> srv
      | Some sh \<Rightarrow>
          let sess = \<lparr>sid = newSessionId, shell = sh, s_cwd = dir, cols = c, rows = r,
                      s_clientId = client, created = now, lastActivity = now,
                      history = [], sockets = {ws}\<rparr>;
              srv1 = srv\<lparr>terminalSessions := (terminalSessions srv)(newSessionId \<mapsto> sess)\<rparr>;
              srv2 = ws_send ws ([ESC] @ '']0;Session: '' @ newSessionId @ [CHR 0x07]) srv1
          in ws_send ws (''SESSION_ID:'' @ sid sess) srv2)"

text \<open>\<^verbatim>\<open>wss.on('connection', (ws, req) => ...)\<close>, up to the registration of the listeners.\<close>

definition on_connection ::
  "config \<Rightarrow> nat list \<Rightarrow> nat option \<Rightarrow> real \<Rightarrow> nat \<Rightarrow> ws_req \<Rightarrow> server \<Rightarrow> server" where
  "on_connection cfg randomBytes pty now ws req srv =
     (let srv0 = accept ws srv;
          cwdParam = str_or (w_cwd req) ''.'';
          sessionId = w_sessionId req;
          client = str_or (w_clientId req) [];
          dir = path_resolve (CWD cfg) [ROOT cfg, cwdParam]
      in
      if \<not> withinRoot cfg dir then ws_close ws None [] srv0
      else
        let c = int_or (w_cols req) 80;
            r = int_or (w_rows req) 24
        in
        case sessionId of
          None \<Rightarrow> create_session randomBytes pty now ws dir c r client srv0
        | Some i \<Rightarrow>
            if i = [] then create_session randomBytes pty now ws dir c r client srv0
            else
              (case terminalSessions srv0 i of
                 Some sess \<Rightarrow> reconnect ws i client sess srv0
               | None \<Rightarrow> reject_unknown ws i srv0))"

text \<open>
  \<^verbatim>\<open>shell.onData\<close> of the session registered under an identifier: the history is
  extended and trimmed, and the data goes to every attached socket that is open.
\<close>

definition shell_onData :: "config \<Rightarrow> real \<Rightarrow> string \<Rightarrow> string \<Rightarrow> server \<Rightarrow> server" where
  "shell_onData cfg now sessionId data srv =
     (case terminalSessions srv sessionId of
        None \<Rightarrow> srv
      | Some sess \<Rightarrow>
          let sess' = sess\<lparr>history := appendHistory (HISTORY_MAX_CHARS cfg) (history sess) data,
                           lastActivity := now\<rparr>
          in srv\<lparr>terminalSessions := (terminalSessions srv)(sessionId \<mapsto> sess'),
                 socks := (\<lambda>k. if k \<in> sockets sess \<and> readyState (socks srv k) = 1
                                then (socks srv k)\<lparr>sent := sent (socks srv k) @ [data]\<rparr>
                                else socks srv k)\<rparr>)"

section \<open>Sample inputs\<close>

text \<open>A configuration, a file system and tool answers on which the theorems below are exercised.\<close>

definition example_config :: config where
  "example_config = \<lparr>ROOT = ''/home/user'', CWD = ''/srv'', PID = ''42'',
     HISTORY_MAX_CHARS = 500000, MAX_UPLOAD_BYTES = 209715200\<rparr>"

definition example_world :: world where
  "example_world = \<lparr>files = [''/home/user'' \<mapsto> Dir, ''/home/user/a.zip'' \<mapsto> File ''PK'' 1000,
      ''/home/user/a.txt'' \<mapsto> File ''old'' 1000], effects = []\<rparr>"

definition unsafe_listing :: tool where
  "unsafe_listing file args = ExecOk ''a.txt\<newline>../../etc/passwd\<newline>''"

definition safe_listing :: tool where
  "safe_listing file args = ExecOk ''a.txt\<newline>./b/c\<newline>''"

definition example_extract :: extract_body where
  "example_extract = \<lparr>x_path = Some ''a.zip'', x_dest = Some ''out'', x_overwrite = False\<rparr>"

definition example_git :: tool where
  "example_git file args =
     (if args = [''-C'', ''/home/user/p'', ''rev-parse'', ''--is-inside-work-tree''] then ExecOk ''true\<newline>''
      else if args = [''-C'', ''/home/user/p'', ''rev-parse'', ''--abbrev-ref'', ''--symbolic-full-name'', UPSTREAM_REF]
        then ExecOk ''origin/main\<newline>''
      else if args = [''-C'', ''/home/user/p'', ''rev-parse'', ''origin/main''] then ExecOk ''abc\<newline>''
      else ExecOk [])"

definition example_reset :: git_req where
  "example_reset = \<lparr>q_cwd = None, b_cwd = Some ''p'', g_mode = ''hard'', g_commit = ''def'',
     g_confirmHard = True, g_limit = None\<rparr>"

definition example_session :: session where
  "example_session = \<lparr>sid = ''feed'', shell = 7, s_cwd = ''/home/user'', cols = 80, rows = 24,
     s_clientId = ''alice'', created = 0, lastActivity = 0, history = ''hello'', sockets = {}\<rparr>"

definition example_server :: server where
  "example_server = \<lparr>terminalSessions = [''feed'' \<mapsto> example_session],
     socks = (\<lambda>k. \<lparr>readyState = 3, sent = [], closeCode = None, closeReason = []\<rparr>)\<rparr>"

definition example_connect :: ws_req where
  "example_connect = \<lparr>w_cwd = None, w_sessionId = None, w_clientId = Some ''alice'',
     w_cols = None, w_rows = None\<rparr>"

text \<open>A \<^verbatim>\<open>PUT /api/file\<close> body that names a new file in a sibling directory of the root.\<close>

definition example_put_outside :: put_body where
  "example_put_outside = \<lparr>p_path = Some ''../user2/d/x.txt'', p_content = Some ''new'',
     p_mtimeMs = NoToken\<rparr>"

section \<open>Properties\<close>

subsection \<open>The replay buffer\<close>

lemma index_of_Some: "index_of c xs = Some i \<Longrightarrow> i < length xs \<and> xs ! i = c \<and> (\<forall>j<i. xs ! j \<noteq> c)"
proof (induction xs arbitrary: i)
  case Nil then show ?case by simp
next
  case (Cons x xs)
  show ?case
  proof (cases "x = c")
    case True with Cons.prems show ?thesis by simp
  next
    case False
    with Cons.prems obtain k where k: "index_of c xs = Some k" "i = Suc k" by auto
    from Cons.IH[OF k(1)] False k(2) show ?thesis
      by (auto simp: nth_Cons split: nat.splits)
  qed
qed

lemma index_of_None: "index_of c xs = None \<longleftrightarrow> c \<notin> set xs"
  by (induction xs) auto

lemma indexOf_Some:
  assumes "indexOf s c start = Some n"
  shows "start \<le> n \<and> n < length s \<and> s ! n = c \<and> (\<forall>j. start \<le> j \<and> j < n \<longrightarrow> s ! j \<noteq> c)"
proof -
  from assms obtain i where i: "index_of c (drop start s) = Some i" "n = start + i"
    by (auto simp: indexOf_def)
  from index_of_Some[OF i(1)] have a: "i < length s - start" "drop start s ! i = c"
    and b: "\<forall>j<i. drop start s ! j \<noteq> c" by auto
  have "\<forall>j. start \<le> j \<and> j < n \<longrightarrow> s ! j \<noteq> c"
  proof (intro allI impI)
    fix j assume j: "start \<le> j \<and> j < n"
    then have "j - start < i" using i(2) by arith
    with b have "drop start s ! (j - start) \<noteq> c" by blast
    moreover have "start + (j - start) = j" using j by arith
    ultimately show "s ! j \<noteq> c" using a(1) j i(2) by (simp add: nth_drop)
  qed
  with a i(2) show ?thesis by (auto simp: nth_drop)
qed

lemma indexOf_None:
  "indexOf s c start = None \<longleftrightarrow> (\<forall>j. start \<le> j \<and> j < length s \<longrightarrow> s ! j \<noteq> c)"
proof -
  have "indexOf s c start = None \<longleftrightarrow> c \<notin> set (drop start s)"
    by (simp add: indexOf_def index_of_None)
  also have "\<dots> \<longleftrightarrow> (\<forall>j. start \<le> j \<and> j < length s \<longrightarrow> s ! j \<noteq> c)"
  proof
    assume h: "c \<notin> set (drop start s)"
    show "\<forall>j. start \<le> j \<and> j < length s \<longrightarrow> s ! j \<noteq> c"
    proof (intro allI impI)
      fix j assume j: "start \<le> j \<and> j < length s"
      then have "j - start < length (drop start s)" by simp arith
      then have "drop start s ! (j - start) \<in> set (drop start s)" by (rule nth_mem)
      moreover have "drop start s ! (j - start) = s ! j" using j by (simp add: nth_drop)
      ultimately show "s ! j \<noteq> c" using h by metis
    qed
  next
    assume h: "\<forall>j. start \<le> j \<and> j < length s \<longrightarrow> s ! j \<noteq> c"
    show "c \<notin> set (drop start s)"
    proof
      assume "c \<in> set (drop start s)"
      then obtain k where k: "k < length (drop start s)" "drop start s ! k = c"
        by (auto simp: in_set_conv_nth)
      then have "s ! (start + k) = c" "start + k < length s" by (auto simp: nth_drop)
      with h show False by auto
    qed
  qed
  finally show ?thesis .
qed

lemma trim_length: "length (trimHistoryForReplay m s) \<le> m"
  by (auto simp: trimHistoryForReplay_def Let_def split: option.splits dest: indexOf_Some)

lemma trim_suffix: "suffix (trimHistoryForReplay m s) s"
  by (auto simp: trimHistoryForReplay_def Let_def suffix_drop split: option.splits)

lemma trim_short: "length s \<le> m \<Longrightarrow> trimHistoryForReplay m s = s"
  by (simp add: trimHistoryForReplay_def)

lemma trim_cut_newline:
  assumes "m < length s" "length s - m \<le> n" "n + 1 < length s" "s ! n = NL"
    "\<forall>j. length s - m \<le> j \<and> j < n \<longrightarrow> s ! j \<noteq> NL"
  shows "trimHistoryForReplay m s = drop (n + 1) s"
proof -
  have "indexOf s NL (length s - m) \<noteq> None"
    using assms by (auto simp: indexOf_None)
  then obtain k where k: "indexOf s NL (length s - m) = Some k" by auto
  from indexOf_Some[OF k] assms have "k = n"
    by (metis linorder_neqE_nat)
  with k assms show ?thesis by (simp add: trimHistoryForReplay_def Let_def)
qed

lemma trim_cut_plain:
  assumes "m < length s" "\<forall>j. length s - m \<le> j \<and> j + 1 < length s \<longrightarrow> s ! j \<noteq> NL"
  shows "trimHistoryForReplay m s = drop (length s - m) s"
proof (cases "indexOf s NL (length s - m)")
  case None with assms show ?thesis by (simp add: trimHistoryForReplay_def Let_def)
next
  case (Some k)
  from indexOf_Some[OF Some] assms have "\<not> k + 1 < length s" by auto
  with Some assms show ?thesis by (simp add: trimHistoryForReplay_def Let_def)
qed


lemma filter_clear_seq_head: "filterHistoryForReplay (clear_seq @ v) = filterHistoryForReplay v"
  by (simp add: clear_seq_def)

lemma no_straddle:
  "\<not> prefix clear_seq (c # cs) \<Longrightarrow> \<not> prefix clear_seq (c # cs @ clear_seq @ v)"
proof (cases cs)
  case Nil then show ?thesis by (simp add: clear_seq_def ESC_def)
next
  case (Cons a as)
  note c1 = this
  show "\<not> prefix clear_seq (c # cs) \<Longrightarrow> ?thesis"
  proof (cases as)
    case Nil with c1 show ?thesis by (simp add: clear_seq_def ESC_def)
  next
    case (Cons b bs)
    note c2 = this
    show "\<not> prefix clear_seq (c # cs) \<Longrightarrow> ?thesis"
    proof (cases bs)
      case Nil with c1 c2 show ?thesis by (simp add: clear_seq_def ESC_def)
    next
      case (Cons d ds)
      with c1 c2 show "\<not> prefix clear_seq (c # cs) \<Longrightarrow> ?thesis"
        by (simp add: clear_seq_def)
    qed
  qed
qed

lemma prefix_clear_seq_drop:
  "prefix clear_seq (c # cs) \<Longrightarrow> drop 3 (cs @ w) = drop 3 cs @ w"
  by (auto simp: clear_seq_def prefix_def)

lemma filter_cut:
  "filterHistoryForReplay (u @ clear_seq @ v) = filterHistoryForReplay u @ filterHistoryForReplay v"
proof (induction u rule: filterHistoryForReplay.induct)
  case 1
  show ?case by (simp add: filter_clear_seq_head)
next
  case (2 c cs)
  show ?case
  proof (cases "prefix clear_seq (c # cs)")
    case True
    then have p: "prefix clear_seq (c # cs @ clear_seq @ v)"
      by (metis append_Cons prefix_prefix)
    from True have d: "drop 3 (cs @ clear_seq @ v) = drop 3 cs @ clear_seq @ v"
      by (rule prefix_clear_seq_drop)
    from 2(1)[OF True] True p d show ?thesis by simp
  next
    case False
    then have "\<not> prefix clear_seq (c # cs @ clear_seq @ v)" by (rule no_straddle)
    with False 2(2)[OF False] show ?thesis by simp
  qed
qed

lemma filter_no_occurrence:
  "(\<forall>u v. d \<noteq> u @ clear_seq @ v) \<Longrightarrow> filterHistoryForReplay d = d"
proof (induction d rule: filterHistoryForReplay.induct)
  case 1
  show ?case by simp
next
  case (2 c cs)
  have np: "\<not> prefix clear_seq (c # cs)"
  proof
    assume "prefix clear_seq (c # cs)"
    then obtain v where "c # cs = clear_seq @ v" by (auto simp: prefix_def)
    with 2(3)[rule_format, of "[]" v] show False by simp
  qed
  have "\<forall>u v. cs \<noteq> u @ clear_seq @ v"
  proof (intro allI notI)
    fix u v assume "cs = u @ clear_seq @ v"
    with 2(3)[rule_format, of "c # u" v] show False by simp
  qed
  with 2(2)[OF np] np show ?case by simp
qed

lemma filter_no_esc: "ESC \<notin> set d \<Longrightarrow> filterHistoryForReplay d = d"
proof (induction d)
  case Nil show ?case by simp
next
  case (Cons c cs)
  then have "\<not> prefix clear_seq (c # cs)" by (auto simp: clear_seq_def prefix_def)
  with Cons show ?case by simp
qed

lemma appendHistory_length: "length (appendHistory m h d) \<le> m"
  by (simp add: appendHistory_def trim_length)

lemma appendHistory_suffix: "suffix (appendHistory m h d) (h @ filterHistoryForReplay d)"
  by (simp add: appendHistory_def trim_suffix)

lemma foldl_appendHistory_suffix:
  "suffix (foldl (appendHistory m) h ds) (h @ concat (map filterHistoryForReplay ds))"
proof (induction ds arbitrary: h)
  case Nil show ?case by simp
next
  case (Cons d ds)
  have "suffix (foldl (appendHistory m) (appendHistory m h d) ds)
          (appendHistory m h d @ concat (map filterHistoryForReplay ds))"
    by (rule Cons.IH)
  moreover have "suffix (appendHistory m h d @ concat (map filterHistoryForReplay ds))
          ((h @ filterHistoryForReplay d) @ concat (map filterHistoryForReplay ds))"
    using appendHistory_suffix[of m h d] by (auto simp: suffix_def)
  ultimately show ?case by (auto intro: suffix_order.trans)
qed

lemma foldl_appendHistory_length:
  "length h \<le> m \<Longrightarrow> length (foldl (appendHistory m) h ds) \<le> m"
  by (induction ds arbitrary: h) (auto simp: appendHistory_length)


lemma historyAfter_length: "length (historyAfter m ds) \<le> m"
  by (simp add: historyAfter_def foldl_appendHistory_length)

lemma historyAfter_suffix: "suffix (historyAfter m ds) (concat (map filterHistoryForReplay ds))"
  using foldl_appendHistory_suffix[of m "[]" ds] by (simp add: historyAfter_def)

lemma shell_onData_history:
  "terminalSessions srv i = Some sess \<Longrightarrow>
   map_option history (terminalSessions (shell_onData cfg now i d srv) i)
     = Some (appendHistory (HISTORY_MAX_CHARS cfg) (history sess) d)"
  by (simp add: shell_onData_def Let_def)

text \<open>
  C7, as amended. After \<^verbatim>\<open>shell.onData\<close> the history of the session is
  \<^const>\<open>appendHistory\<close> of the old history and the data. For every ceiling \<open>m\<close>, old
  history and PTY output \<open>d\<close>, with \<open>acc\<close> the old history followed by the filtered
  output: the new history is at most \<open>m\<close> long; it is a suffix of \<open>acc\<close>, and all of it
  when that fits; when \<open>acc\<close> is too long and the first line feed at or after index
  \<open>length acc - m\<close> is not the last character, the history starts just after that line
  feed; when there is no line feed from that index up to the last character (exclusive),
  it starts at that index. What is appended is the output without the sequence
  ESC [ 3 J: an output in which the sequence does not occur is appended as it is, and an
  output \<open>u\<close> ESC [ 3 J \<open>v\<close> is appended as what is appended for \<open>u\<close> followed by what is
  appended for \<open>v\<close> (the two laws together fix the filter on every output). Over a whole
  run of outputs, starting from the empty history, the history stays within the ceiling
  and is a suffix of the filtered outputs.
\<close>

theorem replay_buffer_after_append:
  "(terminalSessions srv i = Some sess \<longrightarrow>
      map_option history (terminalSessions (shell_onData cfg now i d srv) i)
        = Some (appendHistory (HISTORY_MAX_CHARS cfg) (history sess) d))
   \<and> (let acc = hist @ filterHistoryForReplay d; h = appendHistory m hist d in
        length h \<le> m
        \<and> suffix h acc
        \<and> (length acc \<le> m \<longrightarrow> h = acc)
        \<and> (\<forall>n. m < length acc \<and> length acc - m \<le> n \<and> n + 1 < length acc \<and> acc ! n = NL
                \<and> (\<forall>j. length acc - m \<le> j \<and> j < n \<longrightarrow> acc ! j \<noteq> NL)
              \<longrightarrow> h = drop (n + 1) acc)
        \<and> (m < length acc \<and> (\<forall>j. length acc - m \<le> j \<and> j + 1 < length acc \<longrightarrow> acc ! j \<noteq> NL)
              \<longrightarrow> h = drop (length acc - m) acc))
   \<and> (\<forall>u v. d = u @ clear_seq @ v \<longrightarrow>
          filterHistoryForReplay d = filterHistoryForReplay u @ filterHistoryForReplay v)
   \<and> ((\<forall>u v. d \<noteq> u @ [CHR 0x1B, CHR ''['', CHR ''3'', CHR ''J''] @ v) \<longrightarrow>
          filterHistoryForReplay d = d)
   \<and> clear_seq = [CHR 0x1B, CHR ''['', CHR ''3'', CHR ''J''] \<and> NL = CHR 0x0A
   \<and> length (historyAfter m ds) \<le> m
   \<and> suffix (historyAfter m ds) (concat (map filterHistoryForReplay ds))"
proof -
  define acc where "acc = hist @ filterHistoryForReplay d"
  define h where "h = appendHistory m hist d"
  have h_trim: "h = trimHistoryForReplay m acc"
    by (simp add: h_def acc_def appendHistory_def)
  have 1: "length h \<le> m" by (simp add: h_trim trim_length)
  have 2: "suffix h acc" by (simp add: h_trim trim_suffix)
  have 3: "length acc \<le> m \<longrightarrow> h = acc" by (simp add: h_trim trim_short)
  have 4: "\<forall>n. m < length acc \<and> length acc - m \<le> n \<and> n + 1 < length acc \<and> acc ! n = NL
                \<and> (\<forall>j. length acc - m \<le> j \<and> j < n \<longrightarrow> acc ! j \<noteq> NL)
              \<longrightarrow> h = drop (n + 1) acc"
    unfolding h_trim by (intro allI impI trim_cut_newline) auto
  have 5: "m < length acc \<and> (\<forall>j. length acc - m \<le> j \<and> j + 1 < length acc \<longrightarrow> acc ! j \<noteq> NL)
              \<longrightarrow> h = drop (length acc - m) acc"
    unfolding h_trim by (intro impI trim_cut_plain) auto
  have 6: "\<forall>u v. d = u @ clear_seq @ v \<longrightarrow>
          filterHistoryForReplay d = filterHistoryForReplay u @ filterHistoryForReplay v"
    by (simp add: filter_cut)
  have 0: "terminalSessions srv i = Some sess \<longrightarrow>
      map_option history (terminalSessions (shell_onData cfg now i d srv) i)
        = Some (appendHistory (HISTORY_MAX_CHARS cfg) (history sess) d)"
    by (simp add: shell_onData_history)
  have cs: "clear_seq = [CHR 0x1B, CHR ''['', CHR ''3'', CHR ''J'']"
    by (simp add: clear_seq_def ESC_def)
  have 7: "(\<forall>u v. d \<noteq> u @ [CHR 0x1B, CHR ''['', CHR ''3'', CHR ''J''] @ v) \<longrightarrow>
          filterHistoryForReplay d = d"
    using filter_no_occurrence[of d] unfolding cs by blast
  from 0 1 2 3 4 5 6 7 cs NL_def historyAfter_length[of m ds] historyAfter_suffix[of m ds]
  show ?thesis unfolding Let_def acc_def[symmetric] h_def[symmetric] by blast
qed

text \<open>
  C7, witness: the ceilings 3 and 2 on the history \<^verbatim>\<open>a\n\<close> and the output
  \<^verbatim>\<open>b ESC[3J c\<close>, with a cut after the line feed and a cut at the ceiling; the output
  \<^verbatim>\<open>bc\<close>, in which the sequence does not occur, is appended as it is.
\<close>

theorem replay_buffer_after_append_witness:
  "appendHistory 3 [CHR ''a'', NL] ([CHR ''b''] @ clear_seq @ [CHR ''c'']) = ''bc''
   \<and> appendHistory 2 [CHR ''a'', NL] ([CHR ''b''] @ clear_seq @ [CHR ''c'']) = ''bc''
   \<and> filterHistoryForReplay ([CHR ''b''] @ clear_seq @ [CHR ''c'']) = ''bc''
   \<and> filterHistoryForReplay ''bc'' = ''bc''
   \<and> length (historyAfter 3 [[CHR ''a'', NL], [CHR ''b''] @ clear_seq @ [CHR ''c'']]) \<le> 3"
proof -
  let ?d = "[CHR ''b''] @ clear_seq @ [CHR ''c'']"
  let ?hist = "[CHR ''a'', NL]"
  let ?acc = "[CHR ''a'', NL, CHR ''b'', CHR ''c'']"
  note T3 = replay_buffer_after_append[where d = ?d and hist = ?hist and m = 3 and ds = "[?hist, ?d]"]
  note T2 = replay_buffer_after_append[where d = ?d and hist = ?hist and m = 2 and ds = "[?hist, ?d]"]
  have f: "filterHistoryForReplay ?d = ''bc''"
  proof -
    from T3 have "filterHistoryForReplay ?d
        = filterHistoryForReplay [CHR ''b''] @ filterHistoryForReplay [CHR ''c'']" by blast
    then show ?thesis by (simp add: clear_seq_def)
  qed
  have acc: "?hist @ filterHistoryForReplay ?d = ?acc" unfolding f by simp
  have a3: "appendHistory 3 ?hist ?d = ''bc''"
  proof -
    have hyp: "3 < length ?acc \<and> length ?acc - 3 \<le> 1 \<and> 1 + 1 < length ?acc \<and> ?acc ! 1 = NL
                \<and> (\<forall>j. length ?acc - 3 \<le> j \<and> j < 1 \<longrightarrow> ?acc ! j \<noteq> NL)" by simp
    from T3 have "\<forall>n. 3 < length ?acc \<and> length ?acc - 3 \<le> n \<and> n + 1 < length ?acc \<and> ?acc ! n = NL
                \<and> (\<forall>j. length ?acc - 3 \<le> j \<and> j < n \<longrightarrow> ?acc ! j \<noteq> NL)
              \<longrightarrow> appendHistory 3 ?hist ?d = drop (n + 1) ?acc"
      unfolding Let_def acc by blast
    with hyp have "appendHistory 3 ?hist ?d = drop (1 + 1) ?acc" by blast
    then show ?thesis by simp
  qed
  have a2: "appendHistory 2 ?hist ?d = ''bc''"
  proof -
    have "\<forall>j. length ?acc - 2 \<le> j \<and> j + 1 < length ?acc \<longrightarrow> ?acc ! j \<noteq> NL"
    proof (intro allI impI)
      fix j assume "length ?acc - 2 \<le> j \<and> j + 1 < length ?acc"
      then have "j = 2" by simp
      then show "?acc ! j \<noteq> NL" by (simp add: NL_def)
    qed
    then have hyp: "2 < length ?acc \<and> (\<forall>j. length ?acc - 2 \<le> j \<and> j + 1 < length ?acc \<longrightarrow> ?acc ! j \<noteq> NL)"
      by simp
    from T2 have "2 < length ?acc \<and> (\<forall>j. length ?acc - 2 \<le> j \<and> j + 1 < length ?acc \<longrightarrow> ?acc ! j \<noteq> NL)
              \<longrightarrow> appendHistory 2 ?hist ?d = drop (length ?acc - 2) ?acc"
      unfolding Let_def acc by blast
    with hyp have "appendHistory 2 ?hist ?d = drop (length ?acc - 2) ?acc" by blast
    then show ?thesis by simp
  qed
  from T3 have l: "length (historyAfter 3 [?hist, ?d]) \<le> 3" by blast
  have g: "filterHistoryForReplay ''bc'' = ''bc''"
  proof -
    have no: "\<forall>u v. ''bc'' \<noteq> u @ [CHR 0x1B, CHR ''['', CHR ''3'', CHR ''J''] @ v"
    proof (intro allI notI)
      fix u v :: string
      assume "''bc'' = u @ [CHR 0x1B, CHR ''['', CHR ''3'', CHR ''J''] @ v"
      then have "length ''bc'' = length (u @ [CHR 0x1B, CHR ''['', CHR ''3'', CHR ''J''] @ v)"
        by (rule arg_cong)
      then show False by simp
    qed
    note T0 = replay_buffer_after_append[where d = "''bc''" and hist = ?hist and m = 3
        and ds = "[?hist, ?d]"]
    from T0 no show ?thesis by blast
  qed
  from a3 a2 f g l show ?thesis by blast
qed

text \<open>
  C7, as stated, fails: with the ceiling 2 and the output \<^verbatim>\<open>abc\n\<close> there is a line
  feed at index 3, at or after the cut point 2, and the cut point is not moved past it.
\<close>

theorem cut_at_final_newline_counterexample:
  "indexOf [CHR ''a'', CHR ''b'', CHR ''c'', NL] NL (4 - 2) = Some 3
   \<and> appendHistory 2 [] [CHR ''a'', CHR ''b'', CHR ''c'', NL] = [CHR ''c'', NL]
   \<and> appendHistory 2 [] [CHR ''a'', CHR ''b'', CHR ''c'', NL]
       \<noteq> drop (3 + 1) [CHR ''a'', CHR ''b'', CHR ''c'', NL]"
  by (simp add: appendHistory_def trimHistoryForReplay_def indexOf_def clear_seq_def ESC_def NL_def)

subsection \<open>Archive entries\<close>

lemma strip_dot_slash_subset: "set (strip_dot_slash p) \<subseteq> set p"
  by (induction p rule: strip_dot_slash.induct) auto

lemma strip_dot_slash_no_prefix: "\<not> prefix ''./'' (strip_dot_slash p)"
  by (induction p rule: strip_dot_slash.induct) (auto simp: SEP_def)

lemma strip_dot_slash_suffix: "suffix (strip_dot_slash p) p"
  by (induction p rule: strip_dot_slash.induct) (auto simp: suffix_Cons)

lemma normalizeEntryPath_clean:
  "NUL \<notin> set (normalizeEntryPath e) \<and> BACKSLASH \<notin> set (normalizeEntryPath e)
   \<and> \<not> prefix ''./'' (normalizeEntryPath e)"
proof -
  let ?q = "map (\<lambda>c. if c = BACKSLASH then SEP else c) (filter (\<lambda>c. c \<noteq> NUL) e)"
  have "NUL \<notin> set ?q" by (auto simp: NUL_def SEP_def)
  moreover have "BACKSLASH \<notin> set ?q" by (auto simp: BACKSLASH_def SEP_def)
  ultimately show ?thesis
    using strip_dot_slash_subset[of ?q] strip_dot_slash_no_prefix[of ?q]
    by (auto simp: normalizeEntryPath_def Let_def)
qed

lemma strip_dot_slash_spec: "\<exists>n. p = concat (replicate n ''./'') @ strip_dot_slash p"
proof (induction p rule: strip_dot_slash.induct)
  case (1 a b rest)
  show ?case
  proof (cases "a = CHR ''.'' \<and> b = SEP")
    case True
    with 1 obtain n where n: "rest = concat (replicate n ''./'') @ strip_dot_slash rest" by auto
    from True have "a # b # rest = concat (replicate (Suc n) ''./'') @ strip_dot_slash (a # b # rest)"
      using n by (simp add: SEP_def)
    then show ?thesis by blast
  next
    case False
    then have "a # b # rest = concat (replicate 0 ''./'') @ strip_dot_slash (a # b # rest)" by auto
    then show ?thesis by blast
  qed
qed (rule exI[where x = 0], simp)+

lemma normalizeEntryPath_spec:
  "\<exists>n. map (\<lambda>c. if c = CHR 0x5C then CHR ''/'' else c) (filter (\<lambda>c. c \<noteq> CHR 0x00) e)
        = concat (replicate n ''./'') @ normalizeEntryPath e"
  using strip_dot_slash_spec[of "map (\<lambda>c. if c = CHR 0x5C then CHR ''/'' else c) (filter (\<lambda>c. c \<noteq> CHR 0x00) e)"]
  unfolding normalizeEntryPath_def NUL_def BACKSLASH_def SEP_def Let_def .

lemma split_on_dot_slashes:
  "split_on (CHR ''/'') (concat (replicate n ''./'') @ r) = replicate n ''.'' @ split_on (CHR ''/'') r"
  by (induction n) simp_all

lemma dotdot_segment_kept:
  "''..'' \<in> set (split_on (CHR ''/'')
       (map (\<lambda>c. if c = CHR 0x5C then CHR ''/'' else c) (filter (\<lambda>c. c \<noteq> CHR 0x00) e)))
   \<longleftrightarrow> ''..'' \<in> set (split_on (CHR ''/'') (normalizeEntryPath e))"
proof -
  obtain n where n: "map (\<lambda>c. if c = CHR 0x5C then CHR ''/'' else c) (filter (\<lambda>c. c \<noteq> CHR 0x00) e)
        = concat (replicate n ''./'') @ normalizeEntryPath e"
    using normalizeEntryPath_spec[of e] by blast
  show ?thesis unfolding n split_on_dot_slashes by auto
qed

lemma ascii_letter_iff:
  "is_ascii_lower c \<or> is_ascii_upper c
   \<longleftrightarrow> c \<in> set ''abcdefghijklmnopqrstuvwxyzABCDEFGHIJKLMNOPQRSTUVWXYZ''"
proof
  assume "c \<in> set ''abcdefghijklmnopqrstuvwxyzABCDEFGHIJKLMNOPQRSTUVWXYZ''"
  then show "is_ascii_lower c \<or> is_ascii_upper c"
    by (auto simp: is_ascii_lower_def is_ascii_upper_def)
next
  assume a: "is_ascii_lower c \<or> is_ascii_upper c"
  have c: "c = char_of (of_char c :: nat)" by simp
  from a have "(of_char c :: nat) \<in> {97..<123} \<union> {65..<91}"
    by (auto simp: is_ascii_lower_def is_ascii_upper_def)
  then have "char_of (of_char c :: nat) \<in> char_of ` ({97..<123} \<union> {65..<91} :: nat set)"
    by (rule imageI)
  also have "char_of ` ({97..<123} \<union> {65..<91} :: nat set)
      = set (map char_of ([97..<123] @ [65..<91] :: nat list))"
    by (simp only: set_map set_append set_upt)
  also have "map char_of ([97..<123] @ [65..<91] :: nat list)
      = ''abcdefghijklmnopqrstuvwxyzABCDEFGHIJKLMNOPQRSTUVWXYZ''"
    by code_simp
  finally show "c \<in> set ''abcdefghijklmnopqrstuvwxyzABCDEFGHIJKLMNOPQRSTUVWXYZ''"
    using c by simp
qed

lemma isSafeArchiveEntry_iff:
  "isSafeArchiveEntry e \<longleftrightarrow>
     \<not> (normalizeEntryPath e = [] \<or> prefix ''/'' (normalizeEntryPath e)
        \<or> drive_letter_prefix (normalizeEntryPath e)
        \<or> ''..'' \<in> set (split_on SEP (normalizeEntryPath e)))"
  by (auto simp: isSafeArchiveEntry_def Let_def list_ex_iff)

lemma parse_listing_nonempty: "x \<in> set (parse_listing out) \<Longrightarrow> x \<noteq> []"
  by (simp add: parse_listing_def)

lemma find_unsafe_None:
  "find (\<lambda>x. \<not> isSafeArchiveEntry x) es = None \<longleftrightarrow> (\<forall>x\<in>set es. isSafeArchiveEntry x)"
  by (auto simp: find_None_iff)

lemma find_Some_mem: "find P es = Some b \<Longrightarrow> b \<in> set es \<and> P b"
  by (auto simp: find_Some_iff)

lemma listing_not_extraction:
  "listing_command ty ar \<noteq> extraction_command ty ow ar' dest"
  by (cases ty) (auto simp: listing_command_def extraction_command_def Let_def)

lemma execFileAsync_simps [simp]:
  "fst (execFileAsync T f a W) = T f a"
  "effects (snd (execFileAsync T f a W)) = effects W @ [Exec f a]"
  "files (snd (execFileAsync T f a W)) = files W"
  by (simp_all add: execFileAsync_def)

lemma execFileAsync_eq:
  "execFileAsync T f a W = (r, W') \<longleftrightarrow> r = T f a \<and> W' = W\<lparr>effects := effects W @ [Exec f a]\<rparr>"
  by (auto simp: execFileAsync_def)

lemma run_extraction_effects:
  "run_extraction T ty ow ar dest W = (r, W') \<Longrightarrow>
   effects W' = effects W @ [Exec (fst (extraction_command ty ow ar dest)) (snd (extraction_command ty ow ar dest))]"
  by (auto simp: run_extraction_def Let_def execFileAsync_def split: prod.splits exec_result.splits)

lemma check_and_extract_cases:
  assumes "check_and_extract T ty ow ar dest es W = (r, W')" "\<forall>x\<in>set es. x \<noteq> []"
  shows "(effects W' = effects W \<and> r \<noteq> Success)
       \<or> (effects W' = effects W @ [Exec (fst (extraction_command ty ow ar dest)) (snd (extraction_command ty ow ar dest))]
          \<and> (\<forall>x\<in>set es. isSafeArchiveEntry x))"
proof (cases "find (\<lambda>x. \<not> isSafeArchiveEntry x) es")
  case None
  then have safe: "\<forall>x\<in>set es. isSafeArchiveEntry x" by (simp add: find_unsafe_None)
  from assms(1) None show ?thesis
    using safe run_extraction_effects[of T ty ow ar dest W r W']
    by (auto simp: check_and_extract_def split: if_splits)
next
  case (Some bad)
  then have "bad \<in> set es" by (auto dest: find_Some_mem)
  with assms(2) have "bad \<noteq> []" by blast
  with assms(1) Some show ?thesis
    by (auto simp: check_and_extract_def split: if_splits)
qed

lemma check_and_extract_unsafe:
  assumes "find (\<lambda>x. \<not> isSafeArchiveEntry x) es = Some bad" "\<forall>x\<in>set es. x \<noteq> []"
    "length es \<le> 20000"
  shows "check_and_extract T ty ow ar dest es W = (Error 400 (''unsafe entry path: '' @ bad), W)"
proof -
  from assms(1) have m: "bad \<in> set es" by (auto dest: find_Some_mem)
  with assms(2) have "bad \<noteq> []" by blast
  moreover from m have "es \<noteq> []" by auto
  ultimately show ?thesis using assms(1,3) by (simp add: check_and_extract_def)
qed

lemma prepare_dest_effects:
  "prepare_dest dest W = Inr W1 \<Longrightarrow> effects W1 = effects W \<or> effects W1 = effects W @ [Mkdir dest]"
  by (auto simp: prepare_dest_def mkdirSync_recursive_def split: if_splits sum.splits)


lemma listArchiveEntries_eq:
  "listArchiveEntries T ar ty W = (res, W') \<Longrightarrow>
   W' = W\<lparr>effects := effects W @ [Exec (fst (listing_command ty ar)) (snd (listing_command ty ar))]\<rparr>
   \<and> (case T (fst (listing_command ty ar)) (snd (listing_command ty ar)) of
        ExecFailed msg err \<Rightarrow> res = Inl (message_or msg ''Error'')
      | ExecOk out \<Rightarrow> res = Inr (parse_listing out))"
  by (auto simp: listArchiveEntries_def execFileAsync_def Let_def split: prod.splits exec_result.splits)


lemma archive_extract_unfold:
  assumes "resolvePathFromQuery cfg (x_path body) = Inr ar"
    "resolvePathFromQuery cfg (x_dest body) = Inr dest"
    "detectArchiveType ar = Some ty" "statSync W ar = Inr st" "is_File st"
    "prepare_dest dest W = Inr W1" "listArchiveEntries T ar ty W1 = (res, W2)"
  shows "archive_extract cfg T body W =
     (case res of
        Inl msg \<Rightarrow> (Error 400 (''cannot inspect archive safely: '' @ msg), W2)
      | Inr es \<Rightarrow> check_and_extract T ty (x_overwrite body) ar dest es W2)"
  using assms by (simp add: archive_extract_def split: sum.splits)

lemma archive_extract_early:
  assumes "archive_extract cfg T body W = (r, W')"
    and "(\<exists>e. resolvePathFromQuery cfg (x_path body) = Inl e)
         \<or> (\<exists>e. resolvePathFromQuery cfg (x_dest body) = Inl e)
         \<or> (\<exists>ar. resolvePathFromQuery cfg (x_path body) = Inr ar
               \<and> (detectArchiveType ar = None \<or> (\<exists>e. statSync W ar = Inl e)
                  \<or> (\<exists>st. statSync W ar = Inr st \<and> \<not> is_File st)))"
  shows "r \<noteq> Success \<and> W' = W"
  using assms by (auto simp: archive_extract_def split: sum.splits option.splits)

lemma prepare_dest_Inl: "prepare_dest dest W = Inl r0 \<Longrightarrow> r0 \<noteq> Success"
  by (auto simp: prepare_dest_def split: if_splits sum.splits)

lemma archive_extract_prepare_fails:
  assumes "archive_extract cfg T body W = (r, W')"
    "resolvePathFromQuery cfg (x_path body) = Inr ar"
    "resolvePathFromQuery cfg (x_dest body) = Inr dest"
    "detectArchiveType ar = Some ty" "statSync W ar = Inr st" "is_File st"
    "prepare_dest dest W = Inl r0"
  shows "r \<noteq> Success \<and> W' = W"
  using assms prepare_dest_Inl[of dest W r0] by (simp add: archive_extract_def)


lemma archive_extract_trace:
  assumes run: "archive_extract cfg T body W = (r, W')"
    and ar: "resolvePathFromQuery cfg (x_path body) = Inr ar"
    and dest: "resolvePathFromQuery cfg (x_dest body) = Inr dest"
    and ty: "detectArchiveType ar = Some ty"
  defines "lc \<equiv> Exec (fst (listing_command ty ar)) (snd (listing_command ty ar))"
    and "xc \<equiv> Exec (fst (extraction_command ty (x_overwrite body) ar dest))
                   (snd (extraction_command ty (x_overwrite body) ar dest))"
  shows "r \<noteq> Success \<and> new_effects W W' \<in> {[], [lc], [Mkdir dest, lc]}
       \<or> new_effects W W' \<in> {[lc, xc], [Mkdir dest, lc, xc]}
          \<and> (\<exists>out. T (fst (listing_command ty ar)) (snd (listing_command ty ar)) = ExecOk out
                    \<and> (\<forall>x\<in>set (parse_listing out). isSafeArchiveEntry x))"
proof (cases "\<exists>st. statSync W ar = Inr st \<and> is_File st")
  case False
  then have "(\<exists>e. statSync W ar = Inl e) \<or> (\<exists>st. statSync W ar = Inr st \<and> \<not> is_File st)"
    by (cases "statSync W ar") simp_all
  with ar have "(\<exists>e. resolvePathFromQuery cfg (x_path body) = Inl e)
         \<or> (\<exists>e. resolvePathFromQuery cfg (x_dest body) = Inl e)
         \<or> (\<exists>ar. resolvePathFromQuery cfg (x_path body) = Inr ar
               \<and> (detectArchiveType ar = None \<or> (\<exists>e. statSync W ar = Inl e)
                  \<or> (\<exists>st. statSync W ar = Inr st \<and> \<not> is_File st)))" by simp
  from archive_extract_early[OF run this] show ?thesis by (simp add: new_effects_def)
next
  case True
  then obtain st where st: "statSync W ar = Inr st" "is_File st" by blast
  show ?thesis
  proof (cases "prepare_dest dest W")
    case (Inl r0)
    from archive_extract_prepare_fails[OF run ar dest ty st Inl] show ?thesis
      by (simp add: new_effects_def)
  next
    case w1: (Inr W1)
    from prepare_dest_effects[OF w1] have
      pre: "effects W1 = effects W \<or> effects W1 = effects W @ [Mkdir dest]" .
    obtain res W2 where l: "listArchiveEntries T ar ty W1 = (res, W2)"
      by (cases "listArchiveEntries T ar ty W1")
    let ?lf = "fst (listing_command ty ar)" and ?la = "snd (listing_command ty ar)"
    from listArchiveEntries_eq[OF l] have
      w2: "effects W2 = effects W1 @ [lc]"
      and res: "case T ?lf ?la of ExecFailed msg err \<Rightarrow> res = Inl (message_or msg ''Error'')
                  | ExecOk out \<Rightarrow> res = Inr (parse_listing out)"
      by (simp_all add: lc_def)
    from w2 pre have n2: "new_effects W W2 = [lc] \<or> new_effects W W2 = [Mkdir dest, lc]"
      by (auto simp: new_effects_def)
    note unf = archive_extract_unfold[OF ar dest ty st w1 l]
    show ?thesis
    proof (cases res)
      case (Inl msg)
      with run unf have "r \<noteq> Success" "W' = W2" by auto
      with n2 show ?thesis by auto
    next
      case (Inr es)
      with res obtain out where out: "T ?lf ?la = ExecOk out" "es = parse_listing out"
        by (cases "T ?lf ?la") simp_all
      then have ne: "\<forall>x\<in>set es. x \<noteq> []" by (auto dest: parse_listing_nonempty)
      from run unf Inr have
        c: "check_and_extract T ty (x_overwrite body) ar dest es W2 = (r, W')" by simp
      from check_and_extract_cases[OF c ne] show ?thesis
      proof
        assume a: "effects W' = effects W2 \<and> r \<noteq> Success"
        then have "new_effects W W' = new_effects W W2" by (simp add: new_effects_def)
        with a n2 show ?thesis by auto
      next
        assume a: "effects W' = effects W2 @ [Exec (fst (extraction_command ty (x_overwrite body) ar dest))
                     (snd (extraction_command ty (x_overwrite body) ar dest))]
                \<and> (\<forall>x\<in>set es. isSafeArchiveEntry x)"
        then have e: "effects W' = effects W2 @ [xc]" by (simp add: xc_def)
        from e w2 pre have "new_effects W W' = [lc, xc] \<or> new_effects W W' = [Mkdir dest, lc, xc]"
          by (auto simp: new_effects_def)
        moreover from a out have "\<exists>out. T ?lf ?la = ExecOk out
                    \<and> (\<forall>x\<in>set (parse_listing out). isSafeArchiveEntry x)" by blast
        ultimately show ?thesis by blast
      qed
    qed
  qed
qed


lemma drive_letter_prefix_iff:
  "drive_letter_prefix p \<longleftrightarrow>
     (\<exists>c rest. p = c # CHR '':'' # CHR ''/'' # rest \<and> (is_ascii_lower c \<or> is_ascii_upper c))"
  by (auto simp: drive_letter_prefix_def SEP_def split: list.splits)

lemma check_and_extract_safe:
  assumes "es \<noteq> []" "length es \<le> 20000" "\<forall>x\<in>set es. isSafeArchiveEntry x"
  shows "effects (snd (check_and_extract T ty ow ar dest es W))
     = effects W @ [Exec (fst (extraction_command ty ow ar dest)) (snd (extraction_command ty ow ar dest))]"
proof -
  from assms(3) have "find (\<lambda>x. \<not> isSafeArchiveEntry x) es = None" by (simp add: find_unsafe_None)
  with assms(1,2) have "check_and_extract T ty ow ar dest es W = run_extraction T ty ow ar dest W"
    by (simp add: check_and_extract_def)
  then show ?thesis
    using run_extraction_effects[of T ty ow ar dest W "fst (run_extraction T ty ow ar dest W)"
        "snd (run_extraction T ty ow ar dest W)"] by simp
qed

text \<open>
  C2. For every entry \<open>e\<close>, its normalised form \<open>p\<close> is what is left of \<open>e\<close>, with the NUL
  characters removed and every backslash turned into \<^verbatim>\<open>/\<close>, after all the leading
  \<^verbatim>\<open>./\<close> have been taken off: \<open>e\<close> so rewritten is some number of \<^verbatim>\<open>./\<close> followed by \<open>p\<close>,
  and \<open>p\<close> does not begin with \<^verbatim>\<open>./\<close>. \<^const>\<open>isSafeArchiveEntry\<close> is false exactly when
  \<open>p\<close> is empty, begins with \<^verbatim>\<open>/\<close>, begins with a letter followed by \<^verbatim>\<open>:/\<close>, or has a
  segment \<^verbatim>\<open>..\<close> between its separators (the letters are the 52 of ASCII); in
  particular an entry that has a segment \<^verbatim>\<open>..\<close> between slashes or backslashes, behind
  any number of \<^verbatim>\<open>./\<close>, is unsafe. A run of the extract endpoint on an archive of a supported type
  executes no external command but the listing and the extraction command; it executes
  the extraction command only if the listing succeeded and every listed entry is safe;
  when the listing has an unsafe entry the response is an error and the extraction
  command is not executed; a request that does not get as far as a resolved archive of a
  supported type is answered with an error and without any effect. Once the entries are
  listed (at most 20000), the first unsafe one is reported with status 400 and the world
  is left as it is.
\<close>

theorem archive_entries_checked_before_extraction:
  "(isSafeArchiveEntry e \<longleftrightarrow>
      \<not> (normalizeEntryPath e = []
         \<or> prefix ''/'' (normalizeEntryPath e)
         \<or> (\<exists>c rest. normalizeEntryPath e = c # CHR '':'' # CHR ''/'' # rest
                      \<and> (is_ascii_lower c \<or> is_ascii_upper c))
         \<or> ''..'' \<in> set (split_on (CHR ''/'') (normalizeEntryPath e))))
   \<and> NUL \<notin> set (normalizeEntryPath e) \<and> BACKSLASH \<notin> set (normalizeEntryPath e)
   \<and> \<not> prefix ''./'' (normalizeEntryPath e)
   \<and> (archive_extract cfg T body W = (r, W')
        \<and> resolvePathFromQuery cfg (x_path body) = Inr ar
        \<and> resolvePathFromQuery cfg (x_dest body) = Inr dest
        \<and> detectArchiveType ar = Some ty \<longrightarrow>
        (let lf = fst (listing_command ty ar); la = snd (listing_command ty ar);
             xc = Exec (fst (extraction_command ty (x_overwrite body) ar dest))
                       (snd (extraction_command ty (x_overwrite body) ar dest))
         in (\<forall>x\<in>set (new_effects W W'). is_exec x \<longrightarrow> x = Exec lf la \<or> x = xc)
            \<and> (xc \<in> set (new_effects W W') \<longrightarrow>
                  (\<exists>out. T lf la = ExecOk out \<and> (\<forall>x\<in>set (parse_listing out). isSafeArchiveEntry x)))
            \<and> (\<forall>out bad. T lf la = ExecOk out
                  \<and> find (\<lambda>x. \<not> isSafeArchiveEntry x) (parse_listing out) = Some bad \<longrightarrow>
                  r \<noteq> Success \<and> xc \<notin> set (new_effects W W'))))
   \<and> (archive_extract cfg T body W = (r, W')
        \<and> \<not> (\<exists>ar dest ty. resolvePathFromQuery cfg (x_path body) = Inr ar
                \<and> resolvePathFromQuery cfg (x_dest body) = Inr dest
                \<and> detectArchiveType ar = Some ty) \<longrightarrow>
        r \<noteq> Success \<and> new_effects W W' = [])
   \<and> (find (\<lambda>x. \<not> isSafeArchiveEntry x) (parse_listing out) = Some bad
        \<and> length (parse_listing out) \<le> 20000 \<longrightarrow>
        check_and_extract T ty ow ar dest (parse_listing out) W
          = (Error 400 (''unsafe entry path: '' @ bad), W))
   \<and> (\<exists>n. map (\<lambda>c. if c = CHR 0x5C then CHR ''/'' else c) (filter (\<lambda>c. c \<noteq> CHR 0x00) e)
            = concat (replicate n ''./'') @ normalizeEntryPath e)
   \<and> (''..'' \<in> set (split_on (CHR ''/'')
            (map (\<lambda>c. if c = CHR 0x5C then CHR ''/'' else c) (filter (\<lambda>c. c \<noteq> CHR 0x00) e)))
        \<longrightarrow> \<not> isSafeArchiveEntry e)
   \<and> (\<forall>c. is_ascii_lower c \<or> is_ascii_upper c
          \<longleftrightarrow> c \<in> set ''abcdefghijklmnopqrstuvwxyzABCDEFGHIJKLMNOPQRSTUVWXYZ'')"
proof -
  have A: "isSafeArchiveEntry e \<longleftrightarrow>
      \<not> (normalizeEntryPath e = []
         \<or> prefix ''/'' (normalizeEntryPath e)
         \<or> (\<exists>c rest. normalizeEntryPath e = c # CHR '':'' # CHR ''/'' # rest
                      \<and> (is_ascii_lower c \<or> is_ascii_upper c))
         \<or> ''..'' \<in> set (split_on (CHR ''/'') (normalizeEntryPath e)))"
    using isSafeArchiveEntry_iff[of e] drive_letter_prefix_iff[of "normalizeEntryPath e"]
    by (simp add: SEP_def)
  note B = normalizeEntryPath_clean[of e]
  have C: "archive_extract cfg T body W = (r, W')
        \<and> resolvePathFromQuery cfg (x_path body) = Inr ar
        \<and> resolvePathFromQuery cfg (x_dest body) = Inr dest
        \<and> detectArchiveType ar = Some ty \<longrightarrow>
        (let lf = fst (listing_command ty ar); la = snd (listing_command ty ar);
             xc = Exec (fst (extraction_command ty (x_overwrite body) ar dest))
                       (snd (extraction_command ty (x_overwrite body) ar dest))
         in (\<forall>x\<in>set (new_effects W W'). is_exec x \<longrightarrow> x = Exec lf la \<or> x = xc)
            \<and> (xc \<in> set (new_effects W W') \<longrightarrow>
                  (\<exists>out. T lf la = ExecOk out \<and> (\<forall>x\<in>set (parse_listing out). isSafeArchiveEntry x)))
            \<and> (\<forall>out bad. T lf la = ExecOk out
                  \<and> find (\<lambda>x. \<not> isSafeArchiveEntry x) (parse_listing out) = Some bad \<longrightarrow>
                  r \<noteq> Success \<and> xc \<notin> set (new_effects W W')))"
  proof (intro impI)
    assume h: "archive_extract cfg T body W = (r, W')
        \<and> resolvePathFromQuery cfg (x_path body) = Inr ar
        \<and> resolvePathFromQuery cfg (x_dest body) = Inr dest
        \<and> detectArchiveType ar = Some ty"
    define lf where "lf = fst (listing_command ty ar)"
    define la where "la = snd (listing_command ty ar)"
    define xc where "xc = Exec (fst (extraction_command ty (x_overwrite body) ar dest))
                       (snd (extraction_command ty (x_overwrite body) ar dest))"
    have ne: "Exec lf la \<noteq> xc"
      using listing_not_extraction[of ty ar "x_overwrite body" ar dest]
      by (auto simp: lf_def la_def xc_def prod_eq_iff)
    from h have tr: "r \<noteq> Success \<and> new_effects W W' \<in> {[], [Exec lf la], [Mkdir dest, Exec lf la]}
       \<or> new_effects W W' \<in> {[Exec lf la, xc], [Mkdir dest, Exec lf la, xc]}
          \<and> (\<exists>out. T lf la = ExecOk out \<and> (\<forall>x\<in>set (parse_listing out). isSafeArchiveEntry x))"
      unfolding lf_def la_def xc_def
      using archive_extract_trace[of cfg T body W r W' ar dest ty] by simp
    have 1: "\<forall>x\<in>set (new_effects W W'). is_exec x \<longrightarrow> x = Exec lf la \<or> x = xc"
      using tr by (auto simp: is_exec_def)
    have 2: "xc \<in> set (new_effects W W') \<longrightarrow>
                  (\<exists>out. T lf la = ExecOk out \<and> (\<forall>x\<in>set (parse_listing out). isSafeArchiveEntry x))"
      using tr ne by (auto simp: xc_def)
    have 3: "\<forall>out bad. T lf la = ExecOk out
                  \<and> find (\<lambda>x. \<not> isSafeArchiveEntry x) (parse_listing out) = Some bad \<longrightarrow>
                  r \<noteq> Success \<and> xc \<notin> set (new_effects W W')"
    proof (intro allI impI)
      fix out bad
      assume a: "T lf la = ExecOk out
                  \<and> find (\<lambda>x. \<not> isSafeArchiveEntry x) (parse_listing out) = Some bad"
      then have "bad \<in> set (parse_listing out)" "\<not> isSafeArchiveEntry bad"
        by (auto dest: find_Some_mem)
      with a have "\<not> (\<exists>out. T lf la = ExecOk out \<and> (\<forall>x\<in>set (parse_listing out). isSafeArchiveEntry x))"
        by auto
      with tr have "r \<noteq> Success" "new_effects W W' \<in> {[], [Exec lf la], [Mkdir dest, Exec lf la]}"
        by blast+
      with ne show "r \<noteq> Success \<and> xc \<notin> set (new_effects W W')" by (auto simp: xc_def)
    qed
    from 1 2 3 show "(let lf = fst (listing_command ty ar); la = snd (listing_command ty ar);
             xc = Exec (fst (extraction_command ty (x_overwrite body) ar dest))
                       (snd (extraction_command ty (x_overwrite body) ar dest))
         in (\<forall>x\<in>set (new_effects W W'). is_exec x \<longrightarrow> x = Exec lf la \<or> x = xc)
            \<and> (xc \<in> set (new_effects W W') \<longrightarrow>
                  (\<exists>out. T lf la = ExecOk out \<and> (\<forall>x\<in>set (parse_listing out). isSafeArchiveEntry x)))
            \<and> (\<forall>out bad. T lf la = ExecOk out
                  \<and> find (\<lambda>x. \<not> isSafeArchiveEntry x) (parse_listing out) = Some bad \<longrightarrow>
                  r \<noteq> Success \<and> xc \<notin> set (new_effects W W')))"
      unfolding Let_def lf_def[symmetric] la_def[symmetric] xc_def[symmetric] by blast
  qed
  have D: "archive_extract cfg T body W = (r, W')
        \<and> \<not> (\<exists>ar dest ty. resolvePathFromQuery cfg (x_path body) = Inr ar
                \<and> resolvePathFromQuery cfg (x_dest body) = Inr dest
                \<and> detectArchiveType ar = Some ty) \<longrightarrow>
        r \<noteq> Success \<and> new_effects W W' = []"
  proof (intro impI)
    assume h: "archive_extract cfg T body W = (r, W')
        \<and> \<not> (\<exists>ar dest ty. resolvePathFromQuery cfg (x_path body) = Inr ar
                \<and> resolvePathFromQuery cfg (x_dest body) = Inr dest
                \<and> detectArchiveType ar = Some ty)"
    then have "(\<exists>e. resolvePathFromQuery cfg (x_path body) = Inl e)
         \<or> (\<exists>e. resolvePathFromQuery cfg (x_dest body) = Inl e)
         \<or> (\<exists>ar. resolvePathFromQuery cfg (x_path body) = Inr ar
               \<and> (detectArchiveType ar = None \<or> (\<exists>e. statSync W ar = Inl e)
                  \<or> (\<exists>st. statSync W ar = Inr st \<and> \<not> is_File st)))"
      by (cases "resolvePathFromQuery cfg (x_path body)";
          cases "resolvePathFromQuery cfg (x_dest body)") auto
    with h archive_extract_early[of cfg T body W r W'] show "r \<noteq> Success \<and> new_effects W W' = []"
      by (simp add: new_effects_def)
  qed
  have E: "find (\<lambda>x. \<not> isSafeArchiveEntry x) (parse_listing out) = Some bad
        \<and> length (parse_listing out) \<le> 20000 \<longrightarrow>
        check_and_extract T ty ow ar dest (parse_listing out) W
          = (Error 400 (''unsafe entry path: '' @ bad), W)"
    using check_and_extract_unsafe[of "parse_listing out" bad T ty ow ar dest W]
    by (auto dest: parse_listing_nonempty)
  note F = normalizeEntryPath_spec[of e]
  have G: "''..'' \<in> set (split_on (CHR ''/'')
            (map (\<lambda>c. if c = CHR 0x5C then CHR ''/'' else c) (filter (\<lambda>c. c \<noteq> CHR 0x00) e)))
        \<longrightarrow> \<not> isSafeArchiveEntry e"
    using A dotdot_segment_kept[of e] by blast
  have H: "\<forall>c. is_ascii_lower c \<or> is_ascii_upper c
          \<longleftrightarrow> c \<in> set ''abcdefghijklmnopqrstuvwxyzABCDEFGHIJKLMNOPQRSTUVWXYZ''"
    by (rule allI) (rule ascii_letter_iff)
  note B1 = B[THEN conjunct1] and B2 = B[THEN conjunct2, THEN conjunct1]
    and B3 = B[THEN conjunct2, THEN conjunct2]
  show ?thesis
    by (rule conjI[OF A conjI[OF B1 conjI[OF B2 conjI[OF B3 conjI[OF C conjI[OF D
          conjI[OF E conjI[OF F conjI[OF G H]]]]]]]]])
qed

text \<open>
  C2, witness: an archive that lists \<^verbatim>\<open>../../etc/passwd\<close> is refused before
  \<^verbatim>\<open>unzip -n\<close> runs; one that lists \<^verbatim>\<open>a.txt\<close> and \<^verbatim>\<open>./b/c\<close> is extracted. The
  entries \<^verbatim>\<open>./../../etc/passwd\<close> and \<^verbatim>\<open>..\..\x\<close> are unsafe, and \<^verbatim>\<open>./b/c\<close> is
  normalised to \<^verbatim>\<open>b/c\<close>.
\<close>

theorem archive_entries_checked_before_extraction_witness:
  "fst (archive_extract example_config unsafe_listing example_extract example_world) \<noteq> Success
   \<and> Exec ''unzip'' [''-n'', ''/home/user/a.zip'', ''-d'', ''/home/user/out'']
       \<notin> set (new_effects example_world
                 (snd (archive_extract example_config unsafe_listing example_extract example_world)))
   \<and> check_and_extract unsafe_listing Zip False ''/home/user/a.zip'' ''/home/user/out''
        (parse_listing ''a.txt\<newline>../../etc/passwd\<newline>'') example_world
       = (Error 400 ''unsafe entry path: ../../etc/passwd'', example_world)
   \<and> \<not> isSafeArchiveEntry ''../../etc/passwd''
   \<and> Exec ''unzip'' [''-n'', ''/home/user/a.zip'', ''-d'', ''/home/user/out'']
       \<in> set (new_effects example_world
                 (snd (archive_extract example_config safe_listing example_extract example_world)))
   \<and> isSafeArchiveEntry ''./b/c''
   \<and> \<not> isSafeArchiveEntry ''./../../etc/passwd''
   \<and> \<not> isSafeArchiveEntry [CHR ''.'', CHR ''.'', CHR 0x5C, CHR ''.'', CHR ''.'', CHR 0x5C, CHR ''x'']
   \<and> normalizeEntryPath ''./b/c'' = ''b/c''"
proof -
  let ?ar = "''/home/user/a.zip''" and ?dest = "''/home/user/out''"
  let ?xc = "Exec ''unzip'' [''-n'', ''/home/user/a.zip'', ''-d'', ''/home/user/out'']"
  let ?bad_out = "''a.txt\<newline>../../etc/passwd\<newline>''"
  let ?good_out = "''a.txt\<newline>./b/c\<newline>''"
  have r0: "path_resolve ''/srv'' [''/home/user''] = ''/home/user''" by code_simp
  have r1: "path_resolve ''/srv'' [''/home/user'', ''a.zip''] = ?ar" by code_simp
  have r2: "path_resolve ''/srv'' [?ar] = ?ar" by code_simp
  have r3: "path_resolve ''/srv'' [''/home/user'', ''out''] = ?dest" by code_simp
  have r4: "path_resolve ''/srv'' [?dest] = ?dest" by code_simp
  have ar: "resolvePathFromQuery example_config (x_path example_extract) = Inr ?ar"
    by (simp add: resolvePathFromQuery_def withinRoot_def example_config_def example_extract_def
        r0 r1 r2)
  have dest: "resolvePathFromQuery example_config (x_dest example_extract) = Inr ?dest"
    by (simp add: resolvePathFromQuery_def withinRoot_def example_config_def example_extract_def
        r0 r3 r4)
  have ty: "detectArchiveType ?ar = Some Zip" by code_simp
  have lc: "listing_command Zip ?ar = (''unzip'', [''-Z1'', ?ar])"
    by (simp add: listing_command_def)
  have xc: "Exec (fst (extraction_command Zip (x_overwrite example_extract) ?ar ?dest))
                 (snd (extraction_command Zip (x_overwrite example_extract) ?ar ?dest)) = ?xc"
    by (simp add: extraction_command_def example_extract_def)
  have bad: "find (\<lambda>x. \<not> isSafeArchiveEntry x) (parse_listing ?bad_out) = Some ''../../etc/passwd''"
    by code_simp
  have pl: "parse_listing ?bad_out = [''a.txt'', ''../../etc/passwd'']" by code_simp
  have len: "length (parse_listing ?bad_out) \<le> 20000" unfolding pl by simp
  note U = archive_entries_checked_before_extraction[where cfg = example_config
      and T = unsafe_listing and body = example_extract and W = example_world
      and r = "fst (archive_extract example_config unsafe_listing example_extract example_world)"
      and W' = "snd (archive_extract example_config unsafe_listing example_extract example_world)"
      and ar = ?ar and dest = ?dest and ty = Zip and e = "''../../etc/passwd''"
      and out = ?bad_out and bad = "''../../etc/passwd''" and ow = False]
  note U_pred = U[THEN conjunct1]
  note U_run = U[THEN conjunct2, THEN conjunct2, THEN conjunct2, THEN conjunct2, THEN conjunct1,
      unfolded Let_def xc]
  note U_first = U[THEN conjunct2, THEN conjunct2, THEN conjunct2, THEN conjunct2, THEN conjunct2,
      THEN conjunct2, THEN conjunct1]
  have ul: "unsafe_listing (fst (listing_command Zip ?ar)) (snd (listing_command Zip ?ar))
            = ExecOk ?bad_out"
    by (simp add: unsafe_listing_def)
  have u1: "fst (archive_extract example_config unsafe_listing example_extract example_world) \<noteq> Success
     \<and> ?xc \<notin> set (new_effects example_world
                 (snd (archive_extract example_config unsafe_listing example_extract example_world)))"
  proof -
    have h: "archive_extract example_config unsafe_listing example_extract example_world
        = (fst (archive_extract example_config unsafe_listing example_extract example_world),
           snd (archive_extract example_config unsafe_listing example_extract example_world))
      \<and> resolvePathFromQuery example_config (x_path example_extract) = Inr ?ar
      \<and> resolvePathFromQuery example_config (x_dest example_extract) = Inr ?dest
      \<and> detectArchiveType ?ar = Some Zip"
      using ar dest ty by simp
    from U_run[rule_format, OF h, THEN conjunct2, THEN conjunct2, rule_format, of ?bad_out "''../../etc/passwd''"]
      ul bad
    show ?thesis by simp
  qed
  have u2: "check_and_extract unsafe_listing Zip False ?ar ?dest
        (parse_listing ?bad_out) example_world
       = (Error 400 ''unsafe entry path: ../../etc/passwd'', example_world)"
    using U_first[rule_format] bad len by simp
  have u3: "\<not> isSafeArchiveEntry ''../../etc/passwd''"
  proof -
    have "''..'' \<in> set (split_on (CHR ''/'') (normalizeEntryPath ''../../etc/passwd''))" by code_simp
    with U_pred show ?thesis by simp
  qed
  note S = archive_entries_checked_before_extraction[where cfg = example_config
      and T = safe_listing and body = example_extract and W = example_world
      and r = "fst (archive_extract example_config safe_listing example_extract example_world)"
      and W' = "snd (archive_extract example_config safe_listing example_extract example_world)"
      and ar = ?ar and dest = ?dest and ty = Zip and e = "''./b/c''"]
  note S_run = S[THEN conjunct2, THEN conjunct2, THEN conjunct2, THEN conjunct2, THEN conjunct1,
      unfolded Let_def xc]
  have st: "statSync example_world ?ar = Inr (File ''PK'' 1000)"
    by (simp add: statSync_def example_world_def)
  have isf: "is_File (File ''PK'' 1000)" by simp
  obtain W1 where w1: "prepare_dest ?dest example_world = Inr W1"
    and e1: "effects W1 = [Mkdir ?dest]"
    by (simp add: prepare_dest_def existsSync_def mkdirSync_recursive_def example_world_def
        segments_def SEP_def)
  let ?W2 = "W1\<lparr>effects := effects W1 @ [Exec ''unzip'' [''-Z1'', ?ar]]\<rparr>"
  have li: "listArchiveEntries safe_listing ?ar Zip W1 = (Inr (parse_listing ?good_out), ?W2)"
    by (simp add: listArchiveEntries_def lc execFileAsync_def safe_listing_def)
  have es: "parse_listing ?good_out = [''a.txt'', ''./b/c'']" by code_simp
  have safe: "\<forall>x\<in>set [''a.txt'', ''./b/c'']. isSafeArchiveEntry x"
  proof -
    have "isSafeArchiveEntry ''a.txt''" "isSafeArchiveEntry ''./b/c''" by code_simp+
    then show ?thesis by simp
  qed
  have run: "archive_extract example_config safe_listing example_extract example_world
      = check_and_extract safe_listing Zip (x_overwrite example_extract) ?ar ?dest
          (parse_listing ?good_out) ?W2"
    using archive_extract_unfold[OF ar dest ty st isf w1 li] by simp
  have eff: "effects (snd (archive_extract example_config safe_listing example_extract example_world))
      = effects ?W2 @ [?xc]"
    unfolding run es
    using check_and_extract_safe[of "[''a.txt'', ''./b/c'']" safe_listing Zip
        "x_overwrite example_extract" ?ar ?dest ?W2] safe
    unfolding xc by simp
  have s1: "?xc \<in> set (new_effects example_world
                 (snd (archive_extract example_config safe_listing example_extract example_world)))"
    unfolding new_effects_def eff by (simp add: e1 example_world_def)
  have s2: "isSafeArchiveEntry ''./b/c''"
  proof -
    have h: "archive_extract example_config safe_listing example_extract example_world
        = (fst (archive_extract example_config safe_listing example_extract example_world),
           snd (archive_extract example_config safe_listing example_extract example_world))
      \<and> resolvePathFromQuery example_config (x_path example_extract) = Inr ?ar
      \<and> resolvePathFromQuery example_config (x_dest example_extract) = Inr ?dest
      \<and> detectArchiveType ?ar = Some Zip"
      using ar dest ty by simp
    from S_run[rule_format, OF h, THEN conjunct2, THEN conjunct1, rule_format, OF s1]
    obtain out where o: "safe_listing (fst (listing_command Zip ?ar)) (snd (listing_command Zip ?ar)) = ExecOk out"
      "\<forall>x\<in>set (parse_listing out). isSafeArchiveEntry x" by auto
    from o(1) have "out = ?good_out" by (simp add: safe_listing_def)
    with o(2) es show ?thesis by simp
  qed
  have u4: "\<not> isSafeArchiveEntry ''./../../etc/passwd''"
  proof -
    have "''..'' \<in> set (split_on (CHR ''/'')
            (map (\<lambda>c. if c = CHR 0x5C then CHR ''/'' else c)
               (filter (\<lambda>c. c \<noteq> CHR 0x00) ''./../../etc/passwd'')))" by simp
    with archive_entries_checked_before_extraction[where e = "''./../../etc/passwd''",
        THEN conjunct2, THEN conjunct2, THEN conjunct2, THEN conjunct2, THEN conjunct2,
        THEN conjunct2, THEN conjunct2, THEN conjunct2, THEN conjunct1]
    show ?thesis by (rule mp)
  qed
  have u5: "\<not> isSafeArchiveEntry [CHR ''.'', CHR ''.'', CHR 0x5C, CHR ''.'', CHR ''.'', CHR 0x5C, CHR ''x'']"
  proof -
    have "''..'' \<in> set (split_on (CHR ''/'')
            (map (\<lambda>c. if c = CHR 0x5C then CHR ''/'' else c)
               (filter (\<lambda>c. c \<noteq> CHR 0x00)
                  [CHR ''.'', CHR ''.'', CHR 0x5C, CHR ''.'', CHR ''.'', CHR 0x5C, CHR ''x''])))" by simp
    with archive_entries_checked_before_extraction[
        where e = "[CHR ''.'', CHR ''.'', CHR 0x5C, CHR ''.'', CHR ''.'', CHR 0x5C, CHR ''x'']",
        THEN conjunct2, THEN conjunct2, THEN conjunct2, THEN conjunct2, THEN conjunct2,
        THEN conjunct2, THEN conjunct2, THEN conjunct2, THEN conjunct1]
    show ?thesis by (rule mp)
  qed
  have s3: "normalizeEntryPath ''./b/c'' = ''b/c''"
  proof -
    from S[THEN conjunct2, THEN conjunct2, THEN conjunct2, THEN conjunct2, THEN conjunct2,
        THEN conjunct2, THEN conjunct2, THEN conjunct1]
    obtain n where n: "''./b/c'' = concat (replicate n ''./'') @ normalizeEntryPath ''./b/c''"
      by auto
    note np = S[THEN conjunct2, THEN conjunct2, THEN conjunct2, THEN conjunct1]
    have "n = 1"
    proof (cases n)
      case 0
      with n have "normalizeEntryPath ''./b/c'' = ''./b/c''" by simp
      with np show ?thesis by simp
    next
      case (Suc k)
      with n have k: "''b/c'' = concat (replicate k ''./'') @ normalizeEntryPath ''./b/c''" by simp
      show ?thesis
      proof (cases k)
        case 0 with Suc show ?thesis by simp
      next
        case (Suc j) with k show ?thesis by simp
      qed
    qed
    with n show ?thesis by simp
  qed
  from u1 u2 u3 u4 u5 s1 s2 s3 show ?thesis by simp
qed

subsection \<open>The path sandbox\<close>

lemma example_root_resolved: "path_resolve ''/srv'' [''/home/user''] = ''/home/user''"
  by code_simp

text \<open>
  C1 fails on the code: with the root \<^verbatim>\<open>/home/user\<close> the client path
  \<^verbatim>\<open>../user2/secret\<close> is accepted, with the target \<^verbatim>\<open>/home/user2/secret\<close>, which does
  not lie inside the root. \<^const>\<open>withinRoot\<close> compares the two canonical paths as
  strings, and \<^verbatim>\<open>/home/user2/secret\<close> starts with \<^verbatim>\<open>/home/user\<close>.
\<close>

theorem resolve_accepts_sibling_of_root:
  "resolvePathFromQuery example_config (Some ''../user2/secret'') = Inr ''/home/user2/secret''
   \<and> \<not> insideRoot example_config ''/home/user2/secret''"
proof -
  have r1: "path_resolve ''/srv'' [''/home/user'', ''../user2/secret''] = ''/home/user2/secret''"
    by code_simp
  have r2: "path_resolve ''/srv'' [''/home/user2/secret''] = ''/home/user2/secret''"
    by code_simp
  have s0: "segments ''/home/user'' = [''home'', ''user'']" by code_simp
  have s1: "segments ''/home/user2/secret'' = [''home'', ''user2'', ''secret'']" by code_simp
  have a: "resolvePathFromQuery example_config (Some ''../user2/secret'') = Inr ''/home/user2/secret''"
    by (simp add: resolvePathFromQuery_def withinRoot_def example_config_def example_root_resolved r1 r2)
  have b: "\<not> insideRoot example_config ''/home/user2/secret''"
    by (simp add: insideRoot_def example_config_def example_root_resolved r2 s0 s1)
  from a b show ?thesis by simp
qed

subsection \<open>Version control\<close>

lemma new_effects_append: "effects W' = effects W @ xs \<Longrightarrow> new_effects W W' = xs"
  by (simp add: new_effects_def)

lemma new_effects_self [simp]: "new_effects W W = []"
  by (simp add: new_effects_def)

lemma detectGitInfo_trace:
  assumes "detectGitInfo T cwd W = (info, W1)"
  shows "\<exists>xs. effects W1 = effects W @ xs \<and> \<not> list_ex is_git_reset xs \<and> files W1 = files W"
  using assms
  by (auto simp: detectGitInfo_def execFileAsync_def Let_def is_git_reset_def
      split: prod.splits if_splits exec_result.splits)

lemma detectUpstream_eq:
  "detectUpstream T cwd W =
     (trimmed_or_null (T ''git'' [''-C'', cwd, ''rev-parse'', ''--abbrev-ref'', ''--symbolic-full-name'', UPSTREAM_REF]),
      W\<lparr>effects := effects W @ [Exec ''git'' [''-C'', cwd, ''rev-parse'', ''--abbrev-ref'', ''--symbolic-full-name'', UPSTREAM_REF]]\<rparr>)"
  by (simp add: detectUpstream_def execFileAsync_def)

lemma reset_to_trace:
  assumes "reset_to T T' cwd mode commit W = (r, W')"
  shows "\<exists>xs. effects W' = effects W @ xs \<and> files W' = files W
     \<and> (r = Success \<longrightarrow> list_ex is_git_reset xs)
     \<and> (list_ex is_git_reset xs \<longrightarrow>
          (\<exists>up. trimmed_or_null (T ''git'' [''-C'', cwd, ''rev-parse'', ''--abbrev-ref'',
                     ''--symbolic-full-name'', UPSTREAM_REF]) = Some up
             \<and> succeeded (T ''git'' [''-C'', cwd, ''merge-base'', ''--is-ancestor'', commit, ''HEAD''])
             \<and> (succeeded (T ''git'' [''-C'', cwd, ''merge-base'', ''--is-ancestor'', commit, up])
                  \<longrightarrow> trimmed_or_null (T ''git'' [''-C'', cwd, ''rev-parse'', up]) = Some commit)))"
  using assms
  by (auto simp: reset_to_def detectUpstream_eq execFileAsync_def Let_def is_git_reset_def
      split: prod.splits if_splits exec_result.splits option.splits)


lemma git_reset_rejected_cwd:
  "resolveCwdFromReq cfg req = Inl e \<Longrightarrow> git_reset cfg T T' req W = (Error 403 e, W)"
  by (simp add: git_reset_def)

lemma git_reset_trace:
  assumes run: "git_reset cfg T T' req W = (r, W')"
    and cwd: "resolveCwdFromReq cfg req = Inr cwd"
  shows "\<exists>xs. effects W' = effects W @ xs \<and> files W' = files W
     \<and> (r = Success \<longrightarrow> list_ex is_git_reset xs)
     \<and> (list_ex is_git_reset xs \<longrightarrow>
          (toLowerCase (g_mode req) = ''soft''
             \<or> toLowerCase (g_mode req) = ''hard'' \<and> g_confirmHard req)
          \<and> trim (g_commit req) \<noteq> []
          \<and> (\<exists>up. trimmed_or_null (T ''git'' [''-C'', cwd, ''rev-parse'', ''--abbrev-ref'',
                     ''--symbolic-full-name'', UPSTREAM_REF]) = Some up
             \<and> succeeded (T ''git'' [''-C'', cwd, ''merge-base'', ''--is-ancestor'',
                              trim (g_commit req), ''HEAD''])
             \<and> (succeeded (T ''git'' [''-C'', cwd, ''merge-base'', ''--is-ancestor'',
                               trim (g_commit req), up])
                  \<longrightarrow> trimmed_or_null (T ''git'' [''-C'', cwd, ''rev-parse'', up])
                        = Some (trim (g_commit req)))))"
proof -
  let ?mode = "toLowerCase (g_mode req)" and ?commit = "trim (g_commit req)"
  let ?goal = ?thesis
  have early: "r \<noteq> Success \<and> (\<exists>xs. effects W' = effects W @ xs \<and> files W' = files W
      \<and> \<not> list_ex is_git_reset xs) \<Longrightarrow> ?goal" by blast
  obtain info W1 where d: "detectGitInfo T cwd W = (info, W1)"
    by (cases "detectGitInfo T cwd W")
  from detectGitInfo_trace[OF d] obtain xs1 where
    x1: "effects W1 = effects W @ xs1" "\<not> list_ex is_git_reset xs1" "files W1 = files W" by blast
  let ?cat = "[''-C'', cwd, ''cat-file'', ''-e'', ?commit @ ''^{commit}'']"
  let ?W2 = "W1\<lparr>effects := effects W1 @ [Exec ''git'' ?cat]\<rparr>"
  have x2: "effects ?W2 = effects W @ (xs1 @ [Exec ''git'' ?cat])"
    "\<not> list_ex is_git_reset (xs1 @ [Exec ''git'' ?cat])" "files ?W2 = files W"
    using x1 by (simp_all add: is_git_reset_def)
  consider (a) "?mode \<noteq> ''soft'' \<and> ?mode \<noteq> ''hard''"
    | (b) "(?mode = ''soft'' \<or> ?mode = ''hard'')" "?commit = []"
    | (c) "(?mode = ''soft'' \<or> ?mode = ''hard'')" "?commit \<noteq> []"
          "\<not> gitAvailable info \<or> \<not> isRepo info \<or> (?mode = ''hard'' \<and> \<not> g_confirmHard req)"
    | (d) "(?mode = ''soft'' \<or> ?mode = ''hard'')" "?commit \<noteq> []"
          "gitAvailable info" "isRepo info" "\<not> (?mode = ''hard'' \<and> \<not> g_confirmHard req)"
          "\<not> succeeded (T ''git'' ?cat)"
    | (e) "(?mode = ''soft'' \<or> ?mode = ''hard'')" "?commit \<noteq> []"
          "gitAvailable info" "isRepo info" "\<not> (?mode = ''hard'' \<and> \<not> g_confirmHard req)"
          "succeeded (T ''git'' ?cat)"
    by blast
  then show ?thesis
  proof cases
    case a
    with run cwd have "r \<noteq> Success \<and> W' = W" by (auto simp: git_reset_def Let_def)
    then show ?thesis by (intro early) auto
  next
    case b
    with run cwd have "r \<noteq> Success \<and> W' = W" by (auto simp: git_reset_def Let_def)
    then show ?thesis by (intro early) auto
  next
    case c
    with run cwd d have "r \<noteq> Success \<and> W' = W1"
      by (auto simp: git_reset_def Let_def split: if_splits)
    with x1 show ?thesis by (intro early) auto
  next
    case d
    with run cwd \<open>detectGitInfo T cwd W = (info, W1)\<close> have "r \<noteq> Success \<and> W' = ?W2"
      by (auto simp: git_reset_def Let_def execFileAsync_def split: if_splits)
    with x2 show ?thesis by (intro early) blast
  next
    case e
    with run cwd \<open>detectGitInfo T cwd W = (info, W1)\<close>
    have rt: "reset_to T T' cwd ?mode ?commit ?W2 = (r, W')"
      by (auto simp: git_reset_def Let_def execFileAsync_def split: if_splits)
    from reset_to_trace[OF rt] obtain ys where
      y: "effects W' = effects ?W2 @ ys" "files W' = files ?W2"
         "r = Success \<longrightarrow> list_ex is_git_reset ys"
         "list_ex is_git_reset ys \<longrightarrow>
          (\<exists>up. trimmed_or_null (T ''git'' [''-C'', cwd, ''rev-parse'', ''--abbrev-ref'',
                     ''--symbolic-full-name'', UPSTREAM_REF]) = Some up
             \<and> succeeded (T ''git'' [''-C'', cwd, ''merge-base'', ''--is-ancestor'', ?commit, ''HEAD''])
             \<and> (succeeded (T ''git'' [''-C'', cwd, ''merge-base'', ''--is-ancestor'', ?commit, up])
                  \<longrightarrow> trimmed_or_null (T ''git'' [''-C'', cwd, ''rev-parse'', up]) = Some ?commit))"
      by blast
    let ?xs = "xs1 @ [Exec ''git'' ?cat] @ ys"
    have 1: "effects W' = effects W @ ?xs" using y(1) x2(1) by simp
    have 2: "files W' = files W" using y(2) x2(3) by simp
    have 3: "list_ex is_git_reset ?xs \<longleftrightarrow> list_ex is_git_reset ys"
      using x2(2) by (auto simp: list_ex_iff)
    from e have 4: "?mode = ''soft'' \<or> ?mode = ''hard'' \<and> g_confirmHard req" by blast
    show ?thesis
      apply (rule exI[of _ ?xs])
      using 1 2 3 4 e(2) y(3) y(4) by blast
  qed
qed


lemma git_reset_parts:
  assumes run: "git_reset cfg T T' req W = (r, W')"
    and cwd: "resolveCwdFromReq cfg req = Inr cwd"
  shows "files W' = files W"
    and "r = Success \<Longrightarrow> list_ex is_git_reset (new_effects W W')"
    and "list_ex is_git_reset (new_effects W W') \<Longrightarrow>
           toLowerCase (g_mode req) = ''soft''
           \<or> toLowerCase (g_mode req) = ''hard'' \<and> g_confirmHard req"
proof -
  from git_reset_trace[OF run cwd] obtain xs where
    xs: "effects W' = effects W @ xs \<and> files W' = files W
     \<and> (r = Success \<longrightarrow> list_ex is_git_reset xs)
     \<and> (list_ex is_git_reset xs \<longrightarrow>
          (toLowerCase (g_mode req) = ''soft''
             \<or> toLowerCase (g_mode req) = ''hard'' \<and> g_confirmHard req)
          \<and> trim (g_commit req) \<noteq> []
          \<and> (\<exists>up. trimmed_or_null (T ''git'' [''-C'', cwd, ''rev-parse'', ''--abbrev-ref'',
                     ''--symbolic-full-name'', UPSTREAM_REF]) = Some up
             \<and> succeeded (T ''git'' [''-C'', cwd, ''merge-base'', ''--is-ancestor'',
                              trim (g_commit req), ''HEAD''])
             \<and> (succeeded (T ''git'' [''-C'', cwd, ''merge-base'', ''--is-ancestor'',
                               trim (g_commit req), up])
                  \<longrightarrow> trimmed_or_null (T ''git'' [''-C'', cwd, ''rev-parse'', up])
                        = Some (trim (g_commit req)))))" ..
  have ne: "new_effects W W' = xs" using xs[THEN conjunct1] by (rule new_effects_append)
  show "files W' = files W" using xs[THEN conjunct2, THEN conjunct1] .
  show "r = Success \<Longrightarrow> list_ex is_git_reset (new_effects W W')"
    unfolding ne using xs[THEN conjunct2, THEN conjunct2, THEN conjunct1] by (rule mp)
  show "list_ex is_git_reset (new_effects W W') \<Longrightarrow>
           toLowerCase (g_mode req) = ''soft''
           \<or> toLowerCase (g_mode req) = ''hard'' \<and> g_confirmHard req"
    unfolding ne
    using xs[THEN conjunct2, THEN conjunct2, THEN conjunct2, THEN mp, THEN conjunct1] .
qed

lemma example_reset_cwd: "resolveCwdFromReq example_config example_reset = Inr ''/home/user/p''"
proof -
  have r1: "path_resolve ''/srv'' [''/home/user'', ''p''] = ''/home/user/p''" by code_simp
  have r2: "path_resolve ''/srv'' [''/home/user/p''] = ''/home/user/p''" by code_simp
  have rel: "path_relative ''/srv'' ''/home/user'' ''/home/user/p'' = ''p''" by code_simp
  have t: "trim ''p'' = ''p''" by code_simp
  have sp: "split_on SEP ''p'' = [''p'']" by code_simp
  have nh: "\<not> hasHidden example_config ''/home/user/p''"
    by (simp add: hasHidden_def example_config_def rel SEP_def)
  have w: "withinRoot example_config ''/home/user/p''"
    by (simp add: withinRoot_def example_config_def example_root_resolved r2)
  have raw: "raw_cwd example_reset = ''p''" by (simp add: raw_cwd_def example_reset_def)
  show ?thesis
    unfolding resolveCwdFromReq_def raw Let_def
    using t nh w r1 by (simp add: example_config_def)
qed

text \<open>
  C3. A reset request whose working directory is refused is answered 403 without any
  effect. Otherwise, with \<open>commit\<close> the trimmed target and the answers of git as given
  by \<open>T\<close>: when no upstream is configured, or the target is not reachable from HEAD
  (\<^verbatim>\<open>git merge-base --is-ancestor commit HEAD\<close> fails), or the target is an ancestor of or
  equal to the upstream and is not the upstream head (\<^verbatim>\<open>git rev-parse\<close> of the upstream),
  the response is an error and \<^verbatim>\<open>git reset\<close> is not executed, whatever the mode and the
  confirmation flag are.
\<close>

theorem reset_refuses_published_history:
  "git_reset cfg T T' req W = (r, W') \<longrightarrow>
   (\<forall>e. resolveCwdFromReq cfg req = Inl e \<longrightarrow> r = Error 403 e \<and> new_effects W W' = [])
   \<and> (\<forall>cwd. resolveCwdFromReq cfg req = Inr cwd \<longrightarrow>
        (let commit = trim (g_commit req);
             upstream = trimmed_or_null (T ''git'' [''-C'', cwd, ''rev-parse'', ''--abbrev-ref'',
                          ''--symbolic-full-name'', UPSTREAM_REF]);
             reachable = succeeded (T ''git'' [''-C'', cwd, ''merge-base'', ''--is-ancestor'', commit, ''HEAD''])
         in (upstream = None \<longrightarrow> r \<noteq> Success \<and> \<not> list_ex is_git_reset (new_effects W W'))
            \<and> (\<not> reachable \<longrightarrow> r \<noteq> Success \<and> \<not> list_ex is_git_reset (new_effects W W'))
            \<and> (\<forall>up. upstream = Some up
                   \<and> succeeded (T ''git'' [''-C'', cwd, ''merge-base'', ''--is-ancestor'', commit, up])
                   \<and> trimmed_or_null (T ''git'' [''-C'', cwd, ''rev-parse'', up]) \<noteq> Some commit
                 \<longrightarrow> r \<noteq> Success \<and> \<not> list_ex is_git_reset (new_effects W W'))))"
proof (intro impI conjI allI)
  fix e assume "git_reset cfg T T' req W = (r, W')" "resolveCwdFromReq cfg req = Inl e"
  then show "r = Error 403 e" "new_effects W W' = []"
    using git_reset_rejected_cwd[of cfg req e T T' W] by simp_all
next
  fix cwd assume run: "git_reset cfg T T' req W = (r, W')" and cwd: "resolveCwdFromReq cfg req = Inr cwd"
  from git_reset_trace[OF run cwd] obtain xs where
    xs: "effects W' = effects W @ xs" "r = Success \<longrightarrow> list_ex is_git_reset xs"
    and cond: "list_ex is_git_reset xs \<longrightarrow>
          (\<exists>up. trimmed_or_null (T ''git'' [''-C'', cwd, ''rev-parse'', ''--abbrev-ref'',
                     ''--symbolic-full-name'', UPSTREAM_REF]) = Some up
             \<and> succeeded (T ''git'' [''-C'', cwd, ''merge-base'', ''--is-ancestor'',
                              trim (g_commit req), ''HEAD''])
             \<and> (succeeded (T ''git'' [''-C'', cwd, ''merge-base'', ''--is-ancestor'',
                               trim (g_commit req), up])
                  \<longrightarrow> trimmed_or_null (T ''git'' [''-C'', cwd, ''rev-parse'', up])
                        = Some (trim (g_commit req))))"
    by blast
  have ne: "new_effects W W' = xs" using xs(1) by (rule new_effects_append)
  show "let commit = trim (g_commit req);
             upstream = trimmed_or_null (T ''git'' [''-C'', cwd, ''rev-parse'', ''--abbrev-ref'',
                          ''--symbolic-full-name'', UPSTREAM_REF]);
             reachable = succeeded (T ''git'' [''-C'', cwd, ''merge-base'', ''--is-ancestor'', commit, ''HEAD''])
         in (upstream = None \<longrightarrow> r \<noteq> Success \<and> \<not> list_ex is_git_reset (new_effects W W'))
            \<and> (\<not> reachable \<longrightarrow> r \<noteq> Success \<and> \<not> list_ex is_git_reset (new_effects W W'))
            \<and> (\<forall>up. upstream = Some up
                   \<and> succeeded (T ''git'' [''-C'', cwd, ''merge-base'', ''--is-ancestor'', commit, up])
                   \<and> trimmed_or_null (T ''git'' [''-C'', cwd, ''rev-parse'', up]) \<noteq> Some commit
                 \<longrightarrow> r \<noteq> Success \<and> \<not> list_ex is_git_reset (new_effects W W'))"
    unfolding Let_def ne using xs(2) cond by auto
qed

text \<open>
  C3, witness: a hard reset with \<^verbatim>\<open>confirmHard\<close> to the commit \<^verbatim>\<open>def\<close>, an ancestor of
  \<^verbatim>\<open>origin/main\<close> whose head is \<^verbatim>\<open>abc\<close>, is refused.
\<close>

theorem reset_refuses_published_history_witness:
  "fst (git_reset example_config example_git example_git example_reset example_world) \<noteq> Success
   \<and> \<not> list_ex is_git_reset
        (new_effects example_world
           (snd (git_reset example_config example_git example_git example_reset example_world)))"
proof -
  let ?run = "git_reset example_config example_git example_git example_reset example_world"
  have commit: "trim (g_commit example_reset) = ''def''"
    unfolding example_reset_def by code_simp
  have up: "trimmed_or_null (example_git ''git'' [''-C'', ''/home/user/p'', ''rev-parse'', ''--abbrev-ref'',
                          ''--symbolic-full-name'', UPSTREAM_REF]) = Some ''origin/main''"
    by code_simp
  have anc: "succeeded (example_git ''git'' [''-C'', ''/home/user/p'', ''merge-base'', ''--is-ancestor'',
                ''def'', ''origin/main''])"
    by code_simp
  have hd: "trimmed_or_null (example_git ''git'' [''-C'', ''/home/user/p'', ''rev-parse'', ''origin/main''])
              \<noteq> Some ''def''"
    by code_simp
  have run: "?run = (fst ?run, snd ?run)" by simp
  from reset_refuses_published_history[where cfg = example_config and T = example_git
      and T' = example_git and req = example_reset and W = example_world
      and r = "fst ?run" and W' = "snd ?run", rule_format, OF run, THEN conjunct2,
      rule_format, OF example_reset_cwd, unfolded Let_def commit, THEN conjunct2, THEN conjunct2,
      rule_format, of "''origin/main''"]
    up anc hd
  show ?thesis by simp
qed

lemma fs_delete_only_reads_path:
  "body ''path'' = body' ''path'' \<Longrightarrow> fs_delete cfg body W = fs_delete cfg body' W"
  by (simp add: fs_delete_def)

lemma fs_delete_removes:
  assumes "resolvePathFromQuery cfg (body ''path'') = Inr target" "\<not> isRootPath cfg target"
    "files W target \<noteq> None"
  shows "fst (fs_delete cfg body W) = Success \<and> files (snd (fs_delete cfg body W)) target = None"
  using assms
  by (auto simp: fs_delete_def statSync_def rmSync_recursive_def rmSync_force_def split: option.splits)

text \<open>
  C9, as amended. A reset with mode \<^verbatim>\<open>hard\<close> and without \<^verbatim>\<open>confirmHard\<close> is answered
  with an error, \<^verbatim>\<open>git reset\<close> is not executed and no file is touched. A delete request
  whose target is the root is answered 403 \<^verbatim>\<open>forbidden at root\<close> and nothing changes.
  The delete handler reads the field \<^verbatim>\<open>path\<close> only, so no field of the request confirms
  or withholds anything; a delete request for an existing path other than the root
  succeeds and removes the path.
\<close>

theorem destructive_operations_guards:
  "(git_reset cfg T T' req W = (r, W') \<and> toLowerCase (g_mode req) = ''hard'' \<and> \<not> g_confirmHard req
      \<longrightarrow> r \<noteq> Success \<and> \<not> list_ex is_git_reset (new_effects W W') \<and> files W' = files W)
   \<and> (\<forall>target. resolvePathFromQuery cfg (body ''path'') = Inr target \<and> isRootPath cfg target
        \<longrightarrow> fs_delete cfg body W = (Error 403 ''forbidden at root'', W))
   \<and> (body ''path'' = body' ''path'' \<longrightarrow> fs_delete cfg body W = fs_delete cfg body' W)
   \<and> (\<forall>target. resolvePathFromQuery cfg (body ''path'') = Inr target \<and> \<not> isRootPath cfg target
          \<and> files W target \<noteq> None
        \<longrightarrow> fst (fs_delete cfg body W) = Success
            \<and> files (snd (fs_delete cfg body W)) target = None)"
proof -
  have 1: "git_reset cfg T T' req W = (r, W') \<and> toLowerCase (g_mode req) = ''hard'' \<and> \<not> g_confirmHard req
      \<longrightarrow> r \<noteq> Success \<and> \<not> list_ex is_git_reset (new_effects W W') \<and> files W' = files W"
  proof
    assume a: "git_reset cfg T T' req W = (r, W') \<and> toLowerCase (g_mode req) = ''hard'' \<and> \<not> g_confirmHard req"
    show "r \<noteq> Success \<and> \<not> list_ex is_git_reset (new_effects W W') \<and> files W' = files W"
    proof (cases "resolveCwdFromReq cfg req")
      case (Inl e)
      from a have "git_reset cfg T T' req W = (r, W')" by simp
      with git_reset_rejected_cwd[OF Inl, of T T' W] have "r = Error 403 e" "W' = W" by simp_all
      then show ?thesis by simp
    next
      case (Inr cwd)
      from a have run: "git_reset cfg T T' req W = (r, W')" by simp
      note P = git_reset_parts[OF run Inr]
      have nr: "\<not> list_ex is_git_reset (new_effects W W')"
      proof
        assume "list_ex is_git_reset (new_effects W W')"
        from P(3)[OF this] a show False by simp
      qed
      with P(2) have "r \<noteq> Success" by blast
      with nr P(1) show ?thesis by simp
    qed
  qed
  have 2: "\<forall>target. resolvePathFromQuery cfg (body ''path'') = Inr target \<and> isRootPath cfg target
        \<longrightarrow> fs_delete cfg body W = (Error 403 ''forbidden at root'', W)"
    by (simp add: fs_delete_def)
  have 3: "body ''path'' = body' ''path'' \<longrightarrow> fs_delete cfg body W = fs_delete cfg body' W"
    by (rule impI) (rule fs_delete_only_reads_path[where body = body and body' = body'])
  have 4: "\<forall>target. resolvePathFromQuery cfg (body ''path'') = Inr target \<and> \<not> isRootPath cfg target
          \<and> files W target \<noteq> None
        \<longrightarrow> fst (fs_delete cfg body W) = Success
            \<and> files (snd (fs_delete cfg body W)) target = None"
  proof (intro allI impI)
    fix target
    assume h: "resolvePathFromQuery cfg (body ''path'') = Inr target \<and> \<not> isRootPath cfg target
          \<and> files W target \<noteq> None"
    show "fst (fs_delete cfg body W) = Success \<and> files (snd (fs_delete cfg body W)) target = None"
      by (rule fs_delete_removes[where cfg = cfg and body = body and target = target and W = W,
            OF h[THEN conjunct1] h[THEN conjunct2, THEN conjunct1]
            h[THEN conjunct2, THEN conjunct2]])
  qed
  show ?thesis by (rule conjI[OF 1 conjI[OF 2 conjI[OF 3 4]]])
qed

lemma example_delete_target:
  "resolvePathFromQuery example_config (Some ''a.txt'') = Inr ''/home/user/a.txt''
   \<and> \<not> isRootPath example_config ''/home/user/a.txt''"
proof -
  have r1: "path_resolve ''/srv'' [''/home/user'', ''a.txt''] = ''/home/user/a.txt''" by code_simp
  have r2: "path_resolve ''/srv'' [''/home/user/a.txt''] = ''/home/user/a.txt''" by code_simp
  show ?thesis
    by (simp add: resolvePathFromQuery_def withinRoot_def isRootPath_def example_config_def
        example_root_resolved r1 r2)
qed

text \<open>
  C9, witness: a hard reset without confirmation; a delete of \<^verbatim>\<open>sub/..\<close>, which is the
  root; a delete with and without a field \<^verbatim>\<open>confirm\<close>.
\<close>

theorem destructive_operations_guards_witness:
  "fst (git_reset example_config example_git example_git
          (example_reset\<lparr>g_confirmHard := False\<rparr>) example_world) \<noteq> Success
   \<and> \<not> list_ex is_git_reset (new_effects example_world
          (snd (git_reset example_config example_git example_git
                  (example_reset\<lparr>g_confirmHard := False\<rparr>) example_world)))
   \<and> fs_delete example_config [''path'' \<mapsto> ''sub/..''] example_world
        = (Error 403 ''forbidden at root'', example_world)
   \<and> fs_delete example_config [''path'' \<mapsto> ''a.txt'', ''confirm'' \<mapsto> ''no''] example_world
        = fs_delete example_config [''path'' \<mapsto> ''a.txt''] example_world
   \<and> files (snd (fs_delete example_config [''path'' \<mapsto> ''a.txt''] example_world)) ''/home/user/a.txt''
       = None"
proof -
  let ?req = "example_reset\<lparr>g_confirmHard := False\<rparr>"
  let ?run = "git_reset example_config example_git example_git ?req example_world"
  note D = destructive_operations_guards[where cfg = example_config and T = example_git
      and T' = example_git and W = example_world]
  have m: "toLowerCase (g_mode ?req) = ''hard''" unfolding example_reset_def by code_simp
  have c: "\<not> g_confirmHard ?req" by simp
  have a: "fst ?run \<noteq> Success \<and> \<not> list_ex is_git_reset (new_effects example_world (snd ?run))"
    using D[where req = ?req and r = "fst ?run" and W' = "snd ?run", THEN conjunct1] m c by simp
  have r1: "path_resolve ''/srv'' [''/home/user'', ''sub/..''] = ''/home/user''" by code_simp
  have root: "resolvePathFromQuery example_config ([''path'' \<mapsto> ''sub/..''] ''path'') = Inr ''/home/user''
      \<and> isRootPath example_config ''/home/user''"
    by (simp add: resolvePathFromQuery_def withinRoot_def isRootPath_def example_config_def
        example_root_resolved r1)
  have b: "fs_delete example_config [''path'' \<mapsto> ''sub/..''] example_world
        = (Error 403 ''forbidden at root'', example_world)"
    using D[where body = "[''path'' \<mapsto> ''sub/..'']", THEN conjunct2, THEN conjunct1, rule_format, OF root] .
  have d: "fs_delete example_config [''path'' \<mapsto> ''a.txt'', ''confirm'' \<mapsto> ''no''] example_world
        = fs_delete example_config [''path'' \<mapsto> ''a.txt''] example_world"
    using D[where body = "[''path'' \<mapsto> ''a.txt'', ''confirm'' \<mapsto> ''no'']"
        and body' = "[''path'' \<mapsto> ''a.txt'']", THEN conjunct2, THEN conjunct2, THEN conjunct1]
    by simp
  have e: "files (snd (fs_delete example_config [''path'' \<mapsto> ''a.txt''] example_world)) ''/home/user/a.txt''
       = None"
    using D[where body = "[''path'' \<mapsto> ''a.txt'']", THEN conjunct2, THEN conjunct2, THEN conjunct2,
        rule_format, of "''/home/user/a.txt''"] example_delete_target
    by (simp add: example_world_def)
  from a b d e show ?thesis by simp
qed

text \<open>
  C9, as stated, fails: a delete request that carries the path \<^verbatim>\<open>a.txt\<close> and nothing
  else removes the file.
\<close>

theorem delete_without_confirmation_counterexample:
  "dom [''path'' \<mapsto> ''a.txt''] = {''path''}
   \<and> files example_world ''/home/user/a.txt'' = Some (File ''old'' 1000)
   \<and> fst (fs_delete example_config [''path'' \<mapsto> ''a.txt''] example_world) = Success
   \<and> files (snd (fs_delete example_config [''path'' \<mapsto> ''a.txt''] example_world)) ''/home/user/a.txt''
       = None"
proof -
  have f: "files example_world ''/home/user/a.txt'' = Some (File ''old'' 1000)"
    by (simp add: example_world_def)
  from example_delete_target f
  have "fst (fs_delete example_config [''path'' \<mapsto> ''a.txt''] example_world) = Success
   \<and> files (snd (fs_delete example_config [''path'' \<mapsto> ''a.txt''] example_world)) ''/home/user/a.txt''
       = None"
    using fs_delete_removes[where cfg = example_config and body = "[''path'' \<mapsto> ''a.txt'']"
        and target = "''/home/user/a.txt''" and W = example_world]
    by simp
  with f show ?thesis by simp
qed

text \<open>
  C10 fails on the code: the working directory \<^verbatim>\<open>./\<close> is the configured root itself
  (it resolves to \<^verbatim>\<open>/home/user\<close>, and \<^const>\<open>isRootPath\<close> holds of it), yet
  \<^const>\<open>resolveCwdFromReq\<close> accepts it, and the init endpoint runs \<^verbatim>\<open>git init\<close> in the
  root. The guard compares the raw parameter, trimmed, with \<^verbatim>\<open>.\<close>, not the resolved
  directory with the root.
\<close>

theorem git_init_runs_at_root:
  "raw_cwd (example_reset\<lparr>b_cwd := Some ''./''\<rparr>) = ''./''
   \<and> resolveCwdFromReq example_config (example_reset\<lparr>b_cwd := Some ''./''\<rparr>) = Inr ''/home/user''
   \<and> isRootPath example_config ''/home/user''
   \<and> fst (serve_git GitInit example_config example_git example_git
            (example_reset\<lparr>b_cwd := Some ''./''\<rparr>) example_world) = Success
   \<and> new_effects example_world (snd (serve_git GitInit example_config example_git example_git
            (example_reset\<lparr>b_cwd := Some ''./''\<rparr>) example_world))
       = [Exec ''git'' [''--version''],
          Exec ''git'' [''-C'', ''/home/user'', ''rev-parse'', ''--is-inside-work-tree''],
          Exec ''git'' [''-C'', ''/home/user'', ''init''],
          Exec ''git'' [''--version''],
          Exec ''git'' [''-C'', ''/home/user'', ''rev-parse'', ''--is-inside-work-tree'']]"
proof -
  let ?req = "example_reset\<lparr>b_cwd := Some ''./''\<rparr>"
  have raw: "raw_cwd ?req = ''./''" by (simp add: raw_cwd_def example_reset_def)
  have t: "trim ''./'' \<noteq> ''.''" by code_simp
  have r1: "path_resolve ''/srv'' [''/home/user'', ''./''] = ''/home/user''" by code_simp
  have rel: "path_relative ''/srv'' ''/home/user'' ''/home/user'' = []"
    by (simp add: path_relative_def)
  have nh: "\<not> hasHidden example_config ''/home/user''"
    by (simp add: hasHidden_def example_config_def rel)
  have w: "withinRoot example_config ''/home/user''"
    by (simp add: withinRoot_def example_config_def example_root_resolved)
  have cwd: "resolveCwdFromReq example_config ?req = Inr ''/home/user''"
    using t w nh by (simp add: resolveCwdFromReq_def raw example_config_def r1)
  have root: "isRootPath example_config ''/home/user''"
    by (simp add: isRootPath_def example_config_def example_root_resolved)
  have v: "example_git ''git'' [''--version''] = ExecOk []"
    by (simp add: example_git_def)
  have i: "example_git ''git'' [''-C'', ''/home/user'', ''rev-parse'', ''--is-inside-work-tree''] = ExecOk []"
    by (simp add: example_git_def)
  have n: "example_git ''git'' [''-C'', ''/home/user'', ''init''] = ExecOk []"
    by (simp add: example_git_def)
  have tr: "trim [] \<noteq> ''true''" by (simp add: trim_def)
  have info: "\<And>W. detectGitInfo example_git ''/home/user'' W
      = (\<lparr>gitAvailable = True, isRepo = False, repoRoot = None, branch = None\<rparr>,
         W\<lparr>effects := effects W @ [Exec ''git'' [''--version''],
              Exec ''git'' [''-C'', ''/home/user'', ''rev-parse'', ''--is-inside-work-tree'']]\<rparr>)"
    by (simp add: detectGitInfo_def execFileAsync_def v i succeeded_def tr)
  have st: "statSync example_world ''/home/user'' = Inr Dir"
    by (simp add: statSync_def example_world_def)
  have run: "git_init example_config example_git example_git ?req example_world
     = (Success, example_world\<lparr>effects := [Exec ''git'' [''--version''],
          Exec ''git'' [''-C'', ''/home/user'', ''rev-parse'', ''--is-inside-work-tree''],
          Exec ''git'' [''-C'', ''/home/user'', ''init''],
          Exec ''git'' [''--version''],
          Exec ''git'' [''-C'', ''/home/user'', ''rev-parse'', ''--is-inside-work-tree'']]\<rparr>)"
    unfolding git_init_def cwd sum.case st info
    by (simp add: execFileAsync_def n example_world_def)
  from raw cwd root show ?thesis
    unfolding serve_git_def git_endpoint.case run by (simp add: new_effects_def example_world_def)
qed

subsection \<open>Terminal sessions\<close>

lemma chunks_of_Nil [simp]: "chunks_of n [] = []"
  by (simp add: chunks_of.simps)

lemma chunks_of_concat: "0 < n \<Longrightarrow> concat (chunks_of n s) = s"
proof (induction n s rule: chunks_of.induct)
  case (1 n s)
  show ?case
  proof (cases "s = []")
    case True then show ?thesis by simp
  next
    case False
    with 1 have "concat (chunks_of n (drop n s)) = drop n s" by simp
    with False 1(2) show ?thesis by (subst chunks_of.simps) simp
  qed
qed

lemma chunks_of_bounded: "c \<in> set (chunks_of n s) \<Longrightarrow> c \<noteq> [] \<and> length c \<le> n"
proof (induction n s rule: chunks_of.induct)
  case (1 n s)
  show ?case
  proof (cases "s = [] \<or> n = 0")
    case True with 1(2) show ?thesis by (simp add: chunks_of.simps)
  next
    case False
    with 1(2) have "c = take n s \<or> c \<in> set (chunks_of n (drop n s))"
      by (subst (asm) chunks_of.simps) auto
    then show ?thesis
    proof
      assume "c = take n s" with False show ?thesis by auto
    next
      assume "c \<in> set (chunks_of n (drop n s))"
      with 1(1) False show ?thesis by blast
    qed
  qed
qed

lemma chunks_of_short: "s \<noteq> [] \<Longrightarrow> length s \<le> n \<Longrightarrow> chunks_of n s = [s]"
proof -
  assume a: "s \<noteq> []" "length s \<le> n"
  then have "0 < n" by (cases s) auto
  with a show ?thesis by (subst chunks_of.simps) simp
qed

lemma ws_send_open:
  assumes "readyState (socks srv ws) = 1"
  shows "socks (ws_send ws t srv) = (socks srv)(ws := (socks srv ws)\<lparr>sent := sent (socks srv ws) @ [t]\<rparr>)"
    and "terminalSessions (ws_send ws t srv) = terminalSessions srv"
  using assms by (simp_all add: ws_send_def)

lemma send_all_open:
  "readyState (socks srv ws) = 1 \<Longrightarrow>
   socks (foldl (\<lambda>v c. ws_send ws c v) srv cs)
     = (socks srv)(ws := (socks srv ws)\<lparr>sent := sent (socks srv ws) @ cs\<rparr>)
   \<and> terminalSessions (foldl (\<lambda>v c. ws_send ws c v) srv cs) = terminalSessions srv"
proof (induction cs arbitrary: srv)
  case Nil then show ?case by simp
next
  case (Cons c cs)
  let ?s1 = "ws_send ws c srv"
  note s1 = ws_send_open[OF Cons.prems, of c]
  have "readyState (socks ?s1 ws) = 1" using Cons.prems by (simp add: s1(1))
  from Cons.IH[OF this] show ?case by (auto simp: s1 fun_eq_iff)
qed

lemma sendWsTextInChunks_open:
  assumes "readyState (socks srv ws) = 1"
  shows "socks (sendWsTextInChunks ws text srv)
     = (socks srv)(ws := (socks srv ws)\<lparr>sent := sent (socks srv ws) @ chunks_of (16 * 1024) text\<rparr>)"
    and "terminalSessions (sendWsTextInChunks ws text srv) = terminalSessions srv"
  unfolding sendWsTextInChunks_def using send_all_open[OF assms] by simp_all

lemma accept_socket [simp]:
  "socks (accept ws srv) ws = \<lparr>readyState = 1, sent = [], closeCode = None, closeReason = []\<rparr>"
  "k \<noteq> ws \<Longrightarrow> socks (accept ws srv) k = socks srv k"
  "terminalSessions (accept ws srv) = terminalSessions srv"
  by (simp_all add: accept_def)

lemma reject_unknown_result:
  assumes "readyState (socks srv ws) = 1" "sent (socks srv ws) = []"
  shows "terminalSessions (reject_unknown ws i srv) = terminalSessions srv"
    and "sent (socks (reject_unknown ws i srv) ws) = [''SESSION_NOT_FOUND:'' @ i]"
    and "readyState (socks (reject_unknown ws i srv) ws) = 2"
    and "closeCode (socks (reject_unknown ws i srv) ws) = Some 1008"
    and "closeReason (socks (reject_unknown ws i srv) ws) = ''SESSION_NOT_FOUND''"
    and "k \<noteq> ws \<Longrightarrow> socks (reject_unknown ws i srv) k = socks srv k"
  using assms by (simp_all add: reject_unknown_def ws_send_def ws_close_def)

lemma reconnect_forbidden:
  assumes "readyState (socks srv ws) = 1" "sent (socks srv ws) = []"
    "terminalSessions srv i = Some sess"
    "client \<noteq> []" "s_clientId sess \<noteq> []" "s_clientId sess \<noteq> client"
  shows "terminalSessions (reconnect ws i client sess srv) = terminalSessions srv"
    and "sent (socks (reconnect ws i client sess srv) ws) = [''SESSION_FORBIDDEN:'' @ i]"
    and "readyState (socks (reconnect ws i client sess srv) ws) = 2"
    and "closeCode (socks (reconnect ws i client sess srv) ws) = Some 1008"
    and "closeReason (socks (reconnect ws i client sess srv) ws) = ''SESSION_FORBIDDEN''"
    and "k \<noteq> ws \<Longrightarrow> socks (reconnect ws i client sess srv) k = socks srv k"
  using assms by (simp_all add: reconnect_def ws_send_def ws_close_def Let_def fun_upd_idem)

lemma reconnect_attached:
  assumes "readyState (socks srv ws) = 1" "sent (socks srv ws) = []"
    "\<not> (client \<noteq> [] \<and> s_clientId sess \<noteq> [] \<and> s_clientId sess \<noteq> client)"
  shows "terminalSessions (reconnect ws i client sess srv)
           = (terminalSessions srv)(i \<mapsto> sess\<lparr>s_clientId := (if s_clientId sess = [] then client else s_clientId sess),
                                                sockets := insert ws (sockets sess)\<rparr>)"
    and "sent (socks (reconnect ws i client sess srv) ws)
           = chunks_of (16 * 1024) (history sess) @ [''SESSION_ID:'' @ sid sess]"
    and "readyState (socks (reconnect ws i client sess srv) ws) = 1"
    and "k \<noteq> ws \<Longrightarrow> socks (reconnect ws i client sess srv) k = socks srv k"
proof -
  define sess1 where "sess1 = (if client \<noteq> [] \<and> s_clientId sess = [] then sess\<lparr>s_clientId := client\<rparr> else sess)"
  define sess2 where "sess2 = sess1\<lparr>sockets := insert ws (sockets sess1)\<rparr>"
  define srv2 where "srv2 = srv\<lparr>terminalSessions := (terminalSessions srv)(i \<mapsto> sess2)\<rparr>"
  define srv3 where "srv3 = (if history sess2 \<noteq> [] then sendWsTextInChunks ws (history sess2) srv2 else srv2)"
  have nm: "\<not> (client \<noteq> [] \<and> s_clientId sess1 \<noteq> [] \<and> s_clientId sess1 \<noteq> client)"
    using assms(3) by (auto simp: sess1_def split: if_splits)
  have eq: "reconnect ws i client sess srv = ws_send ws (''SESSION_ID:'' @ sid sess2) srv3"
    unfolding reconnect_def Let_def sess1_def[symmetric]
    by (subst if_not_P[OF nm]) (simp add: srv3_def srv2_def sess2_def)
  have open2: "readyState (socks srv2 ws) = 1" "sent (socks srv2 ws) = []"
    "socks srv2 = socks srv" "terminalSessions srv2 = (terminalSessions srv)(i \<mapsto> sess2)"
    using assms by (simp_all add: srv2_def)
  have h: "history sess2 = history sess" "sid sess2 = sid sess"
    by (simp_all add: sess2_def sess1_def)
  have srv3: "socks srv3 = (socks srv)(ws := (socks srv ws)\<lparr>sent := chunks_of (16 * 1024) (history sess)\<rparr>)"
    "terminalSessions srv3 = (terminalSessions srv)(i \<mapsto> sess2)"
  proof -
    show "socks srv3 = (socks srv)(ws := (socks srv ws)\<lparr>sent := chunks_of (16 * 1024) (history sess)\<rparr>)"
    proof (cases "history sess = []")
      case True
      then show ?thesis using open2 assms by (auto simp: srv3_def h fun_eq_iff)
    next
      case False
      then show ?thesis using sendWsTextInChunks_open(1)[OF open2(1), of "history sess"] open2 assms
        by (simp add: srv3_def h)
    qed
    show "terminalSessions srv3 = (terminalSessions srv)(i \<mapsto> sess2)"
      using sendWsTextInChunks_open(2)[OF open2(1), of "history sess2"] open2(4)
      by (simp add: srv3_def)
  qed
  have open3: "readyState (socks srv3 ws) = 1" using assms by (simp add: srv3(1))
  note fin = ws_send_open[OF open3, of "''SESSION_ID:'' @ sid sess2", folded eq]
  have s2: "sess2 = sess\<lparr>s_clientId := (if s_clientId sess = [] then client else s_clientId sess),
                                                sockets := insert ws (sockets sess)\<rparr>"
    by (auto simp: sess2_def sess1_def)
  show "terminalSessions (reconnect ws i client sess srv)
           = (terminalSessions srv)(i \<mapsto> sess\<lparr>s_clientId := (if s_clientId sess = [] then client else s_clientId sess),
                                                sockets := insert ws (sockets sess)\<rparr>)"
    unfolding fin(2) srv3(2) s2 ..
  show "sent (socks (reconnect ws i client sess srv) ws)
           = chunks_of (16 * 1024) (history sess) @ [''SESSION_ID:'' @ sid sess]"
    unfolding fin(1) srv3(1) h by simp
  show "readyState (socks (reconnect ws i client sess srv) ws) = 1"
    unfolding fin(1) srv3(1) using assms by simp
  show "k \<noteq> ws \<Longrightarrow> socks (reconnect ws i client sess srv) k = socks srv k"
    unfolding fin(1) srv3(1) by simp
qed


lemma create_session_result:
  assumes "readyState (socks srv ws) = 1" "sent (socks srv ws) = []"
  shows "create_session rb None now ws dir c r client srv = srv"
    and "terminalSessions (create_session rb (Some sh) now ws dir c r client srv)
           = (terminalSessions srv)(generateSessionId rb \<mapsto>
                \<lparr>sid = generateSessionId rb, shell = sh, s_cwd = dir, cols = c, rows = r,
                 s_clientId = client, created = now, lastActivity = now,
                 history = [], sockets = {ws}\<rparr>)"
    and "sent (socks (create_session rb (Some sh) now ws dir c r client srv) ws)
           = [[ESC] @ '']0;Session: '' @ generateSessionId rb @ [CHR 0x07],
              ''SESSION_ID:'' @ generateSessionId rb]"
  using assms by (simp_all add: create_session_def ws_send_def Let_def)

lemma create_session_dom:
  assumes "readyState (socks srv ws) = 1" "sent (socks srv ws) = []"
  shows "terminalSessions (create_session rb pty now ws dir c r client srv) k \<noteq> terminalSessions srv k
         \<Longrightarrow> k = generateSessionId rb
             \<and> map_option sid (terminalSessions (create_session rb pty now ws dir c r client srv) k)
                 = Some (generateSessionId rb)"
  using create_session_result[OF assms, where rb = rb and now = now and dir = dir and c = c and r = r and client = client]
  by (cases pty) (auto split: if_splits)

lemma ws_close_result:
  assumes "readyState (socks srv ws) = 1"
  shows "terminalSessions (ws_close ws code reason srv) = terminalSessions srv"
    and "readyState (socks (ws_close ws code reason srv) ws) = 2"
    and "sent (socks (ws_close ws code reason srv) ws) = sent (socks srv ws)"
  using assms by (simp_all add: ws_close_def)

lemma on_connection_cases:
  fixes cfg req ws srv rb pty now
  defines "dir \<equiv> path_resolve (CWD cfg) [ROOT cfg, str_or (w_cwd req) ''.'']"
    and "client \<equiv> str_or (w_clientId req) []"
    and "srv0 \<equiv> accept ws srv"
  shows "\<not> withinRoot cfg dir \<Longrightarrow> on_connection cfg rb pty now ws req srv = ws_close ws None [] srv0"
    and "withinRoot cfg dir \<Longrightarrow> w_sessionId req = None \<or> w_sessionId req = Some [] \<Longrightarrow>
         on_connection cfg rb pty now ws req srv
           = create_session rb pty now ws dir (int_or (w_cols req) 80) (int_or (w_rows req) 24) client srv0"
    and "withinRoot cfg dir \<Longrightarrow> w_sessionId req = Some i \<Longrightarrow> i \<noteq> [] \<Longrightarrow>
         terminalSessions srv i = Some sess \<Longrightarrow>
         on_connection cfg rb pty now ws req srv = reconnect ws i client sess srv0"
    and "withinRoot cfg dir \<Longrightarrow> w_sessionId req = Some i \<Longrightarrow> i \<noteq> [] \<Longrightarrow>
         terminalSessions srv i = None \<Longrightarrow>
         on_connection cfg rb pty now ws req srv = reject_unknown ws i srv0"
  by (auto simp: on_connection_def Let_def dir_def client_def srv0_def)


lemma accepted_open:
  "readyState (socks (accept ws srv) ws) = 1" "sent (socks (accept ws srv) ws) = []"
  by simp_all

lemma shell_onData_sent:
  assumes "terminalSessions srv i = Some sess" "ws \<in> sockets sess" "readyState (socks srv ws) = 1"
  shows "sent (socks (shell_onData cfg now i d srv) ws) = sent (socks srv ws) @ [d]"
  using assms by (simp add: shell_onData_def Let_def)

lemma example_connect_dir:
  "withinRoot example_config (path_resolve (CWD example_config) [ROOT example_config, str_or None ''.''])"
  "\<not> withinRoot example_config
       (path_resolve (CWD example_config) [ROOT example_config, str_or (Some ''/etc'') ''.''])"
proof -
  have r1: "path_resolve ''/srv'' [''/home/user'', ''.''] = ''/home/user''" by code_simp
  have r2: "path_resolve ''/srv'' [''/home/user'', ''/etc''] = ''/etc''" by code_simp
  have r3: "path_resolve ''/srv'' [''/etc''] = ''/etc''" by code_simp
  show "withinRoot example_config (path_resolve (CWD example_config) [ROOT example_config, str_or None ''.''])"
    by (simp add: withinRoot_def example_config_def str_or_def r1 example_root_resolved)
  show "\<not> withinRoot example_config
       (path_resolve (CWD example_config) [ROOT example_config, str_or (Some ''/etc'') ''.''])"
    by (simp add: withinRoot_def example_config_def str_or_def r2 r3 example_root_resolved)
qed

text \<open>
  C4, as amended. For every connection that supplies a non-empty session identifier
  that is not in the registry: the registry is left as it is and the socket is closed;
  when the working directory of the connection passes the root check, the one frame sent
  is \<^verbatim>\<open>SESSION_NOT_FOUND:\<close> followed by the identifier, and the socket is closed with
  code 1008 and reason \<^verbatim>\<open>SESSION_NOT_FOUND\<close>. A connection that supplies a non-empty
  session identifier never changes the set of registered identifiers. Every identifier
  that a connection adds to the registry is the output of \<^const>\<open>generateSessionId\<close> on
  the random bytes, is the \<^verbatim>\<open>id\<close> of the session registered under it, and is added only
  for a connection without a (non-empty) session identifier; such a connection, when its
  working directory passes the root check and the shell is spawned, registers exactly
  that one session.
\<close>

theorem unknown_session_rejected_and_ids_minted:
  "(let srv' = on_connection cfg randomBytes pty now ws req srv;
        dir = path_resolve (CWD cfg) [ROOT cfg, str_or (w_cwd req) ''.'']
    in (\<forall>i. w_sessionId req = Some i \<and> i \<noteq> [] \<and> terminalSessions srv i = None \<longrightarrow>
          terminalSessions srv' = terminalSessions srv
          \<and> readyState (socks srv' ws) = 2
          \<and> (withinRoot cfg dir \<longrightarrow>
                sent (socks srv' ws) = [''SESSION_NOT_FOUND:'' @ i]
                \<and> closeCode (socks srv' ws) = Some 1008
                \<and> closeReason (socks srv' ws) = ''SESSION_NOT_FOUND''))
       \<and> (\<forall>i. w_sessionId req = Some i \<and> i \<noteq> [] \<longrightarrow>
             dom (terminalSessions srv') = dom (terminalSessions srv))
       \<and> (\<forall>k. terminalSessions srv k = None \<and> terminalSessions srv' k \<noteq> None \<longrightarrow>
             (w_sessionId req = None \<or> w_sessionId req = Some [])
             \<and> k = generateSessionId randomBytes
             \<and> map_option sid (terminalSessions srv' k) = Some (generateSessionId randomBytes))
       \<and> ((w_sessionId req = None \<or> w_sessionId req = Some []) \<and> withinRoot cfg dir \<and> pty \<noteq> None \<longrightarrow>
             map_option sid (terminalSessions srv' (generateSessionId randomBytes))
               = Some (generateSessionId randomBytes)
             \<and> (\<forall>k. k \<noteq> generateSessionId randomBytes \<longrightarrow>
                    terminalSessions srv' k = terminalSessions srv k)))"
proof -
  define srv' where "srv' = on_connection cfg randomBytes pty now ws req srv"
  define dir where "dir = path_resolve (CWD cfg) [ROOT cfg, str_or (w_cwd req) ''.'']"
  define srv0 where "srv0 = accept ws srv"
  define client where "client = str_or (w_clientId req) []"
  have o: "readyState (socks srv0 ws) = 1" "sent (socks srv0 ws) = []"
    "terminalSessions srv0 = terminalSessions srv"
    by (simp_all add: srv0_def)
  note cases = on_connection_cases[where cfg = cfg and req = req and rb = randomBytes and pty = pty and now = now
      and ws = ws and srv = srv, folded dir_def client_def srv0_def srv'_def]
  have out: "\<not> withinRoot cfg dir \<Longrightarrow>
      terminalSessions srv' = terminalSessions srv \<and> readyState (socks srv' ws) = 2"
    using cases(1) ws_close_result[OF o(1), where code = None and reason = "[]"] o(3) by simp
  have A: "\<forall>i. w_sessionId req = Some i \<and> i \<noteq> [] \<and> terminalSessions srv i = None \<longrightarrow>
          terminalSessions srv' = terminalSessions srv
          \<and> readyState (socks srv' ws) = 2
          \<and> (withinRoot cfg dir \<longrightarrow>
                sent (socks srv' ws) = [''SESSION_NOT_FOUND:'' @ i]
                \<and> closeCode (socks srv' ws) = Some 1008
                \<and> closeReason (socks srv' ws) = ''SESSION_NOT_FOUND'')"
  proof (intro allI impI)
    fix i assume h: "w_sessionId req = Some i \<and> i \<noteq> [] \<and> terminalSessions srv i = None"
    show "terminalSessions srv' = terminalSessions srv
          \<and> readyState (socks srv' ws) = 2
          \<and> (withinRoot cfg dir \<longrightarrow>
                sent (socks srv' ws) = [''SESSION_NOT_FOUND:'' @ i]
                \<and> closeCode (socks srv' ws) = Some 1008
                \<and> closeReason (socks srv' ws) = ''SESSION_NOT_FOUND'')"
    proof (cases "withinRoot cfg dir")
      case False with out show ?thesis by simp
    next
      case True
      with h cases(4)[where i = i] have "srv' = reject_unknown ws i srv0" by simp
      with reject_unknown_result[OF o(1,2), where i = i] o(3) True show ?thesis by simp
    qed
  qed
  have B: "\<forall>i. w_sessionId req = Some i \<and> i \<noteq> [] \<longrightarrow>
             dom (terminalSessions srv') = dom (terminalSessions srv)"
  proof (intro allI impI)
    fix i assume h: "w_sessionId req = Some i \<and> i \<noteq> []"
    show "dom (terminalSessions srv') = dom (terminalSessions srv)"
    proof (cases "withinRoot cfg dir")
      case False with out show ?thesis by simp
    next
      case True
      show ?thesis
      proof (cases "terminalSessions srv i")
        case None
        with h True cases(4)[where i = i] have "srv' = reject_unknown ws i srv0" by simp
        with reject_unknown_result(1)[OF o(1,2), where i = i] o(3) show ?thesis by simp
      next
        case (Some sess)
        with h True cases(3)[where i = i and sess = sess] have e: "srv' = reconnect ws i client sess srv0" by simp
        show ?thesis
        proof (cases "client \<noteq> [] \<and> s_clientId sess \<noteq> [] \<and> s_clientId sess \<noteq> client")
          case True
          then have "terminalSessions srv' = terminalSessions srv0"
            unfolding e using reconnect_forbidden(1)[OF o(1,2), where i = i and sess = sess and client = client] Some o(3) by simp
          with o(3) show ?thesis by simp
        next
          case False
          from reconnect_attached(1)[OF o(1,2) False, where i = i] Some o(3) show ?thesis
            unfolding e by auto
        qed
      qed
    qed
  qed
  have C: "\<forall>k. terminalSessions srv k = None \<and> terminalSessions srv' k \<noteq> None \<longrightarrow>
             (w_sessionId req = None \<or> w_sessionId req = Some [])
             \<and> k = generateSessionId randomBytes
             \<and> map_option sid (terminalSessions srv' k) = Some (generateSessionId randomBytes)"
  proof (intro allI impI)
    fix k assume h: "terminalSessions srv k = None \<and> terminalSessions srv' k \<noteq> None"
    then have d: "dom (terminalSessions srv') \<noteq> dom (terminalSessions srv)" by auto
    with B have ns: "w_sessionId req = None \<or> w_sessionId req = Some []"
      by (cases "w_sessionId req") auto
    from d out have w: "withinRoot cfg dir" by auto
    from cases(2)[OF w ns] have e: "srv' = create_session randomBytes pty now ws dir
        (int_or (w_cols req) 80) (int_or (w_rows req) 24) client srv0" .
    from h o(3) have "terminalSessions srv' k \<noteq> terminalSessions srv0 k" by simp
    from create_session_dom[OF o(1,2) this[unfolded e]] ns show
      "(w_sessionId req = None \<or> w_sessionId req = Some [])
             \<and> k = generateSessionId randomBytes
             \<and> map_option sid (terminalSessions srv' k) = Some (generateSessionId randomBytes)"
      unfolding e by auto
  qed
  have D: "(w_sessionId req = None \<or> w_sessionId req = Some []) \<and> withinRoot cfg dir \<and> pty \<noteq> None \<longrightarrow>
             map_option sid (terminalSessions srv' (generateSessionId randomBytes))
               = Some (generateSessionId randomBytes)
             \<and> (\<forall>k. k \<noteq> generateSessionId randomBytes \<longrightarrow>
                    terminalSessions srv' k = terminalSessions srv k)"
  proof
    assume h: "(w_sessionId req = None \<or> w_sessionId req = Some []) \<and> withinRoot cfg dir \<and> pty \<noteq> None"
    then obtain sh where sh: "pty = Some sh" by auto
    from cases(2) h have e: "srv' = create_session randomBytes pty now ws dir
        (int_or (w_cols req) 80) (int_or (w_rows req) 24) client srv0" by simp
    show "map_option sid (terminalSessions srv' (generateSessionId randomBytes))
               = Some (generateSessionId randomBytes)
             \<and> (\<forall>k. k \<noteq> generateSessionId randomBytes \<longrightarrow>
                    terminalSessions srv' k = terminalSessions srv k)"
      unfolding e sh using create_session_result(2)[OF o(1,2),
          where rb = randomBytes and sh = sh and now = now and dir = dir
            and c = "int_or (w_cols req) 80" and r = "int_or (w_rows req) 24" and client = client]
        o(3) by simp
  qed
  show ?thesis
    unfolding Let_def srv'_def[symmetric] dir_def[symmetric]
    by (rule conjI[OF A conjI[OF B conjI[OF C D]]])
qed

text \<open>
  C4, witness: the unknown identifier \<^verbatim>\<open>beef\<close> is answered \<^verbatim>\<open>SESSION_NOT_FOUND:beef\<close>;
  without an identifier the session \<^verbatim>\<open>00ff10\<close> is created from the bytes 0, 255, 16.
\<close>

theorem unknown_session_rejected_and_ids_minted_witness:
  "sent (socks (on_connection example_config [0, 255, 16] (Some 9) 5 1
                 (example_connect\<lparr>w_sessionId := Some ''beef''\<rparr>) example_server) 1)
     = [''SESSION_NOT_FOUND:beef'']
   \<and> terminalSessions (on_connection example_config [0, 255, 16] (Some 9) 5 1
                 (example_connect\<lparr>w_sessionId := Some ''beef''\<rparr>) example_server)
     = terminalSessions example_server
   \<and> map_option sid (terminalSessions (on_connection example_config [0, 255, 16] (Some 9) 5 1
                 example_connect example_server) (generateSessionId [0, 255, 16]))
     = Some (generateSessionId [0, 255, 16])
   \<and> generateSessionId [0, 255, 16] = ''00ff10''"
proof -
  note U = unknown_session_rejected_and_ids_minted[where cfg = example_config
      and randomBytes = "[0, 255, 16]" and pty = "Some 9" and now = 5 and ws = 1
      and srv = example_server, unfolded Let_def]
  let ?req = "example_connect\<lparr>w_sessionId := Some ''beef''\<rparr>"
  have none: "terminalSessions example_server ''beef'' = None"
    by (simp add: example_server_def)
  have w: "withinRoot example_config
       (path_resolve (CWD example_config) [ROOT example_config, str_or (w_cwd ?req) ''.''])"
    using example_connect_dir(1) by (simp add: example_connect_def)
  have w2: "withinRoot example_config
       (path_resolve (CWD example_config) [ROOT example_config, str_or (w_cwd example_connect) ''.''])"
    using example_connect_dir(1) by (simp add: example_connect_def)
  from U[where req = ?req, THEN conjunct1, rule_format, of "''beef''"] none w
  have a: "sent (socks (on_connection example_config [0, 255, 16] (Some 9) 5 1 ?req example_server) 1)
     = [''SESSION_NOT_FOUND:beef'']
   \<and> terminalSessions (on_connection example_config [0, 255, 16] (Some 9) 5 1 ?req example_server)
     = terminalSessions example_server"
    by simp
  from U[where req = example_connect, THEN conjunct2, THEN conjunct2, THEN conjunct2] w2
  have b: "map_option sid (terminalSessions (on_connection example_config [0, 255, 16] (Some 9) 5 1
                 example_connect example_server) (generateSessionId [0, 255, 16]))
     = Some (generateSessionId [0, 255, 16])"
    by (simp add: example_connect_def)
  have c: "generateSessionId [0, 255, 16] = ''00ff10''" by code_simp
  from a b c show ?thesis by simp
qed

text \<open>
  C4, as stated, fails: with the working directory \<^verbatim>\<open>/etc\<close>, outside the root, the
  connection with the unknown identifier \<^verbatim>\<open>beef\<close> is closed without any frame.
\<close>

theorem unknown_session_outside_root_counterexample:
  "terminalSessions example_server ''beef'' = None
   \<and> sent (socks (on_connection example_config [0, 255, 16] (Some 9) 5 1
                 (example_connect\<lparr>w_cwd := Some ''/etc'', w_sessionId := Some ''beef''\<rparr>)
                 example_server) 1) = []"
proof -
  let ?req = "example_connect\<lparr>w_cwd := Some ''/etc'', w_sessionId := Some ''beef''\<rparr>"
  have nw: "\<not> withinRoot example_config
       (path_resolve (CWD example_config) [ROOT example_config, str_or (w_cwd ?req) ''.''])"
    using example_connect_dir(2) by simp
  from on_connection_cases(1)[OF nw]
  have "on_connection example_config [0, 255, 16] (Some 9) 5 1 ?req example_server
          = ws_close 1 None [] (accept 1 example_server)" .
  then show ?thesis
    using ws_close_result(3)[OF accepted_open(1)[where ws = 1 and srv = example_server],
        where code = None and reason = "[]"]
    by (simp add: example_server_def)
qed

text \<open>
  C5, as amended. For every connection whose working directory passes the root check
  and whose session identifier is in the registry, with \<open>client\<close> the client identifier
  supplied (empty when none is): when \<open>client\<close> and the owner of the session are both
  non-empty and differ, the one frame sent is \<^verbatim>\<open>SESSION_FORBIDDEN:\<close> followed by the
  identifier, the socket is closed with code 1008, and the registry is left as it is
  (nothing is attached, nothing replayed). Otherwise the session's owner becomes
  \<open>client\<close> if it had none, the socket is attached, and the frames sent are the history
  of the session cut into chunks (none empty, none longer than 16384, their
  concatenation is the history) followed by \<^verbatim>\<open>SESSION_ID:\<close> and the session's identifier;
  PTY output that follows comes after these frames.
\<close>

theorem reconnect_protocol:
  "(let srv' = on_connection cfg randomBytes pty now ws req srv;
        dir = path_resolve (CWD cfg) [ROOT cfg, str_or (w_cwd req) ''.''];
        client = str_or (w_clientId req) []
    in \<forall>i sess. w_sessionId req = Some i \<and> i \<noteq> [] \<and> terminalSessions srv i = Some sess
           \<and> withinRoot cfg dir \<longrightarrow>
         (client \<noteq> [] \<and> s_clientId sess \<noteq> [] \<and> s_clientId sess \<noteq> client \<longrightarrow>
            terminalSessions srv' = terminalSessions srv
            \<and> sent (socks srv' ws) = [''SESSION_FORBIDDEN:'' @ i]
            \<and> readyState (socks srv' ws) = 2
            \<and> closeCode (socks srv' ws) = Some 1008
            \<and> closeReason (socks srv' ws) = ''SESSION_FORBIDDEN'')
         \<and> (\<not> (client \<noteq> [] \<and> s_clientId sess \<noteq> [] \<and> s_clientId sess \<noteq> client) \<longrightarrow>
            terminalSessions srv'
              = (terminalSessions srv)(i \<mapsto> sess\<lparr>s_clientId := (if s_clientId sess = [] then client
                                                                   else s_clientId sess),
                                                  sockets := insert ws (sockets sess)\<rparr>)
            \<and> sent (socks srv' ws) = chunks_of (16 * 1024) (history sess) @ [''SESSION_ID:'' @ sid sess]
            \<and> concat (chunks_of (16 * 1024) (history sess)) = history sess
            \<and> (\<forall>c\<in>set (chunks_of (16 * 1024) (history sess)). c \<noteq> [] \<and> length c \<le> 16 * 1024)
            \<and> readyState (socks srv' ws) = 1
            \<and> (\<forall>t d. sent (socks (shell_onData cfg t i d srv') ws)
                        = chunks_of (16 * 1024) (history sess) @ [''SESSION_ID:'' @ sid sess, d])))"
proof -
  define srv' where "srv' = on_connection cfg randomBytes pty now ws req srv"
  define dir where "dir = path_resolve (CWD cfg) [ROOT cfg, str_or (w_cwd req) ''.'']"
  define srv0 where "srv0 = accept ws srv"
  define client where "client = str_or (w_clientId req) []"
  have o: "readyState (socks srv0 ws) = 1" "sent (socks srv0 ws) = []"
    "terminalSessions srv0 = terminalSessions srv"
    by (simp_all add: srv0_def)
  note cases = on_connection_cases[where cfg = cfg and req = req and rb = randomBytes and pty = pty and now = now
      and ws = ws and srv = srv, folded dir_def client_def srv0_def srv'_def]
  have "\<forall>i sess. w_sessionId req = Some i \<and> i \<noteq> [] \<and> terminalSessions srv i = Some sess
           \<and> withinRoot cfg dir \<longrightarrow>
         (client \<noteq> [] \<and> s_clientId sess \<noteq> [] \<and> s_clientId sess \<noteq> client \<longrightarrow>
            terminalSessions srv' = terminalSessions srv
            \<and> sent (socks srv' ws) = [''SESSION_FORBIDDEN:'' @ i]
            \<and> readyState (socks srv' ws) = 2
            \<and> closeCode (socks srv' ws) = Some 1008
            \<and> closeReason (socks srv' ws) = ''SESSION_FORBIDDEN'')
         \<and> (\<not> (client \<noteq> [] \<and> s_clientId sess \<noteq> [] \<and> s_clientId sess \<noteq> client) \<longrightarrow>
            terminalSessions srv'
              = (terminalSessions srv)(i \<mapsto> sess\<lparr>s_clientId := (if s_clientId sess = [] then client
                                                                   else s_clientId sess),
                                                  sockets := insert ws (sockets sess)\<rparr>)
            \<and> sent (socks srv' ws) = chunks_of (16 * 1024) (history sess) @ [''SESSION_ID:'' @ sid sess]
            \<and> concat (chunks_of (16 * 1024) (history sess)) = history sess
            \<and> (\<forall>c\<in>set (chunks_of (16 * 1024) (history sess)). c \<noteq> [] \<and> length c \<le> 16 * 1024)
            \<and> readyState (socks srv' ws) = 1
            \<and> (\<forall>t d. sent (socks (shell_onData cfg t i d srv') ws)
                        = chunks_of (16 * 1024) (history sess) @ [''SESSION_ID:'' @ sid sess, d]))"
  proof (intro allI impI conjI)
    fix i sess
    assume h: "w_sessionId req = Some i \<and> i \<noteq> [] \<and> terminalSessions srv i = Some sess \<and> withinRoot cfg dir"
      and m: "client \<noteq> [] \<and> s_clientId sess \<noteq> [] \<and> s_clientId sess \<noteq> client"
    from h cases(3)[where i = i and sess = sess] have e: "srv' = reconnect ws i client sess srv0" by simp
    have ts: "terminalSessions srv0 i = Some sess" using h o(3) by simp
    note F = reconnect_forbidden[OF o(1,2) ts m[THEN conjunct1] m[THEN conjunct2, THEN conjunct1]
        m[THEN conjunct2, THEN conjunct2], folded e]
    show "terminalSessions srv' = terminalSessions srv" using F(1) o(3) by simp
    show "sent (socks srv' ws) = [''SESSION_FORBIDDEN:'' @ i]" by (rule F(2))
    show "readyState (socks srv' ws) = 2" by (rule F(3))
    show "closeCode (socks srv' ws) = Some 1008" by (rule F(4))
    show "closeReason (socks srv' ws) = ''SESSION_FORBIDDEN''" by (rule F(5))
  next
    fix i sess
    assume h: "w_sessionId req = Some i \<and> i \<noteq> [] \<and> terminalSessions srv i = Some sess \<and> withinRoot cfg dir"
      and m: "\<not> (client \<noteq> [] \<and> s_clientId sess \<noteq> [] \<and> s_clientId sess \<noteq> client)"
    from h cases(3)[where i = i and sess = sess] have e: "srv' = reconnect ws i client sess srv0" by simp
    note A = reconnect_attached[OF o(1,2) m, where i = i, folded e]
    show ts: "terminalSessions srv'
              = (terminalSessions srv)(i \<mapsto> sess\<lparr>s_clientId := (if s_clientId sess = [] then client
                                                                   else s_clientId sess),
                                                  sockets := insert ws (sockets sess)\<rparr>)"
      using A(1) o(3) by simp
    show se: "sent (socks srv' ws) = chunks_of (16 * 1024) (history sess) @ [''SESSION_ID:'' @ sid sess]"
      by (rule A(2))
    show "concat (chunks_of (16 * 1024) (history sess)) = history sess"
      by (rule chunks_of_concat) simp
    show "\<forall>c\<in>set (chunks_of (16 * 1024) (history sess)). c \<noteq> [] \<and> length c \<le> 16 * 1024"
      using chunks_of_bounded by blast
    show rs: "readyState (socks srv' ws) = 1" by (rule A(3))
    fix t d
    have "sent (socks (shell_onData cfg t i d srv') ws) = sent (socks srv' ws) @ [d]"
      by (rule shell_onData_sent[where sess = "sess\<lparr>s_clientId := (if s_clientId sess = [] then client
                                                                   else s_clientId sess),
                                                  sockets := insert ws (sockets sess)\<rparr>"])
         (simp_all add: ts rs)
    then show "sent (socks (shell_onData cfg t i d srv') ws)
                        = chunks_of (16 * 1024) (history sess) @ [''SESSION_ID:'' @ sid sess, d]"
      by (simp add: se)
  qed
  then show ?thesis
    unfolding Let_def srv'_def[symmetric] dir_def[symmetric] client_def[symmetric] .
qed

text \<open>
  C5, witness: \<^verbatim>\<open>alice\<close> reconnects to her session \<^verbatim>\<open>feed\<close> and gets the history, the
  identifier and then new output; \<^verbatim>\<open>bob\<close> is refused.
\<close>

theorem reconnect_protocol_witness:
  "sent (socks (on_connection example_config [] None 5 1
                 (example_connect\<lparr>w_sessionId := Some ''feed''\<rparr>) example_server) 1)
     = [''hello'', ''SESSION_ID:feed'']
   \<and> sent (socks (shell_onData example_config 6 ''feed'' ''x''
                   (on_connection example_config [] None 5 1
                      (example_connect\<lparr>w_sessionId := Some ''feed''\<rparr>) example_server)) 1)
     = [''hello'', ''SESSION_ID:feed'', ''x'']
   \<and> sent (socks (on_connection example_config [] None 5 1
                 (example_connect\<lparr>w_sessionId := Some ''feed'', w_clientId := Some ''bob''\<rparr>)
                 example_server) 1)
     = [''SESSION_FORBIDDEN:feed'']
   \<and> terminalSessions (on_connection example_config [] None 5 1
                 (example_connect\<lparr>w_sessionId := Some ''feed'', w_clientId := Some ''bob''\<rparr>)
                 example_server)
     = terminalSessions example_server"
proof -
  note R = reconnect_protocol[where cfg = example_config and randomBytes = "[]" and pty = None
      and now = 5 and ws = 1 and srv = example_server, unfolded Let_def]
  let ?alice = "example_connect\<lparr>w_sessionId := Some ''feed''\<rparr>"
  let ?bob = "example_connect\<lparr>w_sessionId := Some ''feed'', w_clientId := Some ''bob''\<rparr>"
  have known: "terminalSessions example_server ''feed'' = Some example_session"
    by (simp add: example_server_def)
  have wa: "withinRoot example_config
       (path_resolve (CWD example_config) [ROOT example_config, str_or (w_cwd ?alice) ''.''])"
    using example_connect_dir(1) by (simp add: example_connect_def)
  have wb: "withinRoot example_config
       (path_resolve (CWD example_config) [ROOT example_config, str_or (w_cwd ?bob) ''.''])"
    using example_connect_dir(1) by (simp add: example_connect_def)
  have ch: "chunks_of (16 * 1024) (history example_session) = [''hello'']"
    by (simp add: example_session_def chunks_of_short)
  have ca: "str_or (w_clientId ?alice) [] = ''alice''" "str_or (w_clientId ?bob) [] = ''bob''"
    by (simp_all add: example_connect_def str_or_def)
  have own: "s_clientId example_session = ''alice''" "sid example_session = ''feed''"
    by (simp_all add: example_session_def)
  have ha: "w_sessionId ?alice = Some ''feed'' \<and> ''feed'' \<noteq> []
      \<and> terminalSessions example_server ''feed'' = Some example_session
      \<and> withinRoot example_config
       (path_resolve (CWD example_config) [ROOT example_config, str_or (w_cwd ?alice) ''.''])"
    using known wa by simp
  have hb: "w_sessionId ?bob = Some ''feed'' \<and> ''feed'' \<noteq> []
      \<and> terminalSessions example_server ''feed'' = Some example_session
      \<and> withinRoot example_config
       (path_resolve (CWD example_config) [ROOT example_config, str_or (w_cwd ?bob) ''.''])"
    using known wb by simp
  have a: "sent (socks (on_connection example_config [] None 5 1 ?alice example_server) 1)
     = [''hello'', ''SESSION_ID:feed'']
   \<and> sent (socks (shell_onData example_config 6 ''feed'' ''x''
                   (on_connection example_config [] None 5 1 ?alice example_server)) 1)
     = [''hello'', ''SESSION_ID:feed'', ''x'']"
    using R[where req = ?alice, rule_format, OF ha, THEN conjunct2, unfolded ca own ch]
    by simp
  have b: "sent (socks (on_connection example_config [] None 5 1 ?bob example_server) 1)
     = [''SESSION_FORBIDDEN:feed'']
   \<and> terminalSessions (on_connection example_config [] None 5 1 ?bob example_server)
     = terminalSessions example_server"
    using R[where req = ?bob, rule_format, OF hb, THEN conjunct1, unfolded ca own]
    by simp
  from a b show ?thesis by simp
qed

text \<open>
  C5, as stated, fails, in two ways. With the working directory \<^verbatim>\<open>/etc\<close>, outside the
  root, the owner \<^verbatim>\<open>alice\<close> reconnecting to her session gets no frame and is not
  attached. And a reconnect that supplies no client identifier to the session owned by
  \<^verbatim>\<open>alice\<close> is not refused, although the owner differs from what was supplied: the
  socket is attached and gets the replay and the session identifier.
\<close>

theorem reconnect_guards_counterexample:
  "terminalSessions example_server ''feed'' = Some example_session
   \<and> s_clientId example_session = ''alice''
   \<and> history example_session = ''hello''
   \<and> sockets example_session = {}
   \<and> sent (socks (on_connection example_config [] None 5 1
                 (example_connect\<lparr>w_cwd := Some ''/etc'', w_sessionId := Some ''feed''\<rparr>)
                 example_server) 1) = []
   \<and> terminalSessions (on_connection example_config [] None 5 1
                 (example_connect\<lparr>w_cwd := Some ''/etc'', w_sessionId := Some ''feed''\<rparr>)
                 example_server) ''feed'' = Some example_session
   \<and> str_or (w_clientId (example_connect\<lparr>w_sessionId := Some ''feed'', w_clientId := None\<rparr>)) []
       \<noteq> s_clientId example_session
   \<and> sent (socks (on_connection example_config [] None 5 1
                 (example_connect\<lparr>w_sessionId := Some ''feed'', w_clientId := None\<rparr>)
                 example_server) 1) = [''hello'', ''SESSION_ID:feed'']
   \<and> map_option sockets (terminalSessions (on_connection example_config [] None 5 1
                 (example_connect\<lparr>w_sessionId := Some ''feed'', w_clientId := None\<rparr>)
                 example_server) ''feed'') = Some {1}"
proof -
  let ?req = "example_connect\<lparr>w_cwd := Some ''/etc'', w_sessionId := Some ''feed''\<rparr>"
  let ?anon = "example_connect\<lparr>w_sessionId := Some ''feed'', w_clientId := None\<rparr>"
  have nw: "\<not> withinRoot example_config
       (path_resolve (CWD example_config) [ROOT example_config, str_or (w_cwd ?req) ''.''])"
    using example_connect_dir(2) by simp
  from on_connection_cases(1)[OF nw]
  have "on_connection example_config [] None 5 1 ?req example_server
          = ws_close 1 None [] (accept 1 example_server)" .
  then have a: "sent (socks (on_connection example_config [] None 5 1 ?req example_server) 1) = []
     \<and> terminalSessions (on_connection example_config [] None 5 1 ?req example_server) ''feed''
         = Some example_session"
    using ws_close_result(1,3)[OF accepted_open(1)[where ws = 1 and srv = example_server],
        where code = None and reason = "[]"]
    by (simp add: example_server_def)
  have w: "withinRoot example_config
       (path_resolve (CWD example_config) [ROOT example_config, str_or (w_cwd ?anon) ''.''])"
    using example_connect_dir(1) by (simp add: example_connect_def)
  have known: "terminalSessions example_server ''feed'' = Some example_session"
    by (simp add: example_server_def)
  have cl: "str_or (w_clientId ?anon) [] = []" by (simp add: str_or_def)
  have sid: "w_sessionId ?anon = Some ''feed''" by simp
  have ne: "''feed'' \<noteq> []" by simp
  have run: "on_connection example_config [] None 5 1 ?anon example_server
          = reconnect 1 ''feed'' [] example_session (accept 1 example_server)"
    using on_connection_cases(3)[OF w sid ne known, where rb = "[]" and pty = None and now = 5 and ws = 1]
    unfolding cl .
  have nm: "\<not> ([] \<noteq> ([] :: string) \<and> s_clientId example_session \<noteq> []
              \<and> s_clientId example_session \<noteq> [])" by simp
  note A = reconnect_attached(1,2)[OF accepted_open[where ws = 1 and srv = example_server] nm,
      where i = "''feed''", folded run]
  have ch: "chunks_of (16 * 1024) (history example_session) = [''hello'']"
    by (simp add: example_session_def chunks_of_short)
  have b: "sent (socks (on_connection example_config [] None 5 1 ?anon example_server) 1)
       = [''hello'', ''SESSION_ID:feed'']"
    unfolding A(2) ch by (simp add: example_session_def)
  have c: "map_option sockets (terminalSessions
       (on_connection example_config [] None 5 1 ?anon example_server) ''feed'') = Some {1}"
    unfolding A(1) by (simp add: example_session_def)
  have d: "str_or (w_clientId ?anon) [] \<noteq> s_clientId example_session"
    unfolding cl by (simp add: example_session_def)
  from a b c d known show ?thesis by (simp add: example_session_def)
qed

subsection \<open>Text files\<close>

text \<open>
  C8 fails on the code: a \<^verbatim>\<open>PUT /api/file\<close> for the new file \<^verbatim>\<open>../user2/d/x.txt\<close>, with the
  root \<^verbatim>\<open>/home/user\<close>, succeeds; it creates the parent directory \<^verbatim>\<open>/home/user2/d\<close>,
  which does not lie inside the root, and writes the file there. The parent is checked
  with \<^const>\<open>withinRoot\<close>, and \<^verbatim>\<open>/home/user2/d\<close> starts with \<^verbatim>\<open>/home/user\<close>.
\<close>

theorem put_creates_parent_outside_root:
  "files example_world ''/home/user2/d'' = None
   \<and> fst (put_file example_config 2000 example_put_outside example_world) = Success
   \<and> new_effects example_world (snd (put_file example_config 2000 example_put_outside example_world))
       = [Mkdir ''/home/user2/d'',
          WriteFile ''/home/user2/d/x.txt.42.tmp'' ''new'',
          Rename ''/home/user2/d/x.txt.42.tmp'' ''/home/user2/d/x.txt'']
   \<and> files (snd (put_file example_config 2000 example_put_outside example_world)) ''/home/user2/d''
       = Some Dir
   \<and> files (snd (put_file example_config 2000 example_put_outside example_world)) ''/home/user2/d/x.txt''
       = Some (File ''new'' 2000)
   \<and> \<not> insideRoot example_config ''/home/user2/d''"
proof -
  let ?t = "''/home/user2/d/x.txt''" and ?tmp = "''/home/user2/d/x.txt.42.tmp''"
  let ?p = "''/home/user2/d''"
  have r1: "path_resolve ''/srv'' [''/home/user'', ''../user2/d/x.txt''] = ?t" by code_simp
  have r2: "path_resolve ''/srv'' [?t] = ?t" by code_simp
  have r3: "path_resolve ''/srv'' [?p] = ?p" by code_simp
  have d1: "path_dirname ?t = ?p" by code_simp
  have d2: "path_dirname ?tmp = ?p" by code_simp
  have sg: "segments ?p = [''home'', ''user2'', ''d'']" by code_simp
  have s0: "segments ''/home/user'' = [''home'', ''user'']" by code_simp
  have tg: "resolvePathFromQuery example_config (Some ''../user2/d/x.txt'') = Inr ?t"
    by (simp add: resolvePathFromQuery_def withinRoot_def example_config_def example_root_resolved r1 r2)
  have wp: "withinRoot example_config ?p"
    by (simp add: withinRoot_def example_config_def example_root_resolved r3)
  have ni: "\<not> insideRoot example_config ?p"
    by (simp add: insideRoot_def example_config_def example_root_resolved r3 sg s0)
  let ?f1 = "(files example_world)(''/home'' \<mapsto> Dir, ''/home/user2'' \<mapsto> Dir, ?p \<mapsto> Dir)"
  let ?W1 = "example_world\<lparr>files := ?f1, effects := [Mkdir ?p]\<rparr>"
  have mk: "mkdirSync_recursive ?p example_world = Inr ?W1"
    by (simp add: mkdirSync_recursive_def sg example_world_def SEP_def)
  have pc: "put_precheck example_config ?t NoToken example_world = Inr ?W1"
    using wp mk by (simp add: put_precheck_def existsSync_def d1 example_world_def Let_def)
  let ?W2 = "?W1\<lparr>files := (?f1)(?tmp \<mapsto> File ''new'' 2000),
                  effects := [Mkdir ?p, WriteFile ?tmp ''new'']\<rparr>"
  have wr: "writeFileSync ?tmp ''new'' 2000 ?W1 = Inr ?W2"
    by (simp add: writeFileSync_def isDirectoryAt_def d2 example_world_def)
  let ?W3 = "?W2\<lparr>files := (((?f1)(?tmp \<mapsto> File ''new'' 2000))(?tmp := None))(?t \<mapsto> File ''new'' 2000),
                  effects := [Mkdir ?p, WriteFile ?tmp ''new'', Rename ?tmp ?t]\<rparr>"
  have rn: "renameSync ?tmp ?t ?W2 = Inr ?W3"
    by (simp add: renameSync_def isDirectoryAt_def d1 example_world_def)
  have pw: "put_write example_config ?t ''new'' 2000 ?W1 = (Success, ?W3)"
  proof -
    have tmp: "?t @ ''.'' @ PID example_config @ ''.tmp'' = ?tmp" by (simp add: example_config_def)
    have st: "statSync ?W3 ?t = Inr (File ''new'' 2000)" by (simp add: statSync_def)
    show ?thesis unfolding put_write_def Let_def tmp wr sum.case rn st by simp
  qed
  have run: "put_file example_config 2000 example_put_outside example_world = (Success, ?W3)"
    using tg pc pw by (simp add: put_file_def example_put_outside_def MAX_TEXT_FILE_BYTES_def)
  have f0: "files example_world ?p = None" by (simp add: example_world_def)
  from f0 ni show ?thesis unfolding run by (simp add: new_effects_def example_world_def)
qed

end
